(* ===== verification/MQ_Float.thy ===== *)
theory MQ_Float
  imports Complex_Main "HOL-Library.Log_Nat"
begin

text \<open>
  Python floats as far as the adapter computes with them: time-outs in seconds are
  multiplied by 1000, truncated, added to clock readings and compared. A finite float is
  a mantissa and a binary exponent; results are rounded to 53 bits, ties to even, as IEEE
  doubles are. Sums and products of doubles by 1000 never fall below the subnormal grid,
  so underflow does not occur.
\<close>

section \<open>Floats\<close>

datatype pyfloat = Fin int int | PosInf | NegInf | NaN

definition round_53 :: "int \<Rightarrow> int \<Rightarrow> pyfloat" where
  "round_53 m e =
     (let k = nat (bitlen \<bar>m\<bar> - 53); q = \<bar>m\<bar> div 2 ^ k; r = \<bar>m\<bar> mod 2 ^ k;
          q' = (if 2 ^ k < 2 * r \<or> 2 * r = 2 ^ k \<and> odd q then q + 1 else q);
          e' = e + int k
      in if k = 0 then
           (if bitlen \<bar>m\<bar> + e > 1024 then (if 0 < m then PosInf else NegInf) else Fin m e)
         else if bitlen q' + e' > 1024 then (if 0 < m then PosInf else NegInf)
         else Fin (sgn m * q') e')"

definition align :: "int \<Rightarrow> int \<Rightarrow> int \<Rightarrow> int" where
  "align m e e0 = m * 2 ^ nat (e - e0)"

instantiation pyfloat :: "{plus, ord}"
begin

fun plus_pyfloat :: "pyfloat \<Rightarrow> pyfloat \<Rightarrow> pyfloat" where
  "Fin m e + Fin n f = (let g = min e f in round_53 (align m e g + align n f g) g)"
| "Fin m e + x = x"
| "x + Fin m e = x"
| "PosInf + PosInf = PosInf"
| "NegInf + NegInf = NegInf"
| "(x :: pyfloat) + y = NaN"

fun less_eq_pyfloat :: "pyfloat \<Rightarrow> pyfloat \<Rightarrow> bool" where
  "Fin m e \<le> Fin n f \<longleftrightarrow> align m e (min e f) \<le> align n f (min e f)"
| "NaN \<le> y \<longleftrightarrow> False"
| "x \<le> NaN \<longleftrightarrow> False"
| "NegInf \<le> y \<longleftrightarrow> True"
| "x \<le> PosInf \<longleftrightarrow> True"
| "(x :: pyfloat) \<le> y \<longleftrightarrow> False"

definition less_pyfloat :: "pyfloat \<Rightarrow> pyfloat \<Rightarrow> bool" where
  "(x :: pyfloat) < y \<longleftrightarrow> x \<le> y \<and> \<not> y \<le> x"

instance ..

end

fun times_1000 :: "pyfloat \<Rightarrow> pyfloat" where
  "times_1000 (Fin m e) = round_53 (m * 1000) e"
| "times_1000 x = x"

text \<open>\<open>int(x)\<close> of a finite float truncates towards zero.\<close>

definition trunc_int :: "int \<Rightarrow> int \<Rightarrow> int" where
  "trunc_int m e = (if 0 \<le> e then m * 2 ^ nat e else sgn m * (\<bar>m\<bar> div 2 ^ nat (- e)))"

text \<open>The real number a finite float stands for.\<close>

definition fval :: "int \<Rightarrow> int \<Rightarrow> real" where
  "fval m e = of_int m * 2 powr of_int e"

lemma fval_nonneg_exp: "0 \<le> e \<Longrightarrow> fval m e = of_int (m * 2 ^ nat e)"
  by (simp add: fval_def powr_int)

lemma fval_neg_exp: "e < 0 \<Longrightarrow> fval m e = of_int m / of_int (2 ^ nat (- e))"
  by (simp add: fval_def powr_int)

lemma trunc_int_floor:
  assumes "0 \<le> m"
  shows "trunc_int m e = \<lfloor>fval m e\<rfloor>"
proof (cases "0 \<le> e")
  case True
  then show ?thesis by (simp only: trunc_int_def fval_nonneg_exp floor_of_int) simp
next
  case False
  then have "fval m e = of_int m / of_int (2 ^ nat (- e))" by (simp add: fval_neg_exp)
  then have "\<lfloor>fval m e\<rfloor> = m div 2 ^ nat (- e)" by (simp only: floor_divide_of_int_eq)
  moreover have "sgn m * (\<bar>m\<bar> div 2 ^ nat (- e)) = m div 2 ^ nat (- e)"
    using assms by (cases "m = 0") auto
  ultimately show ?thesis using False by (simp add: trunc_int_def)
qed

lemma trunc_int_nonpos:
  assumes "m \<le> 0"
  shows "trunc_int m e \<le> 0"
proof (cases "0 \<le> e")
  case True
  then show ?thesis using assms by (simp add: trunc_int_def mult_le_0_iff)
next
  case False
  have "0 \<le> \<bar>m\<bar> div 2 ^ nat (- e)" by (simp add: pos_imp_zdiv_nonneg_iff)
  then show ?thesis using assms False
    by (cases "m = 0") (auto simp: trunc_int_def sgn_if)
qed

lemma bitlen_le_53: "0 \<le> n \<Longrightarrow> n < 2 ^ 53 \<Longrightarrow> bitlen n \<le> 53"
  using bitlen_le_iff_power [of n 53] by simp

lemma fval_le_iff:
  "fval m e \<le> fval n f \<longleftrightarrow> Fin m e \<le> Fin n f"
proof -
  define g where "g = min e f"
  have s: "fval k h = of_int (align k h g) * 2 powr of_int g" if "g \<le> h" for k h
  proof -
    have "2 powr of_int h = (2 :: real) ^ nat (h - g) * 2 powr of_int g"
      using that by (simp add: powr_realpow [symmetric] powr_add [symmetric])
    then show ?thesis by (simp add: fval_def align_def)
  qed
  have "fval m e \<le> fval n f \<longleftrightarrow> align m e g \<le> align n f g"
    by (simp add: s g_def)
  then show ?thesis by (simp add: g_def)
qed

text \<open>No rounding takes place while the mantissa has at most 53 bits.\<close>

lemma round_53_exact:
  assumes "\<bar>m\<bar> < 2 ^ 53" and "e \<le> 971"
  shows "round_53 m e = Fin m e"
proof -
  have "bitlen \<bar>m\<bar> \<le> 53" using assms(1) by (intro bitlen_le_53) auto
  then show ?thesis using assms(2) by (simp add: round_53_def Let_def)
qed

end
