(* ===== verification/MQ_Prelude.thy ===== *)
theory MQ_Prelude
  imports MQ_Float "HOL-Library.AList" "HOL-Library.Word"
begin

text \<open>
  The vocabulary the components share: Python exceptions, programs that read and
  update a state and may raise, the statements of the language (\<open>try\<close>/\<open>except\<close>,
  \<open>try\<close>/\<open>finally\<close>, \<open>assert\<close>, \<open>for\<close>), dictionaries in insertion order, and the two
  proof tools used everywhere: \<open>preserves\<close> (an assertion survives a program, however
  it ends) and \<open>hoare\<close> (a postcondition on the outcome and the final state).
\<close>

named_theorems prog_simps \<open>one-step equations of the program combinators\<close>
named_theorems run_simps \<open>when a program returns: one equivalence per combinator\<close>
named_theorems total_rules \<open>syntax-directed rules for fuel_free\<close>
named_theorems pres_rules \<open>syntax-directed rules for preserves\<close>

section \<open>Values and exceptions\<close>

type_synonym bytes = "8 word list"

text \<open>
  A Python \<open>str\<close> is represented by the character list of its UTF-8 encoding. The
  encoding is injective, and concatenation, equality, prefix tests and replacement of
  ASCII substrings commute with it.
\<close>

datatype pyval =
    PNone
  | PBool bool
  | PInt int
  | PFloat pyfloat
  | PStr string
  | PBytes bytes
  | PByteArray bytes
  | PObj nat        \<comment> \<open>any other object, by identity\<close>

text \<open>Python truth value of a dynamically typed value.\<close>

fun truthy :: "pyval \<Rightarrow> bool" where
  "truthy PNone = False"
| "truthy (PBool b) = b"
| "truthy (PInt i) = (i \<noteq> 0)"
| "truthy (PFloat x) = (case x of Fin m e \<Rightarrow> m \<noteq> 0 | _ \<Rightarrow> True)"
| "truthy (PStr s) = (s \<noteq> [])"
| "truthy (PBytes b) = (b \<noteq> [])"
| "truthy (PByteArray b) = (b \<noteq> [])"
| "truthy (PObj n) = True"

text \<open>
  The exceptions the code raises, catches or tells apart. \<open>MQMIError\<close> carries the MQ
  reason code and the \<open>data_length\<close> attribute the header reader uses.
\<close>

datatype exn =
    MQMIError int int
  | AssertionError string
  | ValueError string
  | TypeError
  | UnicodeDecodeError
  | OverflowError
  | OSError string
  | RuntimeError string
  | TimeoutError
  | ImportError string
  | NotImplementedError string
  | SetupError string
  | SubscriberNotFound
  | AckMessage
  | NackMessage
  | RejectMessage
  | StopConsume
  | OtherException nat
  | CancelledError
  | SystemExit
  | OtherBaseException nat

text \<open>What an \<open>except Exception\<close> clause catches.\<close>

fun is_exception :: "exn \<Rightarrow> bool" where
  "is_exception CancelledError = False"
| "is_exception SystemExit = False"
| "is_exception (OtherBaseException n) = False"
| "is_exception e = True"

section \<open>Programs\<close>

text \<open>
  A program maps a state to an outcome and the state it leaves; the updates made before
  an exception stay. \<open>NoFuel\<close> is not a Python outcome: it is the value of a loop that
  was given too little fuel, and no handler sees it.
\<close>

datatype 'a outcome = Returns 'a | Raises exn | NoFuel

type_synonym ('s, 'a) prog = "'s \<Rightarrow> 'a outcome \<times> 's"

definition ret :: "'a \<Rightarrow> ('s, 'a) prog" where
  "ret x = (\<lambda>s. (Returns x, s))"

definition throw :: "exn \<Rightarrow> ('s, 'a) prog" where
  "throw e = (\<lambda>s. (Raises e, s))"

definition out_of_fuel :: "('s, 'a) prog" where
  "out_of_fuel = (\<lambda>s. (NoFuel, s))"

definition gets :: "('s \<Rightarrow> 'a) \<Rightarrow> ('s, 'a) prog" where
  "gets f = (\<lambda>s. (Returns (f s), s))"

definition modify :: "('s \<Rightarrow> 's) \<Rightarrow> ('s, unit) prog" where
  "modify f = (\<lambda>s. (Returns (), f s))"

definition bind :: "('s, 'a) prog \<Rightarrow> ('a \<Rightarrow> ('s, 'b) prog) \<Rightarrow> ('s, 'b) prog" where
  "bind m k = (\<lambda>s. case m s of
      (Returns x, t) \<Rightarrow> k x t
    | (Raises e, t) \<Rightarrow> (Raises e, t)
    | (NoFuel, t) \<Rightarrow> (NoFuel, t))"

definition seq :: "('s, 'a) prog \<Rightarrow> ('s, 'b) prog \<Rightarrow> ('s, 'b) prog" where
  "seq m k = bind m (\<lambda>_. k)"

definition lift_sum :: "exn + 'a \<Rightarrow> ('s, 'a) prog" where
  "lift_sum r = (case r of Inl e \<Rightarrow> throw e | Inr x \<Rightarrow> ret x)"

definition assert_that :: "bool \<Rightarrow> string \<Rightarrow> ('s, unit) prog" where
  "assert_that b msg = (if b then ret () else throw (AssertionError msg))"

definition when_do :: "bool \<Rightarrow> ('s, unit) prog \<Rightarrow> ('s, unit) prog" where
  "when_do b m = (if b then m else ret ())"

text \<open>
  \<open>try m except e: h e\<close>. The handler receives every exception; a clause that does not
  match re-raises.
\<close>

definition try_except :: "('s, 'a) prog \<Rightarrow> (exn \<Rightarrow> ('s, 'a) prog) \<Rightarrow> ('s, 'a) prog" where
  "try_except m h = (\<lambda>s. case m s of
      (Raises e, t) \<Rightarrow> h e t
    | (Returns x, t) \<Rightarrow> (Returns x, t)
    | (NoFuel, t) \<Rightarrow> (NoFuel, t))"

text \<open>
  \<open>try m finally f\<close>: an exception of the clean-up replaces the outcome of the body.
\<close>

definition try_finally :: "('s, 'a) prog \<Rightarrow> ('s, unit) prog \<Rightarrow> ('s, 'a) prog" where
  "try_finally m f = (\<lambda>s. case m s of
      (Returns x, t) \<Rightarrow> seq f (ret x) t
    | (Raises e, t) \<Rightarrow> seq f (throw e) t
    | (NoFuel, t) \<Rightarrow> (NoFuel, t))"

definition ignore_exception :: "('s, unit) prog \<Rightarrow> ('s, unit) prog" where
  "ignore_exception m = try_except m (\<lambda>e. if is_exception e then ret () else throw e)"

text \<open>
  Local variables that survive into an \<open>except\<close> or \<open>finally\<close> clause live in a frame
  beside the state; the frame disappears when the function ends.
\<close>

definition with_frame :: "'l \<Rightarrow> ('s \<times> 'l, 'a) prog \<Rightarrow> ('s, 'a) prog" where
  "with_frame l m = (\<lambda>s. case m (s, l) of (r, t, l') \<Rightarrow> (r, t))"

definition outside :: "('s, 'a) prog \<Rightarrow> ('s \<times> 'l, 'a) prog" where
  "outside m = (\<lambda>(s, l). case m s of (r, t) \<Rightarrow> (r, (t, l)))"

definition local :: "('l \<Rightarrow> 'l) \<Rightarrow> ('s \<times> 'l, unit) prog" where
  "local f = modify (\<lambda>(s, l). (s, f l))"

definition get_local :: "('l \<Rightarrow> 'a) \<Rightarrow> ('s \<times> 'l, 'a) prog" where
  "get_local f = gets (\<lambda>(s, l). f l)"

fun for_each :: "'x list \<Rightarrow> ('x \<Rightarrow> ('s, unit) prog) \<Rightarrow> ('s, unit) prog" where
  "for_each [] f = ret ()"
| "for_each (x # xs) f = seq (f x) (for_each xs f)"

lemma ret_apply [prog_simps]: "ret x s = (Returns x, s)"
  by (simp add: ret_def)

lemma throw_apply [prog_simps]: "throw e s = (Raises e, s)"
  by (simp add: throw_def)

lemma out_of_fuel_apply [prog_simps]: "out_of_fuel s = (NoFuel, s)"
  by (simp add: out_of_fuel_def)

lemma gets_apply [prog_simps]: "gets f s = (Returns (f s), s)"
  by (simp add: gets_def)

lemma modify_apply [prog_simps]: "modify f s = (Returns (), f s)"
  by (simp add: modify_def)

lemma bind_apply [prog_simps]:
  "bind m k s = (case fst (m s) of
      Returns x \<Rightarrow> k x (snd (m s))
    | Raises e \<Rightarrow> (Raises e, snd (m s))
    | NoFuel \<Rightarrow> (NoFuel, snd (m s)))"
  by (simp add: bind_def split: prod.split outcome.split)

lemma seq_apply [prog_simps]:
  "seq m k s = (case fst (m s) of
      Returns x \<Rightarrow> k (snd (m s))
    | Raises e \<Rightarrow> (Raises e, snd (m s))
    | NoFuel \<Rightarrow> (NoFuel, snd (m s)))"
  by (simp add: seq_def bind_apply)

lemma try_except_apply [prog_simps]:
  "try_except m h s = (case fst (m s) of
      Raises e \<Rightarrow> h e (snd (m s))
    | Returns x \<Rightarrow> (Returns x, snd (m s))
    | NoFuel \<Rightarrow> (NoFuel, snd (m s)))"
  by (simp add: try_except_def split: prod.split outcome.split)

lemma try_finally_apply [prog_simps]:
  "try_finally m f s = (case fst (m s) of
      Returns x \<Rightarrow> seq f (ret x) (snd (m s))
    | Raises e \<Rightarrow> seq f (throw e) (snd (m s))
    | NoFuel \<Rightarrow> (NoFuel, snd (m s)))"
  by (simp add: try_finally_def split: prod.split outcome.split)

lemma lift_sum_apply [prog_simps]:
  "lift_sum r s = (case r of Inl e \<Rightarrow> (Raises e, s) | Inr x \<Rightarrow> (Returns x, s))"
  by (simp add: lift_sum_def throw_apply ret_apply split: sum.split)

lemma assert_that_apply [prog_simps]:
  "assert_that b msg s = (if b then (Returns (), s) else (Raises (AssertionError msg), s))"
  by (simp add: assert_that_def ret_apply throw_apply)

lemma when_do_apply [prog_simps]: "when_do b m s = (if b then m s else (Returns (), s))"
  by (simp add: when_do_def ret_apply)

lemma ignore_exception_apply [prog_simps]:
  "ignore_exception m s = (case fst (m s) of
      Raises e \<Rightarrow> if is_exception e then (Returns (), snd (m s)) else (Raises e, snd (m s))
    | Returns x \<Rightarrow> (Returns (), snd (m s))
    | NoFuel \<Rightarrow> (NoFuel, snd (m s)))"
  by (simp add: ignore_exception_def try_except_apply ret_apply throw_apply split: outcome.split)

lemma with_frame_apply [prog_simps]:
  "with_frame l m s = (fst (m (s, l)), fst (snd (m (s, l))))"
  by (simp add: with_frame_def split: prod.split)

lemma outside_apply [prog_simps]: "outside m sl = (fst (m (fst sl)), (snd (m (fst sl)), snd sl))"
  by (simp add: outside_def split: prod.split)

lemma local_apply [prog_simps]: "local f sl = (Returns (), (fst sl, f (snd sl)))"
  by (simp add: local_def modify_def split: prod.split)

lemma get_local_apply [prog_simps]: "get_local f sl = (Returns (f (snd sl)), sl)"
  by (simp add: get_local_def gets_def split: prod.split)

text \<open>The laws that make the combinators a monad.\<close>

lemma bind_ret_left [simp]: "bind (ret x) k = k x"
  by (rule ext) (simp add: prog_simps)

lemma bind_ret_right [simp]: "bind m ret = m"
  by (rule ext) (auto simp: bind_def ret_def split: prod.split outcome.split)

lemma bind_assoc: "bind (bind m k) h = bind m (\<lambda>x. bind (k x) h)"
  by (rule ext) (simp add: bind_def split: prod.split outcome.split)

section \<open>Programs that return\<close>

text \<open>
  The programs that return a value in a final state, by inversion: rewriting with these
  equivalences turns a successful run into the chain of its successful parts.
\<close>

lemma ret_run [run_simps]: "ret x s = (Returns y, t) \<longleftrightarrow> y = x \<and> t = s"
  by (auto simp: ret_def)

lemma throw_run [run_simps]: "throw e s = (Returns y, t) \<longleftrightarrow> False"
  by (simp add: throw_def)

lemma out_of_fuel_run [run_simps]: "out_of_fuel s = (Returns y, t) \<longleftrightarrow> False"
  by (simp add: out_of_fuel_def)

lemma gets_run [run_simps]: "gets f s = (Returns y, t) \<longleftrightarrow> y = f s \<and> t = s"
  by (auto simp: gets_def)

lemma modify_run [run_simps]: "modify f s = (Returns y, t) \<longleftrightarrow> t = f s"
  by (auto simp: modify_def)

lemma bind_run [run_simps]:
  "bind m k s = (Returns y, t) \<longleftrightarrow> (\<exists>x u. m s = (Returns x, u) \<and> k x u = (Returns y, t))"
  by (cases "m s"; cases "fst (m s)") (auto simp: bind_apply)

lemma seq_run [run_simps]:
  "seq m k s = (Returns y, t) \<longleftrightarrow> (\<exists>x u. m s = (Returns x, u) \<and> k u = (Returns y, t))"
  by (simp add: seq_def bind_run)

lemma lift_sum_run [run_simps]: "lift_sum r s = (Returns y, t) \<longleftrightarrow> r = Inr y \<and> t = s"
  by (auto simp: lift_sum_apply split: sum.split)

lemma assert_that_run [run_simps]: "assert_that b msg s = (Returns y, t) \<longleftrightarrow> b \<and> t = s"
  by (auto simp: assert_that_apply)

lemma when_do_run [run_simps]:
  "when_do b m s = (Returns y, t) \<longleftrightarrow> (if b then m s = (Returns (), t) else t = s)"
  by (auto simp: when_do_apply)

lemma try_except_run [run_simps]:
  "try_except m h s = (Returns y, t) \<longleftrightarrow>
     m s = (Returns y, t) \<or> (\<exists>e u. m s = (Raises e, u) \<and> h e u = (Returns y, t))"
  by (cases "m s"; cases "fst (m s)") (auto simp: try_except_apply)

lemma try_finally_run [run_simps]:
  "try_finally m f s = (Returns y, t) \<longleftrightarrow>
     (\<exists>u. m s = (Returns y, u) \<and> f u = (Returns (), t))"
  by (cases "m s"; cases "fst (m s)") (auto simp: try_finally_apply seq_run ret_run throw_run)

lemma with_frame_run [run_simps]:
  "with_frame l m s = (Returns y, t) \<longleftrightarrow> (\<exists>l'. m (s, l) = (Returns y, (t, l')))"
  by (cases "m (s, l)") (auto simp: with_frame_apply)

lemma outside_run [run_simps]:
  "outside m sl = (Returns y, z) \<longleftrightarrow> (\<exists>t. m (fst sl) = (Returns y, t) \<and> z = (t, snd sl))"
  by (cases "m (fst sl)") (auto simp: outside_apply)

lemma local_run [run_simps]:
  "local f sl = (Returns y, z) \<longleftrightarrow> z = (fst sl, f (snd sl))"
  by (auto simp: local_apply)

lemma get_local_run [run_simps]:
  "get_local f sl = (Returns y, z) \<longleftrightarrow> y = f (snd sl) \<and> z = sl"
  by (auto simp: get_local_apply)

text \<open>A run known to return, as an equation.\<close>

fun is_returns :: "'a outcome \<Rightarrow> bool" where
  "is_returns (Returns x) = True"
| "is_returns r = False"

lemma is_returns_pair: "is_returns (fst p) \<Longrightarrow> \<exists>x. p = (Returns x, snd p)"
  by (cases p; cases "fst p") auto

section \<open>Preservation\<close>

definition preserves :: "('s \<Rightarrow> bool) \<Rightarrow> ('s, 'a) prog \<Rightarrow> bool" where
  "preserves I m \<longleftrightarrow> (\<forall>s. I s \<longrightarrow> I (snd (m s)))"

lemma preservesI [intro?]: "(\<And>s. I s \<Longrightarrow> I (snd (m s))) \<Longrightarrow> preserves I m"
  by (simp add: preserves_def)

lemma preservesD: "preserves I m \<Longrightarrow> I s \<Longrightarrow> I (snd (m s))"
  by (simp add: preserves_def)

lemma pres_ret [pres_rules]: "preserves I (ret x)"
  by (simp add: preserves_def prog_simps)

lemma pres_throw [pres_rules]: "preserves I (throw e)"
  by (simp add: preserves_def prog_simps)

lemma pres_out_of_fuel [pres_rules]: "preserves I out_of_fuel"
  by (simp add: preserves_def prog_simps)

lemma pres_gets [pres_rules]: "preserves I (gets f)"
  by (simp add: preserves_def prog_simps)

lemma pres_lift_sum [pres_rules]: "preserves I (lift_sum r)"
  by (simp add: preserves_def prog_simps split: sum.split)

lemma pres_assert_that [pres_rules]: "preserves I (assert_that b msg)"
  by (simp add: preserves_def prog_simps)

lemma pres_modify: "(\<And>s. I s \<Longrightarrow> I (f s)) \<Longrightarrow> preserves I (modify f)"
  by (simp add: preserves_def prog_simps)

lemma pres_bind [pres_rules]:
  "preserves I m \<Longrightarrow> (\<And>x. preserves I (k x)) \<Longrightarrow> preserves I (bind m k)"
  by (auto simp: preserves_def prog_simps split: outcome.split)

lemma pres_seq [pres_rules]:
  "preserves I m \<Longrightarrow> preserves I k \<Longrightarrow> preserves I (seq m k)"
  by (auto simp: preserves_def prog_simps split: outcome.split)

lemma pres_when_do [pres_rules]: "preserves I m \<Longrightarrow> preserves I (when_do b m)"
  by (simp add: preserves_def prog_simps)

lemma pres_if [pres_rules]:
  "preserves I m \<Longrightarrow> preserves I k \<Longrightarrow> preserves I (if b then m else k)"
  by simp

lemma pres_try_except [pres_rules]:
  "preserves I m \<Longrightarrow> (\<And>e. preserves I (h e)) \<Longrightarrow> preserves I (try_except m h)"
  by (auto simp: preserves_def prog_simps split: outcome.split)

lemma pres_try_finally [pres_rules]:
  "preserves I m \<Longrightarrow> preserves I f \<Longrightarrow> preserves I (try_finally m f)"
  by (auto simp: preserves_def prog_simps split: outcome.split)

lemma pres_ignore_exception [pres_rules]:
  "preserves I m \<Longrightarrow> preserves I (ignore_exception m)"
  by (auto simp: preserves_def prog_simps split: outcome.split)

lemma pres_for_each [pres_rules]:
  "(\<And>x. preserves I (f x)) \<Longrightarrow> preserves I (for_each xs f)"
  by (induction xs) (auto intro: pres_ret pres_seq)

lemma pres_case_option [pres_rules]:
  "preserves I a \<Longrightarrow> (\<And>x. preserves I (b x)) \<Longrightarrow>
     preserves I (case v of None \<Rightarrow> a | Some x \<Rightarrow> b x)"
  by (cases v) auto

lemma pres_case_sum [pres_rules]:
  "(\<And>x. preserves I (a x)) \<Longrightarrow> (\<And>x. preserves I (b x)) \<Longrightarrow>
     preserves I (case v of Inl x \<Rightarrow> a x | Inr x \<Rightarrow> b x)"
  by (cases v) auto

lemma pres_case_prod [pres_rules]:
  "(\<And>x y. preserves I (f x y)) \<Longrightarrow> preserves I (case p of (x, y) \<Rightarrow> f x y)"
  by (cases p) auto

lemma pres_Let [pres_rules]: "preserves I (f v) \<Longrightarrow> preserves I (Let v f)"
  by simp

text \<open>An assertion on the state, seen from inside a function with local variables.\<close>

lemma pres_with_frame [pres_rules]:
  "preserves (\<lambda>sl. I (fst sl)) m \<Longrightarrow> preserves I (with_frame l m)"
  by (auto simp: preserves_def prog_simps)

lemma pres_outside [pres_rules]: "preserves I m \<Longrightarrow> preserves (\<lambda>sl. I (fst sl)) (outside m)"
  by (auto simp: preserves_def prog_simps)

lemma pres_local [pres_rules]: "preserves (\<lambda>sl. I (fst sl)) (local f)"
  by (simp add: preserves_def prog_simps)

lemma pres_get_local [pres_rules]: "preserves I (get_local f)"
  by (simp add: preserves_def prog_simps)

section \<open>Postconditions\<close>

definition hoare ::
  "('s \<Rightarrow> bool) \<Rightarrow> ('s, 'a) prog \<Rightarrow> ('a outcome \<Rightarrow> 's \<Rightarrow> bool) \<Rightarrow> bool" where
  "hoare P m Q \<longleftrightarrow> (\<forall>s. P s \<longrightarrow> Q (fst (m s)) (snd (m s)))"

lemma hoareI: "(\<And>s. P s \<Longrightarrow> Q (fst (m s)) (snd (m s))) \<Longrightarrow> hoare P m Q"
  by (simp add: hoare_def)

lemma hoareD: "hoare P m Q \<Longrightarrow> P s \<Longrightarrow> m s = (r, t) \<Longrightarrow> Q r t"
  by (auto simp: hoare_def)

lemma hoare_apply: "hoare P m Q \<Longrightarrow> P s \<Longrightarrow> Q (fst (m s)) (snd (m s))"
  by (simp only: hoare_def)

lemma hoare_weaken:
  "hoare P m Q \<Longrightarrow> (\<And>s. P' s \<Longrightarrow> P s) \<Longrightarrow> (\<And>r s. Q r s \<Longrightarrow> Q' r s) \<Longrightarrow> hoare P' m Q'"
  by (auto simp: hoare_def)

lemma hoare_bind:
  assumes "hoare P m R"
    and "\<And>x. hoare (R (Returns x)) (k x) Q"
    and "\<And>e s. R (Raises e) s \<Longrightarrow> Q (Raises e) s"
    and "\<And>s. R NoFuel s \<Longrightarrow> Q NoFuel s"
  shows "hoare P (bind m k) Q"
  using assms by (fastforce simp: hoare_def prog_simps split: outcome.split)

lemma hoare_seq:
  assumes "hoare P m R" and "hoare (R (Returns ())) k Q"
    and "\<And>e s. R (Raises e) s \<Longrightarrow> Q (Raises e) s" and "\<And>s. R NoFuel s \<Longrightarrow> Q NoFuel s"
  shows "hoare P (seq m k) Q"
  unfolding seq_def using assms by (intro hoare_bind [where R = R]) auto

lemma hoare_preserves: "preserves I m \<Longrightarrow> hoare I m (\<lambda>_. I)"
  by (simp add: hoare_def preserves_def)

lemma hoare_preserves_iff: "preserves I m \<longleftrightarrow> hoare I m (\<lambda>_. I)"
  by (simp add: hoare_def preserves_def)

text \<open>Stepping over a program that preserves the precondition.\<close>

lemma hoare_step_bind:
  assumes "preserves I m" and "\<And>x. hoare I (k x) Q"
    and "\<And>e s. I s \<Longrightarrow> Q (Raises e) s" and "\<And>s. I s \<Longrightarrow> Q NoFuel s"
  shows "hoare I (bind m k) Q"
  by (rule hoare_bind [OF hoare_preserves [OF assms(1)]]) (use assms in auto)

lemma hoare_step_seq:
  assumes "preserves I m" and "hoare I k Q"
    and "\<And>e s. I s \<Longrightarrow> Q (Raises e) s" and "\<And>s. I s \<Longrightarrow> Q NoFuel s"
  shows "hoare I (seq m k) Q"
  unfolding seq_def by (rule hoare_step_bind) (use assms in auto)

lemma hoare_try_except:
  assumes "hoare P m R" and "\<And>e. hoare (R (Raises e)) (h e) Q"
    and "\<And>x s. R (Returns x) s \<Longrightarrow> Q (Returns x) s" and "\<And>s. R NoFuel s \<Longrightarrow> Q NoFuel s"
  shows "hoare P (try_except m h) Q"
  using assms by (fastforce simp: hoare_def prog_simps split: outcome.split)

text \<open>A clean-up that keeps the postcondition of the body, whatever the outcome becomes.\<close>

lemma hoare_try_finally:
  assumes "hoare P m Q"
    and "\<And>r. hoare (Q r) f (\<lambda>r' s. (case r' of Returns _ \<Rightarrow> Q r s | Raises e \<Rightarrow> Q (Raises e) s | NoFuel \<Rightarrow> Q NoFuel s))"
  shows "hoare P (try_finally m f) Q"
proof (rule hoareI)
  fix s assume "P s"
  then have m: "Q (fst (m s)) (snd (m s))" using assms(1) by (simp add: hoare_def)
  with assms(2) [of "fst (m s)"]
  show "Q (fst (try_finally m f s)) (snd (try_finally m f s))"
    by (cases "fst (m s)")
      (force simp: hoare_def prog_simps split: outcome.splits)+
qed

lemma hoare_throw: "(\<And>s. P s \<Longrightarrow> Q (Raises e) s) \<Longrightarrow> hoare P (throw e) Q"
  by (simp add: hoare_def prog_simps)

lemma hoare_ret: "(\<And>s. P s \<Longrightarrow> Q (Returns x) s) \<Longrightarrow> hoare P (ret x) Q"
  by (simp add: hoare_def prog_simps)

lemma hoare_if:
  "(b \<Longrightarrow> hoare P m Q) \<Longrightarrow> (\<not> b \<Longrightarrow> hoare P k Q) \<Longrightarrow> hoare P (if b then m else k) Q"
  by simp

lemma hoare_strengthen: "hoare P m Q \<Longrightarrow> (\<And>s. P' s \<Longrightarrow> P s) \<Longrightarrow> hoare P' m Q"
  by (simp add: hoare_def)

lemma hoare_post: "hoare P m R \<Longrightarrow> (\<And>r s. R r s \<Longrightarrow> Q r s) \<Longrightarrow> hoare P m Q"
  by (simp add: hoare_def)

section \<open>Budgets\<close>

text \<open>
  A program that may weaken an assertion \<open>I\<close> to \<open>J\<close> once: the rules below locate the one
  statement that does; what comes before it preserves \<open>I\<close>, what comes after it \<open>J\<close>.
\<close>

definition spends :: "('s \<Rightarrow> bool) \<Rightarrow> ('s \<Rightarrow> bool) \<Rightarrow> ('s, 'a) prog \<Rightarrow> bool" where
  "spends I J m \<longleftrightarrow> (\<forall>s. I s \<longrightarrow> J s) \<and> hoare I m (\<lambda>_. J)"

lemma spendsI: "(\<And>s. I s \<Longrightarrow> J s) \<Longrightarrow> (\<And>s. I s \<Longrightarrow> J (snd (m s))) \<Longrightarrow> spends I J m"
  by (simp add: spends_def hoare_def)

lemma spendsD: "spends I J m \<Longrightarrow> I s \<Longrightarrow> J (snd (m s))"
  by (simp add: spends_def hoare_def)

lemma spends_none: "(\<And>s. I s \<Longrightarrow> J s) \<Longrightarrow> preserves I m \<Longrightarrow> spends I J m"
  by (simp add: spends_def hoare_def preserves_def)

lemma spends_bind_later:
  "preserves I m \<Longrightarrow> (\<And>x. spends I J (k x)) \<Longrightarrow> spends I J (bind m k)"
  by (auto simp: spends_def preserves_def hoare_def prog_simps split: outcome.split)

lemma spends_seq_later: "preserves I m \<Longrightarrow> spends I J k \<Longrightarrow> spends I J (seq m k)"
  by (auto simp: spends_def preserves_def hoare_def prog_simps split: outcome.split)

lemma spends_bind_now: "spends I J m \<Longrightarrow> (\<And>x. preserves J (k x)) \<Longrightarrow> spends I J (bind m k)"
  by (auto simp: spends_def preserves_def hoare_def prog_simps split: outcome.split)

lemma spends_seq_now: "spends I J m \<Longrightarrow> preserves J k \<Longrightarrow> spends I J (seq m k)"
  by (auto simp: spends_def preserves_def hoare_def prog_simps split: outcome.split)

lemma spends_try_except:
  "spends I J m \<Longrightarrow> (\<And>e. preserves J (h e)) \<Longrightarrow> spends I J (try_except m h)"
  by (auto simp: spends_def preserves_def hoare_def prog_simps split: outcome.split)

lemma spends_try_finally: "spends I J m \<Longrightarrow> preserves J f \<Longrightarrow> spends I J (try_finally m f)"
  by (auto simp: spends_def preserves_def hoare_def prog_simps split: outcome.split)

lemma spends_frame:
  "spends (\<lambda>sl. I (fst sl)) (\<lambda>sl. J (fst sl)) m \<Longrightarrow> spends I J (with_frame l m)"
  by (auto simp: spends_def hoare_def prog_simps)

lemma spends_outside: "spends I J m \<Longrightarrow> spends (\<lambda>sl. I (fst sl)) (\<lambda>sl. J (fst sl)) (outside m)"
  by (auto simp: spends_def hoare_def prog_simps)

lemma spends_Let: "spends I J (f v) \<Longrightarrow> spends I J (Let v f)"
  by simp

lemma spends_case_prod: "(\<And>x y. spends I J (f x y)) \<Longrightarrow> spends I J (case p of (x, y) \<Rightarrow> f x y)"
  by (cases p) auto

lemmas spends_later = spends_bind_later spends_seq_later spends_Let spends_case_prod spends_frame

section \<open>Programs that need no fuel\<close>

text \<open>A program is \<open>fuel_free\<close> when it always returns or raises.\<close>

definition fuel_free :: "('s, 'a) prog \<Rightarrow> bool" where
  "fuel_free m \<longleftrightarrow> (\<forall>s. fst (m s) \<noteq> NoFuel)"

lemma fuel_freeD: "fuel_free m \<Longrightarrow> fst (m s) \<noteq> NoFuel"
  by (auto simp: fuel_free_def)

lemma fuel_free_basic [total_rules]:
  "fuel_free (ret x)" "fuel_free (throw e)" "fuel_free (gets f)" "fuel_free (modify g)"
  "fuel_free (lift_sum r)" "fuel_free (assert_that b msg)" "fuel_free (local h)"
  "fuel_free (get_local k)"
  by (simp_all add: fuel_free_def prog_simps split: sum.split)

lemma fuel_free_bind [total_rules]:
  "fuel_free m \<Longrightarrow> (\<And>x. fuel_free (k x)) \<Longrightarrow> fuel_free (bind m k)"
  by (simp add: fuel_free_def prog_simps split: outcome.split)

lemma fuel_free_seq [total_rules]: "fuel_free m \<Longrightarrow> fuel_free k \<Longrightarrow> fuel_free (seq m k)"
  by (simp add: fuel_free_def prog_simps split: outcome.split)

lemma fuel_free_when_do [total_rules]: "fuel_free m \<Longrightarrow> fuel_free (when_do b m)"
  by (simp add: fuel_free_def prog_simps)

lemma fuel_free_if [total_rules]:
  "fuel_free m \<Longrightarrow> fuel_free k \<Longrightarrow> fuel_free (if b then m else k)"
  by simp

lemma fuel_free_try_except [total_rules]:
  "fuel_free m \<Longrightarrow> (\<And>e. fuel_free (h e)) \<Longrightarrow> fuel_free (try_except m h)"
  by (simp add: fuel_free_def prog_simps split: outcome.split)

lemma fuel_free_try_finally [total_rules]:
  "fuel_free m \<Longrightarrow> fuel_free f \<Longrightarrow> fuel_free (try_finally m f)"
  by (simp add: fuel_free_def prog_simps split: outcome.split)

lemma fuel_free_ignore [total_rules]: "fuel_free m \<Longrightarrow> fuel_free (ignore_exception m)"
  by (simp add: fuel_free_def prog_simps split: outcome.split)

lemma fuel_free_frame [total_rules]: "fuel_free m \<Longrightarrow> fuel_free (with_frame l m)"
  by (simp add: fuel_free_def prog_simps)

lemma fuel_free_outside [total_rules]: "fuel_free m \<Longrightarrow> fuel_free (outside m)"
  by (simp add: fuel_free_def prog_simps)

lemma fuel_free_case_option [total_rules]:
  "fuel_free a \<Longrightarrow> (\<And>x. fuel_free (b x)) \<Longrightarrow> fuel_free (case v of None \<Rightarrow> a | Some x \<Rightarrow> b x)"
  by (cases v) auto

lemma fuel_free_case_prod [total_rules]:
  "(\<And>x y. fuel_free (f x y)) \<Longrightarrow> fuel_free (case p of (x, y) \<Rightarrow> f x y)"
  by (cases p) auto

lemma fuel_free_Let [total_rules]: "fuel_free (f v) \<Longrightarrow> fuel_free (Let v f)"
  by simp

lemma fuel_free_for_each [total_rules]: "(\<And>x. fuel_free (f x)) \<Longrightarrow> fuel_free (for_each xs f)"
  by (induction xs) (auto intro: total_rules)

section \<open>Dictionaries in insertion order\<close>

text \<open>
  A dictionary with string keys is an association list with distinct keys, in insertion
  order. \<open>AList.update\<close> overwrites in place or appends, \<open>AList.delete\<close> removes, as
  \<open>d[k] = v\<close> and \<open>d.pop(k, None)\<close> do.
\<close>

type_synonym headers = "(string \<times> pyval) list"

definition dict_get :: "headers \<Rightarrow> string \<Rightarrow> pyval" where
  "dict_get d k = (case map_of d k of None \<Rightarrow> PNone | Some v \<Rightarrow> v)"

definition dict_setdefault :: "string \<Rightarrow> pyval \<Rightarrow> headers \<Rightarrow> headers" where
  "dict_setdefault k v d = (if map_of d k = None then AList.update k v d else d)"

definition dict_union :: "headers \<Rightarrow> headers \<Rightarrow> headers" where
  "dict_union a b = fold (\<lambda>(k, v). AList.update k v) b a"

definition dict_ok :: "headers \<Rightarrow> bool" where
  "dict_ok d \<longleftrightarrow> distinct (map fst d)"

lemma dict_ok_update [simp]: "dict_ok d \<Longrightarrow> dict_ok (AList.update k v d)"
  by (simp add: dict_ok_def distinct_update)

lemma dict_ok_delete [simp]: "dict_ok d \<Longrightarrow> dict_ok (AList.delete k d)"
  by (simp add: dict_ok_def distinct_delete)

lemma dict_ok_setdefault [simp]: "dict_ok d \<Longrightarrow> dict_ok (dict_setdefault k v d)"
  by (simp add: dict_setdefault_def)

lemma dict_ok_union [simp]: "dict_ok a \<Longrightarrow> dict_ok (dict_union a b)"
  unfolding dict_union_def by (induction b arbitrary: a) auto

lemma map_of_setdefault:
  "map_of (dict_setdefault k v d) =
     (map_of d)(k := (case map_of d k of None \<Rightarrow> Some v | Some w \<Rightarrow> Some w))"
  by (auto simp: dict_setdefault_def update_conv' split: option.split)

lemma map_of_union:
  "dict_ok b \<Longrightarrow> map_of (dict_union a b) = map_of a ++ map_of b"
proof (unfold dict_union_def, induction b arbitrary: a)
  case Nil
  then show ?case by simp
next
  case (Cons p b)
  obtain k v where p: "p = (k, v)" by (cases p)
  from Cons.prems p have k: "map_of b k = None" and b: "dict_ok b"
    by (auto simp: dict_ok_def map_of_eq_None_iff)
  have "map_of (fold (\<lambda>(k, v). AList.update k v) b (AList.update k v a)) =
      map_of (AList.update k v a) ++ map_of b"
    by (rule Cons.IH [OF b])
  then show ?case
    using k by (auto simp: p fun_eq_iff map_add_def update_conv' split: option.split)
qed

section \<open>Codecs\<close>

text \<open>
  An encoding with a partial inverse on the values it is meant for. The client of the
  interface (identifiers on the wire, header names as property names) relies on the one
  law; injectivity and the treatment of whole lists follow.
\<close>

locale codec =
  fixes enc :: "'a \<Rightarrow> 'b"
    and dec :: "'b \<Rightarrow> 'a option"
    and ok :: "'a \<Rightarrow> bool"
  assumes dec_enc: "ok x \<Longrightarrow> dec (enc x) = Some x"
begin

lemma enc_inject: "ok x \<Longrightarrow> ok y \<Longrightarrow> enc x = enc y \<longleftrightarrow> x = y"
  using dec_enc by (metis option.inject)

lemma enc_inj_on: "inj_on enc {x. ok x}"
  by (rule inj_onI) (simp add: enc_inject)

lemma distinct_enc: "list_all ok xs \<Longrightarrow> distinct (map enc xs) \<longleftrightarrow> distinct xs"
  by (induction xs) (auto simp: list_all_iff enc_inject)

lemma map_dec_enc: "list_all ok xs \<Longrightarrow> map dec (map enc xs) = map Some xs"
  by (induction xs) (auto simp: dec_enc)

end

end
