(* ===== verification/MQ_Ids.thy ===== *)
theory MQ_Ids
  imports MQ_Prelude
begin

text \<open>
  \<open>faststream_mq/helpers/ids.py\<close>: MQ message and correlation identifiers. On the wire
  an identifier is 24 bytes (the \<open>MsgId\<close> and \<open>CorrelId\<close> fields of the message
  descriptor), in the Python API it is 48 lower-case hexadecimal digits. The theory has
  \<open>bytes.hex\<close> and \<open>bytes.fromhex\<close> as CPython computes them and the three
  conversions of the source, with their round trips and error branches.
\<close>

section \<open>bytes.hex and bytes.fromhex\<close>

definition hex_digit :: "nat \<Rightarrow> char" where
  "hex_digit n = (if n < 10 then char_of (48 + n) else char_of (87 + n))"

definition hex_value :: "char \<Rightarrow> nat option" where
  "hex_value c =
     (let n = (of_char c :: nat) in
      if 48 \<le> n \<and> n \<le> 57 then Some (n - 48)
      else if 97 \<le> n \<and> n \<le> 102 then Some (n - 87)
      else if 65 \<le> n \<and> n \<le> 70 then Some (n - 55)
      else None)"

text \<open>The characters \<open>fromhex\<close> skips: blank, tab, newline, vertical tab, form feed, return.\<close>

definition is_c_space :: "char \<Rightarrow> bool" where
  "is_c_space c = (let n = (of_char c :: nat) in n = 32 \<or> (9 \<le> n \<and> n \<le> 13))"

definition to_hex :: "bytes \<Rightarrow> string" where
  "to_hex bs = concat (map (\<lambda>b. [hex_digit (unat b div 16), hex_digit (unat b mod 16)]) bs)"

definition byte_of :: "nat \<Rightarrow> nat \<Rightarrow> 8 word" where
  "byte_of hi lo = word_of_nat (16 * hi + lo)"

text \<open>
  White space is skipped before each pair of digits, never inside a pair; \<open>None\<close> is
  the \<open>ValueError\<close>.
\<close>

fun fromhex :: "string \<Rightarrow> bytes option" where
  "fromhex [] = Some []"
| "fromhex (c # cs) =
     (if is_c_space c then fromhex cs
      else case hex_value c of
        None \<Rightarrow> None
      | Some hi \<Rightarrow> (case cs of
          [] \<Rightarrow> None
        | d # ds \<Rightarrow> (case hex_value d of
            None \<Rightarrow> None
          | Some lo \<Rightarrow> map_option ((#) (byte_of hi lo)) (fromhex ds))))"

section \<open>The identifier functions\<close>

definition MQ_ID_BYTES_LENGTH :: nat where
  "MQ_ID_BYTES_LENGTH = 24"

definition MQ_ID_HEX_LENGTH :: nat where
  "MQ_ID_HEX_LENGTH = MQ_ID_BYTES_LENGTH * 2"

definition mq_id_error :: "string \<Rightarrow> string" where
  "mq_id_error field_name =
     ''`'' @ field_name @ ''` must be a 48-character hex string.''"

text \<open>\<open>token_hex\<close> is the hexadecimal form of \<open>n\<close> random bytes, an input of the model.\<close>

definition generate_mq_id :: "(nat \<Rightarrow> bytes) \<Rightarrow> string" where
  "generate_mq_id token_bytes = to_hex (token_bytes MQ_ID_BYTES_LENGTH)"

definition normalize_mq_id :: "string option \<Rightarrow> string \<Rightarrow> exn + string option" where
  "normalize_mq_id value field_name =
     (if value = None \<or> value = Some [] then Inr None
      else case fromhex (the value) of
        None \<Rightarrow> Inl (ValueError (mq_id_error field_name))
      | Some raw \<Rightarrow>
          if length raw \<noteq> MQ_ID_BYTES_LENGTH then Inl (ValueError (mq_id_error field_name))
          else Inr (Some (to_hex raw)))"

definition mq_id_to_bytes :: "string option \<Rightarrow> string \<Rightarrow> exn + bytes option" where
  "mq_id_to_bytes value field_name =
     (case normalize_mq_id value field_name of
        Inl e \<Rightarrow> Inl e
      | Inr None \<Rightarrow> Inr None
      | Inr (Some normalized) \<Rightarrow> (case fromhex normalized of
          None \<Rightarrow> Inl (ValueError ''non-hexadecimal number found in fromhex() arg'')
        | Some raw \<Rightarrow> Inr (Some raw)))"

definition try_parse_mq_id :: "pyval \<Rightarrow> string option" where
  "try_parse_mq_id value =
     (let raw = (case value of
          PStr s \<Rightarrow> fromhex s
        | PBytes b \<Rightarrow> Some b
        | PByteArray b \<Rightarrow> Some b
        | _ \<Rightarrow> None)
      in case raw of
        None \<Rightarrow> None
      | Some r \<Rightarrow>
          if r = [] \<or> length r \<noteq> MQ_ID_BYTES_LENGTH \<or> \<not> list_ex (\<lambda>b. b \<noteq> 0) r then None
          else Some (to_hex r))"

section \<open>Hexadecimal round trip\<close>

lemma hex_value_digit [simp]: "n < 16 \<Longrightarrow> hex_value (hex_digit n) = Some n"
  by (auto simp: hex_value_def hex_digit_def Let_def)

lemma hex_digit_not_space [simp]: "n < 16 \<Longrightarrow> \<not> is_c_space (hex_digit n)"
  by (auto simp: is_c_space_def hex_digit_def Let_def)

lemma byte_of_nibbles [simp]: "byte_of (unat b div 16) (unat b mod 16) = b"
  by (simp add: byte_of_def)

lemma unat_byte_less: "unat (b :: 8 word) < 256"
  using unsigned_less [of b] by simp

lemma to_hex_Nil [simp]: "to_hex [] = []"
  by (simp add: to_hex_def)

lemma to_hex_Cons [simp]:
  "to_hex (b # bs) = hex_digit (unat b div 16) # hex_digit (unat b mod 16) # to_hex bs"
  by (simp add: to_hex_def)

lemma length_to_hex [simp]: "length (to_hex bs) = 2 * length bs"
  by (induction bs) auto

lemma to_hex_eq_Nil [simp]: "to_hex bs = [] \<longleftrightarrow> bs = []"
  by (cases bs) auto

lemma fromhex_to_hex [simp]: "fromhex (to_hex bs) = Some bs"
proof (induction bs)
  case Nil
  show ?case by simp
next
  case (Cons b bs)
  have "unat b div 16 < 16" using unat_byte_less [of b] by simp
  then show ?case by (simp add: Cons.IH)
qed

text \<open>The identifiers proper: 24 bytes, of which \<open>hex\<close> makes 48 digits and back.\<close>

definition mq_id_bytes :: "bytes \<Rightarrow> bool" where
  "mq_id_bytes bs \<longleftrightarrow> length bs = MQ_ID_BYTES_LENGTH"

interpretation hex: codec to_hex fromhex "\<lambda>_. True"
  by unfold_locales simp

lemma mq_id_bytes_not_Nil: "mq_id_bytes bs \<Longrightarrow> bs \<noteq> []"
  by (auto simp: mq_id_bytes_def MQ_ID_BYTES_LENGTH_def)

lemma fromhex_length: "fromhex s = Some bs \<Longrightarrow> 2 * length bs \<le> length s"
  by (induction s arbitrary: bs rule: fromhex.induct)
    (auto split: if_splits option.splits list.splits)

lemma normalize_None [simp]: "normalize_mq_id None f = Inr None"
  and normalize_Nil [simp]: "normalize_mq_id (Some []) f = Inr None"
  by (simp_all add: normalize_mq_id_def)

lemma normalize_to_hex [simp]:
  "mq_id_bytes bs \<Longrightarrow> normalize_mq_id (Some (to_hex bs)) f = Inr (Some (to_hex bs))"
  by (auto simp: normalize_mq_id_def mq_id_bytes_def MQ_ID_BYTES_LENGTH_def)

text \<open>Every identifier the normaliser returns is the hexadecimal form of 24 bytes.\<close>

lemma normalize_SomeE:
  assumes "normalize_mq_id v f = Inr (Some h)"
  obtains bs s where "v = Some s" and "fromhex s = Some bs" and "mq_id_bytes bs" and "h = to_hex bs"
  using assms by (auto simp: normalize_mq_id_def mq_id_bytes_def split: if_splits option.splits)

lemma mq_id_to_bytes_to_hex [simp]:
  "mq_id_bytes bs \<Longrightarrow> mq_id_to_bytes (Some (to_hex bs)) f = Inr (Some bs)"
  by (simp add: mq_id_to_bytes_def)

lemma try_parse_bytes:
  "mq_id_bytes bs \<Longrightarrow> list_ex (\<lambda>b. b \<noteq> 0) bs \<Longrightarrow> try_parse_mq_id (PBytes bs) = Some (to_hex bs)"
  by (auto simp: try_parse_mq_id_def mq_id_bytes_def MQ_ID_BYTES_LENGTH_def)

lemma try_parse_SomeE:
  assumes "try_parse_mq_id v = Some h"
  obtains bs where "mq_id_bytes bs" and "list_ex (\<lambda>b. b \<noteq> 0) bs" and "h = to_hex bs"
    and "v = PBytes bs \<or> v = PByteArray bs \<or> (\<exists>s. v = PStr s \<and> fromhex s = Some bs)"
  using assms
  by (cases v) (auto simp: try_parse_mq_id_def mq_id_bytes_def split: if_splits option.splits)

section \<open>What the digits may look like\<close>

definition is_hex :: "char \<Rightarrow> bool" where
  "is_hex c \<longleftrightarrow> hex_value c \<noteq> None"

definition hex_lower :: "char \<Rightarrow> char" where
  "hex_lower c = (let n = (of_char c :: nat) in if 65 \<le> n \<and> n \<le> 70 then char_of (n + 32) else c)"

lemma hex_value_less: "hex_value c = Some n \<Longrightarrow> n < 16"
  by (auto simp: hex_value_def Let_def split: if_splits)

lemma hex_digit_value: "hex_value c = Some n \<Longrightarrow> hex_digit n = hex_lower c"
  by (auto simp: hex_value_def hex_digit_def hex_lower_def Let_def split: if_splits)

lemma unat_byte_of [simp]:
  assumes "hi < 16" and "lo < 16"
  shows "unat (byte_of hi lo) = 16 * hi + lo"
proof -
  have "16 * hi + lo < 256" using assms by linarith
  then show ?thesis unfolding byte_of_def by (subst unat_of_nat) simp
qed

text \<open>Without white space, the digits are read in pairs and nothing is skipped.\<close>

lemma fromhex_no_space:
  "\<not> list_ex is_c_space s \<Longrightarrow>
     fromhex s = Some bs \<Longrightarrow> list_all is_hex s \<and> to_hex bs = map hex_lower s"
proof (induction s arbitrary: bs rule: fromhex.induct)
  case 1
  then show ?case by simp
next
  case (2 c cs)
  from "2.prems" obtain hi d ds lo rest where
    hi: "hex_value c = Some hi" and cs: "cs = d # ds" and lo: "hex_value d = Some lo"
    and rest: "fromhex ds = Some rest" and bs: "bs = byte_of hi lo # rest"
    by (auto split: option.splits list.splits)
  have "list_all is_hex ds \<and> to_hex rest = map hex_lower ds"
    using "2.IH"(2) [OF _ hi cs lo _ rest] "2.prems"(1) cs by auto
  with hi lo show ?case
    by (simp add: cs bs is_hex_def hex_value_less hex_digit_value list_all_iff)
qed

lemma fromhex_digits:
  "list_all is_hex s \<Longrightarrow> \<not> list_ex is_c_space s \<Longrightarrow> even (length s) \<Longrightarrow>
     \<exists>bs. fromhex s = Some bs \<and> 2 * length bs = length s"
proof (induction s rule: fromhex.induct)
  case 1
  then show ?case by simp
next
  case (2 c cs)
  from "2.prems" obtain hi where hi: "hex_value c = Some hi" by (auto simp: is_hex_def)
  from "2.prems" obtain d ds where cs: "cs = d # ds" by (cases cs) auto
  with "2.prems" obtain lo where lo: "hex_value d = Some lo" by (auto simp: is_hex_def)
  from "2.IH"(2) [OF _ hi cs lo] "2.prems" cs
  obtain bs where "fromhex ds = Some bs" and "2 * length bs = length ds" by auto
  with "2.prems" hi cs lo show ?case by simp
qed

section \<open>Properties\<close>

text \<open>
  C36. An identifier without white space is accepted exactly when it is 48 hexadecimal
  digits; the result is the same digits in lower case. Every other non-empty input of
  that kind is the ValueError that names the field.
\<close>

theorem normalize_mq_id_digits:
  assumes "s \<noteq> []" and "\<not> list_ex is_c_space s"
  shows "normalize_mq_id (Some s) f =
    (if length s = 48 \<and> list_all is_hex s then Inr (Some (map hex_lower s))
     else Inl (ValueError (''`'' @ f @ ''` must be a 48-character hex string.'')))"
proof (cases "fromhex s")
  case None
  then have "\<not> (length s = 48 \<and> list_all is_hex s)"
    using fromhex_digits [of s] assms(2) by auto
  with None assms(1) show ?thesis by (auto simp: normalize_mq_id_def mq_id_error_def)
next
  case (Some bs)
  then have hex: "list_all is_hex s" and eq: "to_hex bs = map hex_lower s"
    using fromhex_no_space [OF assms(2)] by auto
  from arg_cong [OF eq, of length] have "length s = 2 * length bs" by simp
  with Some assms(1) hex eq show ?thesis
    by (auto simp: normalize_mq_id_def mq_id_error_def MQ_ID_BYTES_LENGTH_def)
qed

theorem normalize_mq_id_digits_witness:
  "normalize_mq_id (Some (replicate 48 CHR ''A'')) ''message_id''
     = Inr (Some (replicate 48 CHR ''a''))
   \<and> normalize_mq_id (Some ''1'') ''message_id''
     = Inl (ValueError ''`message_id` must be a 48-character hex string.'')"
proof -
  have "hex_lower CHR ''A'' = CHR ''a''" by code_simp
  then show ?thesis
    using normalize_mq_id_digits [of "replicate 48 CHR ''A''" "''message_id''"]
      normalize_mq_id_digits [of "''1''" "''message_id''"]
    by (simp add: is_c_space_def is_hex_def hex_value_def list_ex_iff list_all_iff)
qed

text \<open>
  C37. Identifiers survive the wire in both directions: whatever the normaliser returns
  normalises to itself and converts to 24 bytes, and 24 bytes that are not all zero, read
  back from a message descriptor, parse to the very identifier that converts to them.
\<close>

theorem mq_id_wire_roundtrip:
  "(normalize_mq_id v f = Inr (Some h) \<longrightarrow>
      normalize_mq_id (Some h) g = Inr (Some h)
      \<and> (\<exists>bs. length bs = 24 \<and> h = to_hex bs
           \<and> mq_id_to_bytes v f = Inr (Some bs) \<and> mq_id_to_bytes (Some h) g = Inr (Some bs)
           \<and> (list_ex (\<lambda>b. b \<noteq> 0) bs \<longrightarrow> try_parse_mq_id (PBytes bs) = Some h)))
   \<and> (try_parse_mq_id (PBytes raw) = Some h \<longrightarrow>
        length h = MQ_ID_HEX_LENGTH \<and> mq_id_to_bytes (Some h) g = Inr (Some raw))"
proof (intro conjI impI)
  assume "normalize_mq_id v f = Inr (Some h)"
  then obtain bs s where v: "v = Some s" "fromhex s = Some bs" "mq_id_bytes bs" "h = to_hex bs"
      and n: "normalize_mq_id v f = Inr (Some h)"
    by (metis normalize_SomeE)
  from v show "normalize_mq_id (Some h) g = Inr (Some h)" by simp
  have "mq_id_to_bytes v f = Inr (Some bs)"
    using n v by (simp add: mq_id_to_bytes_def)
  with v show "\<exists>bs. length bs = 24 \<and> h = to_hex bs \<and> mq_id_to_bytes v f = Inr (Some bs)
      \<and> mq_id_to_bytes (Some h) g = Inr (Some bs)
      \<and> (list_ex (\<lambda>b. b \<noteq> 0) bs \<longrightarrow> try_parse_mq_id (PBytes bs) = Some h)"
    by (intro exI [of _ bs]) (simp add: try_parse_bytes mq_id_bytes_def MQ_ID_BYTES_LENGTH_def)
next
  assume "try_parse_mq_id (PBytes raw) = Some h"
  then have b: "mq_id_bytes raw" "h = to_hex raw"
    by (auto elim: try_parse_SomeE)
  then show "length h = MQ_ID_HEX_LENGTH"
    by (simp add: mq_id_bytes_def MQ_ID_HEX_LENGTH_def)
  from b show "mq_id_to_bytes (Some h) g = Inr (Some raw)" by simp
qed

theorem mq_id_wire_roundtrip_witness:
  "mq_id_to_bytes (Some (to_hex (replicate 24 170))) ''correlation_id'' = Inr (Some (replicate 24 170))
   \<and> try_parse_mq_id (PBytes (replicate 24 170)) = Some (to_hex (replicate 24 170))"
proof -
  have p: "try_parse_mq_id (PBytes (replicate 24 170)) = Some (to_hex (replicate 24 170))"
    by (rule try_parse_bytes) (simp_all add: mq_id_bytes_def MQ_ID_BYTES_LENGTH_def list_ex_iff)
  with mq_id_wire_roundtrip [of None "''message_id''" "to_hex (replicate 24 170)"
      "''correlation_id''" "replicate 24 170"]
  show ?thesis by blast
qed

end
