(* ===== verification/MQ_Response.thy ===== *)
theory MQ_Response
  imports MQ_Ids
begin

text \<open>
  \<open>faststream_mq/response.py\<close> and \<open>faststream_mq/schemas.py\<close>: the publish command
  that travels from the user's call to the MQ connection, the response a handler may
  return, and the queue value. The base classes \<open>Response\<close> and \<open>PublishCommand\<close>
  belong to FastStream: a record \<open>fslib\<close> has what they do beyond storing their
  arguments (the treatment of \<open>headers\<close>), and the FastStream functions the adapter
  calls elsewhere.
\<close>

section \<open>FastStream, as far as the adapter uses it\<close>

datatype AckStatus = ACKED | NACKED | REJECTED

datatype publish_type = PUBLISH | REPLY | REQUEST

record publish_command =
  body :: pyval
  destination :: string
  headers_of :: headers
  correlation_id :: "string option"
  reply_to :: string
  publish_type :: publish_type

record mq_publish_command = publish_command +
  message_id :: "string option"
  reply_to_qmgr :: string
  priority :: "int option"
  persistence :: "bool option"
  expiry :: "int option"
  message_type :: "string option"
  timeout :: pyfloat
  native_correlation_id :: "bytes option"
  syncpoint :: bool

datatype any_command = PlainCommand publish_command | MQCommand mq_publish_command

record fslib =
  base_headers :: "headers option \<Rightarrow> headers"
  base_add_headers :: "headers \<Rightarrow> headers \<Rightarrow> bool \<Rightarrow> headers"  \<comment> \<open>own, added, override\<close>
  base_patch_command :: "any_command \<Rightarrow> any_command"
  encode_message :: "pyval \<Rightarrow> nat option \<Rightarrow> exn + bytes \<times> string option"
  json_dumps :: "pyval \<Rightarrow> exn + string"
  base_ack :: "AckStatus option \<Rightarrow> AckStatus option"   \<comment> \<open>\<open>StreamMessage.ack\<close> on \<open>committed\<close>\<close>
  base_nack :: "AckStatus option \<Rightarrow> AckStatus option"

text \<open>
  Documented behaviour of the header handling: \<open>headers or {}\<close> when a command is built;
  \<open>add_headers\<close> merges, and the command's own value wins unless \<open>override\<close> is set.
\<close>

definition headers_as_documented :: "fslib \<Rightarrow> bool" where
  "headers_as_documented F \<longleftrightarrow>
     base_headers F None = [] \<and> (\<forall>h. base_headers F (Some h) = h)
     \<and> (\<forall>own new. base_add_headers F own new True = dict_union own new)
     \<and> (\<forall>own new. base_add_headers F own new False = dict_union new own)"

text \<open>
  Documented behaviour of the settlement flags of a \<open>StreamMessage\<close>: the first of \<open>ack\<close> and
  \<open>nack\<close> sets the status, later calls leave it.
\<close>

definition acks_as_documented :: "fslib \<Rightarrow> bool" where
  "acks_as_documented F \<longleftrightarrow>
     base_ack F None = Some ACKED \<and> base_nack F None = Some NACKED
     \<and> (\<forall>a. base_ack F (Some a) = Some a \<and> base_nack F (Some a) = Some a)"

text \<open>
  A concrete instance with the documented header handling, on which witnesses evaluate:
  bodies that are \<open>str\<close> become their UTF-8 bytes, everything else an empty message.
\<close>

definition sample_fslib :: fslib where
  "sample_fslib =
     \<lparr>base_headers = (\<lambda>h. case h of None \<Rightarrow> [] | Some d \<Rightarrow> d),
      base_add_headers = (\<lambda>own new over. if over then dict_union own new else dict_union new own),
      base_patch_command = (\<lambda>c. c),
      encode_message = (\<lambda>b s. case b of
          PStr t \<Rightarrow> Inr (map (\<lambda>c. word_of_nat (of_char c)) t, Some ''text/plain'')
        | _ \<Rightarrow> Inr ([], None)),
      json_dumps = (\<lambda>v. Inr ''null''),
      base_ack = (\<lambda>c. case c of None \<Rightarrow> Some ACKED | Some a \<Rightarrow> Some a),
      base_nack = (\<lambda>c. case c of None \<Rightarrow> Some NACKED | Some a \<Rightarrow> Some a)\<rparr>"

lemma sample_fslib_documented [simp]: "headers_as_documented sample_fslib"
  by (simp add: headers_as_documented_def sample_fslib_def)

lemma sample_fslib_acks [simp]: "acks_as_documented sample_fslib"
  by (simp add: acks_as_documented_def sample_fslib_def)

section \<open>MQQueue\<close>

record MQQueue =
  name :: string

datatype queue_arg = QueueObj MQQueue | QueueStr string

fun validate :: "queue_arg \<Rightarrow> MQQueue" where
  "validate (QueueObj q) = q"
| "validate (QueueStr s) = \<lparr>name = s\<rparr>"

definition add_prefix :: "MQQueue \<Rightarrow> string \<Rightarrow> MQQueue" where
  "add_prefix q prefix = \<lparr>name = prefix @ name q\<rparr>"

definition routing :: "MQQueue \<Rightarrow> string" where
  "routing q = name q"

section \<open>MQPublishCommand\<close>

text \<open>The keyword arguments of the constructor and their defaults.\<close>

record cmd_kwargs =
  kw_headers :: "headers option"
  kw_correlation_id :: "string option"
  kw_message_id :: "string option"
  kw_reply_to :: string
  kw_reply_to_qmgr :: string
  kw_priority :: "int option"
  kw_persistence :: "bool option"
  kw_expiry :: "int option"
  kw_message_type :: "string option"
  kw_timeout :: pyfloat
  kw_native_correlation_id :: "bytes option"
  kw_syncpoint :: bool

definition no_kwargs :: cmd_kwargs where
  "no_kwargs = \<lparr>kw_headers = None, kw_correlation_id = None, kw_message_id = None,
     kw_reply_to = [], kw_reply_to_qmgr = [], kw_priority = None, kw_persistence = None,
     kw_expiry = None, kw_message_type = None, kw_timeout = Fin 5 0,
     kw_native_correlation_id = None, kw_syncpoint = False\<rparr>"

definition MQPublishCommand ::
  "fslib \<Rightarrow> pyval \<Rightarrow> string \<Rightarrow> publish_type \<Rightarrow> cmd_kwargs \<Rightarrow> exn + mq_publish_command" where
  "MQPublishCommand F message dest ptype kw =
     (case normalize_mq_id (kw_correlation_id kw) ''correlation_id'' of
        Inl e \<Rightarrow> Inl e
      | Inr cid \<Rightarrow> (case normalize_mq_id (kw_message_id kw) ''message_id'' of
          Inl e \<Rightarrow> Inl e
        | Inr mid \<Rightarrow> Inr
           \<lparr>body = message, destination = dest, headers_of = base_headers F (kw_headers kw),
            correlation_id = cid, reply_to = kw_reply_to kw, publish_type = ptype,
            message_id = mid, reply_to_qmgr = kw_reply_to_qmgr kw, priority = kw_priority kw,
            persistence = kw_persistence kw, expiry = kw_expiry kw,
            message_type = kw_message_type kw, timeout = kw_timeout kw,
            native_correlation_id = kw_native_correlation_id kw,
            syncpoint = kw_syncpoint kw\<rparr>))"

fun from_cmd :: "fslib \<Rightarrow> any_command \<Rightarrow> exn + mq_publish_command" where
  "from_cmd F (MQCommand c) = Inr c"
| "from_cmd F (PlainCommand c) =
     MQPublishCommand F (body c) (destination c) (publish_type c)
       (no_kwargs\<lparr>kw_headers := Some (headers_of c), kw_correlation_id := correlation_id c,
                 kw_reply_to := reply_to c\<rparr>)"

section \<open>MQResponse\<close>

record MQResponse =
  r_body :: pyval
  r_headers :: headers
  r_correlation_id :: "string option"
  r_message_id :: "string option"
  r_reply_to :: string
  r_reply_to_qmgr :: string
  r_priority :: "int option"
  r_persistence :: "bool option"
  r_expiry :: "int option"
  r_message_type :: "string option"

definition MQResponse_init :: "fslib \<Rightarrow> pyval \<Rightarrow> cmd_kwargs \<Rightarrow> MQResponse" where
  "MQResponse_init F b kw =
     \<lparr>r_body = b, r_headers = base_headers F (kw_headers kw),
      r_correlation_id = kw_correlation_id kw, r_message_id = kw_message_id kw,
      r_reply_to = kw_reply_to kw, r_reply_to_qmgr = kw_reply_to_qmgr kw,
      r_priority = kw_priority kw, r_persistence = kw_persistence kw, r_expiry = kw_expiry kw,
      r_message_type = kw_message_type kw\<rparr>"

definition as_publish_command :: "fslib \<Rightarrow> MQResponse \<Rightarrow> exn + mq_publish_command" where
  "as_publish_command F r =
     MQPublishCommand F (r_body r) [] PUBLISH
       (no_kwargs\<lparr>kw_headers := Some (r_headers r), kw_correlation_id := r_correlation_id r,
          kw_message_id := r_message_id r, kw_reply_to := r_reply_to r,
          kw_reply_to_qmgr := r_reply_to_qmgr r, kw_priority := r_priority r,
          kw_persistence := r_persistence r, kw_expiry := r_expiry r,
          kw_message_type := r_message_type r\<rparr>)"

section \<open>Lemmas\<close>

text \<open>The identifiers of a command are absent or in the normal form of \<open>MQ_Ids\<close>.\<close>

definition normal_id :: "string option \<Rightarrow> bool" where
  "normal_id v \<longleftrightarrow> (case v of None \<Rightarrow> True | Some h \<Rightarrow> \<exists>bs. mq_id_bytes bs \<and> h = to_hex bs)"

definition command_ok :: "mq_publish_command \<Rightarrow> bool" where
  "command_ok c \<longleftrightarrow> normal_id (correlation_id c) \<and> normal_id (message_id c)"

lemma normalize_normal_id: "normalize_mq_id v f = Inr w \<Longrightarrow> normal_id w"
  by (cases w) (auto simp: normal_id_def elim: normalize_SomeE)

lemma normal_id_normalize: "normal_id v \<Longrightarrow> normalize_mq_id v f = Inr v"
  by (auto simp: normal_id_def split: option.splits)

lemma normal_id_to_bytes:
  "normal_id (Some h) \<Longrightarrow> \<exists>bs. mq_id_bytes bs \<and> mq_id_to_bytes (Some h) f = Inr (Some bs)"
  by (auto simp: normal_id_def)

lemma MQPublishCommand_ok: "MQPublishCommand F b d p kw = Inr c \<Longrightarrow> command_ok c"
  by (auto simp: MQPublishCommand_def command_ok_def split: sum.splits dest: normalize_normal_id)

lemma MQPublishCommand_error:
  "MQPublishCommand F b d p kw = Inl e \<Longrightarrow>
     e = ValueError (mq_id_error ''correlation_id'') \<or> e = ValueError (mq_id_error ''message_id'')"
  by (auto simp: MQPublishCommand_def normalize_mq_id_def split: sum.splits if_splits option.splits)

lemma MQPublishCommand_fields:
  assumes "MQPublishCommand F b d p kw = Inr c"
  shows "body c = b" "destination c = d" "publish_type c = p"
    "headers_of c = base_headers F (kw_headers kw)" "reply_to c = kw_reply_to kw"
    "reply_to_qmgr c = kw_reply_to_qmgr kw" "priority c = kw_priority kw"
    "persistence c = kw_persistence kw" "expiry c = kw_expiry kw"
    "message_type c = kw_message_type kw" "timeout c = kw_timeout kw"
    "native_correlation_id c = kw_native_correlation_id kw" "syncpoint c = kw_syncpoint kw"
  using assms by (auto simp: MQPublishCommand_def split: sum.splits)

lemma kwargs_simps [simp]:
  "kw_headers no_kwargs = None" "kw_correlation_id no_kwargs = None"
  "kw_message_id no_kwargs = None" "kw_reply_to no_kwargs = []"
  "kw_reply_to_qmgr no_kwargs = []" "kw_priority no_kwargs = None"
  "kw_persistence no_kwargs = None" "kw_expiry no_kwargs = None"
  "kw_message_type no_kwargs = None" "kw_timeout no_kwargs = Fin 5 0"
  "kw_native_correlation_id no_kwargs = None" "\<not> kw_syncpoint no_kwargs"
  by (simp_all add: no_kwargs_def)

section \<open>Properties\<close>

text \<open>
  A response that came from a handler becomes the command it describes: if its
  identifiers are acceptable, every field of the response is the field of the command,
  identifiers in normal form, with an empty destination; otherwise the ValueError names
  the first identifier that is not acceptable. Converting the command again changes
  nothing.
\<close>

theorem response_as_command:
  "case as_publish_command F r of
     Inr c \<Rightarrow>
       command_ok c \<and> destination c = [] \<and> publish_type c = PUBLISH \<and> \<not> syncpoint c
       \<and> native_correlation_id c = None
       \<and> body c = r_body r \<and> headers_of c = base_headers F (Some (r_headers r))
       \<and> reply_to c = r_reply_to r \<and> reply_to_qmgr c = r_reply_to_qmgr r
       \<and> priority c = r_priority r \<and> persistence c = r_persistence r \<and> expiry c = r_expiry r
       \<and> message_type c = r_message_type r
       \<and> normalize_mq_id (r_correlation_id r) ''correlation_id'' = Inr (correlation_id c)
       \<and> normalize_mq_id (r_message_id r) ''message_id'' = Inr (message_id c)
       \<and> from_cmd F (MQCommand c) = Inr c
   | Inl e \<Rightarrow>
       (normalize_mq_id (r_correlation_id r) ''correlation_id'' = Inl e
          \<and> e = ValueError (mq_id_error ''correlation_id''))
       \<or> (\<exists>i. normalize_mq_id (r_correlation_id r) ''correlation_id'' = Inr i
          \<and> normalize_mq_id (r_message_id r) ''message_id'' = Inl e
          \<and> e = ValueError (mq_id_error ''message_id''))"
proof (cases "as_publish_command F r")
  case (Inl e)
  then show ?thesis
    by (auto simp: as_publish_command_def MQPublishCommand_def normalize_mq_id_def
        split: sum.splits if_splits option.splits)
next
  case (Inr c)
  then have "command_ok c" unfolding as_publish_command_def by (rule MQPublishCommand_ok)
  with Inr show ?thesis
    by (auto simp: as_publish_command_def MQPublishCommand_def split: sum.splits)
qed

end
