(* ===== verification/MQ_Strings.thy ===== *)
theory MQ_Strings
  imports MQ_Prelude "HOL-Library.Sublist"
begin

text \<open>
  The \<open>str\<close> and \<open>bytes\<close> methods the adapter calls: \<open>bytes.decode\<close> (strict UTF-8),
  \<open>str.strip\<close>, \<open>str.replace\<close>, \<open>str.startswith\<close> and \<open>str.lower\<close>. A \<open>str\<close> is
  the character list of its UTF-8 encoding, so decoding is a validity test and the white
  space \<open>strip\<close> removes is a list of byte sequences.
\<close>

section \<open>Decoding\<close>

definition cont :: "nat \<Rightarrow> bool" where
  "cont n \<longleftrightarrow> 128 \<le> n \<and> n \<le> 191"

text \<open>The well-formed byte sequences of UTF-8; surrogates and overlong forms are refused.\<close>

fun utf8_valid :: "nat list \<Rightarrow> bool" where
  "utf8_valid [] = True"
| "utf8_valid (a # s) =
     (if a < 128 then utf8_valid s
      else if 194 \<le> a \<and> a \<le> 223 then
        (case s of b # t \<Rightarrow> cont b \<and> utf8_valid t | _ \<Rightarrow> False)
      else if 224 \<le> a \<and> a \<le> 239 then
        (case s of b # c # t \<Rightarrow>
           cont b \<and> cont c \<and> (a = 224 \<longrightarrow> 160 \<le> b) \<and> (a = 237 \<longrightarrow> b \<le> 159) \<and> utf8_valid t
         | _ \<Rightarrow> False)
      else if 240 \<le> a \<and> a \<le> 244 then
        (case s of b # c # d # t \<Rightarrow>
           cont b \<and> cont c \<and> cont d \<and> (a = 240 \<longrightarrow> 144 \<le> b) \<and> (a = 244 \<longrightarrow> b \<le> 143)
           \<and> utf8_valid t
         | _ \<Rightarrow> False)
      else False)"

definition decode_utf8 :: "bytes \<Rightarrow> exn + string" where
  "decode_utf8 bs =
     (if utf8_valid (map unat bs) then Inr (map (\<lambda>b. char_of (unat b)) bs)
      else Inl UnicodeDecodeError)"

definition encode_utf8 :: "string \<Rightarrow> bytes" where
  "encode_utf8 s = map (\<lambda>c. word_of_nat (of_char c)) s"

lemma unat_of_char: "unat (word_of_nat (of_char c) :: 8 word) = of_char c"
proof -
  have "(of_char c :: nat) < 256" by simp
  then show ?thesis by (subst unat_of_nat) simp
qed

lemma decode_encode [simp]:
  "utf8_valid (map of_char s) \<Longrightarrow> decode_utf8 (encode_utf8 s) = Inr s"
  by (simp add: decode_utf8_def encode_utf8_def unat_of_char comp_def)

lemma utf8_valid_ascii: "list_all (\<lambda>n. n < 128) ns \<Longrightarrow> utf8_valid ns"
  by (induction ns) auto

section \<open>strip\<close>

text \<open>The code points for which \<open>str.isspace\<close> holds, in UTF-8.\<close>

definition white_space :: "string list" where
  "white_space =
     [[CHR 0x09], [CHR 0x0A], [CHR 0x0B], [CHR 0x0C], [CHR 0x0D], [CHR 0x1C], [CHR 0x1D],
      [CHR 0x1E], [CHR 0x1F], [CHR 0x20], [CHR 0xC2, CHR 0x85], [CHR 0xC2, CHR 0xA0],
      [CHR 0xE1, CHR 0x9A, CHR 0x80], [CHR 0xE2, CHR 0x80, CHR 0x80],
      [CHR 0xE2, CHR 0x80, CHR 0x81], [CHR 0xE2, CHR 0x80, CHR 0x82],
      [CHR 0xE2, CHR 0x80, CHR 0x83], [CHR 0xE2, CHR 0x80, CHR 0x84],
      [CHR 0xE2, CHR 0x80, CHR 0x85], [CHR 0xE2, CHR 0x80, CHR 0x86],
      [CHR 0xE2, CHR 0x80, CHR 0x87], [CHR 0xE2, CHR 0x80, CHR 0x88],
      [CHR 0xE2, CHR 0x80, CHR 0x89], [CHR 0xE2, CHR 0x80, CHR 0x8A],
      [CHR 0xE2, CHR 0x80, CHR 0xA8], [CHR 0xE2, CHR 0x80, CHR 0xA9],
      [CHR 0xE2, CHR 0x80, CHR 0xAF], [CHR 0xE2, CHR 0x81, CHR 0x9F],
      [CHR 0xE3, CHR 0x80, CHR 0x80]]"

function lstrip :: "string list \<Rightarrow> string \<Rightarrow> string" where
  "lstrip ws s = (case find (\<lambda>w. w \<noteq> [] \<and> take (length w) s = w) ws of
      None \<Rightarrow> s
    | Some w \<Rightarrow> lstrip ws (drop (length w) s))"
  by pat_completeness auto
termination
proof (relation "measure (\<lambda>(ws, s). length s)")
  show "wf (measure (\<lambda>(ws, s). length s))" by simp
next
  fix ws :: "string list" and s :: string and w
  assume "find (\<lambda>w. w \<noteq> [] \<and> take (length w) s = w) ws = Some w"
  then have "w \<noteq> []" and "take (length w) s = w" by (auto simp: find_Some_iff)
  then show "((ws, drop (length w) s), (ws, s)) \<in> measure (\<lambda>(ws, s). length s)"
    by (cases s) auto
qed

declare lstrip.simps [simp del]

definition strip :: "string \<Rightarrow> string" where
  "strip s = rev (lstrip (map rev white_space) (rev (lstrip white_space s)))"

definition not_space_at :: "string list \<Rightarrow> string \<Rightarrow> bool" where
  "not_space_at ws s \<longleftrightarrow> \<not> list_ex (\<lambda>w. w \<noteq> [] \<and> take (length w) s = w) ws"

text \<open>A string that neither starts nor ends with white space is its own \<open>strip\<close>.\<close>

definition stripped :: "string \<Rightarrow> bool" where
  "stripped s \<longleftrightarrow> not_space_at white_space s \<and> not_space_at (map rev white_space) (rev s)"

lemma lstrip_id: "not_space_at ws s \<Longrightarrow> lstrip ws s = s"
  by (subst lstrip.simps) (auto simp: not_space_at_def list_ex_iff find_Some_iff split: option.split
      dest: nth_mem)

lemma strip_stripped [simp]: "stripped s \<Longrightarrow> strip s = s"
  by (simp add: strip_def stripped_def lstrip_id)

text \<open>\<open>strip\<close> is idempotent: what it returns is stripped.\<close>

lemma not_space_at_lstrip: "not_space_at ws (lstrip ws s)"
proof (induction ws s rule: lstrip.induct)
  case (1 ws s)
  show ?case
  proof (cases "find (\<lambda>w. w \<noteq> [] \<and> take (length w) s = w) ws")
    case None
    then have "lstrip ws s = s" by (subst lstrip.simps) simp
    with None show ?thesis by (auto simp: not_space_at_def list_ex_iff find_None_iff)
  next
    case (Some w)
    then show ?thesis using "1.IH" [OF Some] by (subst lstrip.simps) simp
  qed
qed

lemma lstrip_suffix: "suffix (lstrip ws s) s"
proof (induction ws s rule: lstrip.induct)
  case (1 ws s)
  show ?case
  proof (cases "find (\<lambda>w. w \<noteq> [] \<and> take (length w) s = w) ws")
    case None
    then show ?thesis by (subst lstrip.simps) simp
  next
    case (Some w)
    from "1.IH" [OF Some] have "suffix (lstrip ws (drop (length w) s)) s"
      using suffix_drop suffix_order.trans by blast
    with Some show ?thesis by (subst lstrip.simps) simp
  qed
qed

lemma not_space_at_prefix: "not_space_at ws s \<Longrightarrow> prefix t s \<Longrightarrow> not_space_at ws t"
  by (fastforce simp: not_space_at_def list_ex_iff prefix_def)

lemma stripped_strip [simp]: "stripped (strip s)"
proof -
  have "suffix (lstrip (map rev white_space) (rev (lstrip white_space s))) (rev (lstrip white_space s))"
    by (rule lstrip_suffix)
  then have "prefix (strip s) (lstrip white_space s)"
    by (simp add: strip_def suffix_to_prefix)
  then have "not_space_at white_space (strip s)"
    by (rule not_space_at_prefix [OF not_space_at_lstrip])
  moreover have "not_space_at (map rev white_space) (rev (strip s))"
    by (simp add: strip_def not_space_at_lstrip)
  ultimately show ?thesis by (simp add: stripped_def)
qed

section \<open>replace, startswith, lower\<close>

definition starts_with :: "string \<Rightarrow> string \<Rightarrow> bool" where
  "starts_with s p \<longleftrightarrow> take (length p) s = p"

lemma starts_with_simps [simp]:
  "starts_with s []"
  "\<not> starts_with [] (a # p)"
  "starts_with (b # s) (a # p) \<longleftrightarrow> b = a \<and> starts_with s p"
  by (simp_all add: starts_with_def)

lemma starts_with_append [simp]: "starts_with (p @ s) p"
  by (simp add: starts_with_def)

lemma starts_withE: "starts_with s p \<Longrightarrow> (\<And>t. s = p @ t \<Longrightarrow> thesis) \<Longrightarrow> thesis"
  by (metis append_take_drop_id starts_with_def)

text \<open>
  Leftmost, non-overlapping replacement of a non-empty substring.
\<close>

function py_replace :: "string \<Rightarrow> string \<Rightarrow> string \<Rightarrow> string" where
  "py_replace old new s = (case s of
      [] \<Rightarrow> []
    | c # cs \<Rightarrow>
        if old \<noteq> [] \<and> starts_with s old
        then new @ py_replace old new (drop (length old) s)
        else c # py_replace old new cs)"
  by pat_completeness auto
termination
  by (relation "measure (\<lambda>(old, new, s). length s)") auto

declare py_replace.simps [simp del]

lemma py_replace_Nil [simp]: "py_replace old new [] = []"
  by (simp add: py_replace.simps)

lemma py_replace_prefix:
  "old \<noteq> [] \<Longrightarrow> py_replace old new (old @ s) = new @ py_replace old new s"
proof -
  assume "old \<noteq> []"
  then obtain c cs where e: "old @ s = c # cs" by (cases old) auto
  have "starts_with (c # cs) old" and "drop (length old) (c # cs) = s"
    by (simp_all add: e [symmetric])
  with \<open>old \<noteq> []\<close> e show ?thesis by (simp add: py_replace.simps [of old new "c # cs"])
qed

lemma py_replace_Cons:
  "\<not> starts_with (c # cs) old \<Longrightarrow> py_replace old new (c # cs) = c # py_replace old new cs"
  by (simp add: py_replace.simps [of old new "c # cs"])

lemma py_replace_char:
  "py_replace [a] new s = concat (map (\<lambda>c. if c = a then new else [c]) s)"
  by (induction s) (auto simp: py_replace.simps [of "[a]" new])

text \<open>
  \<open>str.lower\<close> on ASCII letters; the letters the adapter compares are ASCII.
\<close>

definition lower_char :: "char \<Rightarrow> char" where
  "lower_char c = (let n = (of_char c :: nat) in if 65 \<le> n \<and> n \<le> 90 then char_of (n + 32) else c)"

definition lower :: "string \<Rightarrow> string" where
  "lower s = map lower_char s"

lemma lower_char_idem [simp]: "lower_char (lower_char c) = lower_char c"
proof (cases "65 \<le> (of_char c :: nat) \<and> (of_char c :: nat) \<le> 90")
  case True
  then have "(of_char c + 32 :: nat) mod 256 = of_char c + 32" by simp
  with True show ?thesis by (simp add: lower_char_def Let_def)
next
  case False
  then show ?thesis by (auto simp: lower_char_def Let_def)
qed

lemma lower_idem [simp]: "lower (lower s) = lower s"
  by (simp add: lower_def)

text \<open>Lower case neither adds nor removes white space, so it keeps a string stripped.\<close>

lemma lower_char_non_letter:
  "(of_char x :: nat) < 65 \<or> 122 < (of_char x :: nat) \<Longrightarrow> lower_char c = x \<Longrightarrow> c = x"
  by (auto simp: lower_char_def Let_def split: if_splits)

lemma map_lower_char_white_space:
  "w \<in> set white_space \<union> set (map rev white_space) \<Longrightarrow> map lower_char u = w \<Longrightarrow> u = w"
proof -
  have nl: "\<forall>w \<in> set white_space \<union> set (map rev white_space).
      list_all (\<lambda>x. (of_char x :: nat) < 65 \<or> 122 < (of_char x :: nat)) w"
    by (simp add: white_space_def)
  assume "w \<in> set white_space \<union> set (map rev white_space)"
  with nl have "list_all (\<lambda>x. (of_char x :: nat) < 65 \<or> 122 < (of_char x :: nat)) w" by blast
  then show "map lower_char u = w \<Longrightarrow> u = w"
    by (induction w arbitrary: u) (auto intro: lower_char_non_letter)
qed

lemma not_space_at_lower:
  "set ws \<subseteq> set white_space \<union> set (map rev white_space) \<Longrightarrow>
     not_space_at ws s \<Longrightarrow> not_space_at ws (lower s)"
  unfolding not_space_at_def list_ex_iff lower_def take_map
  using map_lower_char_white_space by blast

lemma stripped_lower [simp]: "stripped s \<Longrightarrow> stripped (lower s)"
  unfolding stripped_def
  using not_space_at_lower [of white_space s]
    not_space_at_lower [of "map rev white_space" "rev s"]
  by (auto simp: lower_def rev_map)

lemma length_lower [simp]: "length (lower s) = length s"
  by (simp add: lower_def)

end
