(* ===== verification/MQ_Runtime.thy ===== *)
theory MQ_Runtime
  imports MQ_Strings
begin

text \<open>
  \<open>faststream_mq/runtime.py\<close>: is the native IBM MQ client usable in this process. The
  platform strings and the result of \<open>import ibmmq\<close> are inputs; the theory has the
  normalisation of the platform names and the status the rest of the adapter asks for.
\<close>

section \<open>The model\<close>

definition SUPPORTED_NATIVE_CLIENT_PLATFORMS :: "(string \<times> string list) list" where
  "SUPPORTED_NATIVE_CLIENT_PLATFORMS =
     [(''linux'', [''x86_64'', ''amd64'']), (''windows'', [''x86_64'', ''amd64''])]"

record MQRuntimeStatus =
  supported_platform :: bool
  ibmmq_installed :: bool
  reason :: "string option"

definition available :: "MQRuntimeStatus \<Rightarrow> bool" where
  "available st \<longleftrightarrow> supported_platform st \<and> ibmmq_installed st"

definition normalise_platform_value :: "string \<Rightarrow> string" where
  "normalise_platform_value value =
     (let normalised = lower (strip value) in if normalised = [] then ''unknown'' else normalised)"

definition normalise_system :: "string \<Rightarrow> string" where
  "normalise_system value =
     (let normalised = normalise_platform_value value in
      if normalised \<in> set [''win32'', ''cygwin'', ''msys''] then ''windows'' else normalised)"

text \<open>\<open>system or platform.system()\<close>: absent and empty arguments fall back.\<close>

definition or_default :: "string option \<Rightarrow> string \<Rightarrow> string" where
  "or_default v d = (case v of None \<Rightarrow> d | Some s \<Rightarrow> if s = [] then d else s)"

definition is_mq_supported_platform ::
  "string \<Rightarrow> string \<Rightarrow> string option \<Rightarrow> string option \<Rightarrow> bool" where
  "is_mq_supported_platform plat_system plat_machine system machine =
     (let resolved_system = normalise_system (or_default system plat_system);
          resolved_machine = normalise_platform_value (or_default machine plat_machine)
      in list_ex (\<lambda>(s, ms). resolved_system = s \<and> resolved_machine \<in> set ms)
           SUPPORTED_NATIVE_CLIENT_PLATFORMS)"

definition get_mq_platform_warning ::
  "string \<Rightarrow> string \<Rightarrow> string option \<Rightarrow> string option \<Rightarrow> string option" where
  "get_mq_platform_warning plat_system plat_machine system machine =
     (let resolved_system = normalise_system (or_default system plat_system);
          resolved_machine = normalise_platform_value (or_default machine plat_machine)
      in if is_mq_supported_platform plat_system plat_machine
              (Some resolved_system) (Some resolved_machine) then None
         else Some (''IBM MQ native client support requires an IBM redistributable C client ''
           @ ''for the current platform. IBM MQ 9.4 provides native redistributable ''
           @ ''C clients for linux/x86_64 and windows/x64. ''
           @ ''Current platform: '' @ resolved_system @ ''/'' @ resolved_machine @ ''.''))"

text \<open>The import of \<open>ibmmq\<close>: it succeeds, or fails with the text of the exception.\<close>

datatype import_result = Imported | ImportFails string

definition get_mq_runtime_status ::
  "import_result \<Rightarrow> string \<Rightarrow> string \<Rightarrow> string option \<Rightarrow> string option \<Rightarrow> MQRuntimeStatus" where
  "get_mq_runtime_status import_ibmmq plat_system plat_machine system machine =
     (case get_mq_platform_warning plat_system plat_machine system machine of
        Some w \<Rightarrow> \<lparr>supported_platform = False, ibmmq_installed = False, reason = Some w\<rparr>
      | None \<Rightarrow> (case import_ibmmq of
          ImportFails e \<Rightarrow>
            \<lparr>supported_platform = True, ibmmq_installed = False,
             reason = Some (''IBM MQ Python runtime is unavailable. Missing module or ''
               @ ''unloadable module: ibmmq. Import failed: '' @ e @ ''. Install ''
               @ ''faststream-mq on a supported MQ client platform with the IBM ''
               @ ''MQ native client libraries available.'')\<rparr>
        | Imported \<Rightarrow>
            \<lparr>supported_platform = True, ibmmq_installed = True, reason = None\<rparr>))"

definition is_mq_runtime_available ::
  "import_result \<Rightarrow> string \<Rightarrow> string \<Rightarrow> string option \<Rightarrow> string option \<Rightarrow> bool" where
  "is_mq_runtime_available import_ibmmq plat_system plat_machine system machine =
     available (get_mq_runtime_status import_ibmmq plat_system plat_machine system machine)"

definition ensure_mq_runtime_available ::
  "import_result \<Rightarrow> string \<Rightarrow> string \<Rightarrow> string option \<Rightarrow> string option \<Rightarrow> exn + unit" where
  "ensure_mq_runtime_available import_ibmmq plat_system plat_machine system machine =
     (let st = get_mq_runtime_status import_ibmmq plat_system plat_machine system machine
      in if \<not> available st
         then Inl (RuntimeError (case reason st of None \<Rightarrow> ''None'' | Some r \<Rightarrow> r))
         else Inr ())"

section \<open>Normalisation\<close>

lemma stripped_literals [simp]: "stripped ''windows''" "stripped ''unknown''"
  by (simp_all add: stripped_def not_space_at_def white_space_def)

lemma lower_literals [simp]: "lower ''windows'' = ''windows''" "lower ''unknown'' = ''unknown''"
  by (simp_all add: lower_def lower_char_def)

lemma or_default_Some [simp]: "s \<noteq> [] \<Longrightarrow> or_default (Some s) d = s"
  by (simp add: or_default_def)

lemma normalise_platform_value_not_Nil [simp]: "normalise_platform_value v \<noteq> []"
  by (simp add: normalise_platform_value_def Let_def)

lemma normalise_system_not_Nil [simp]: "normalise_system v \<noteq> []"
  by (simp add: normalise_system_def Let_def)

lemma normalise_platform_value_idem [simp]:
  "normalise_platform_value (normalise_platform_value v) = normalise_platform_value v"
  by (simp add: normalise_platform_value_def Let_def)

lemma normalise_system_idem [simp]: "normalise_system (normalise_system v) = normalise_system v"
  by (auto simp: normalise_system_def Let_def normalise_platform_value_def)

text \<open>Resolving twice, as the warning does, is resolving once.\<close>

lemma is_mq_supported_platform_normalised [simp]:
  "is_mq_supported_platform ps pm
     (Some (normalise_system s)) (Some (normalise_platform_value m)) =
   (normalise_system s \<in> {''linux'', ''windows''}
    \<and> normalise_platform_value m \<in> {''x86_64'', ''amd64''})"
  by (auto simp: is_mq_supported_platform_def SUPPORTED_NATIVE_CLIENT_PLATFORMS_def Let_def)

section \<open>Properties\<close>

text \<open>
  The runtime status is decided by the normalised platform and the import: the
  runtime is available exactly on Linux or Windows (whatever spelling, with Cygwin, MSYS
  and win32 counted as Windows), x86-64 or amd64, with an importable \<open>ibmmq\<close>. A reason is
  given exactly when it is not available, an unsupported platform is reported without
  importing, and \<open>ensure_mq_runtime_available\<close> raises that reason.
\<close>

theorem runtime_status_decided:
  fixes imp ps pm system machine
  defines "st \<equiv> get_mq_runtime_status imp ps pm system machine"
    and "s \<equiv> normalise_system (or_default system ps)"
    and "m \<equiv> normalise_platform_value (or_default machine pm)"
  shows "(available st \<longleftrightarrow>
        s \<in> {''linux'', ''windows''} \<and> m \<in> {''x86_64'', ''amd64''} \<and> imp = Imported)
    \<and> (supported_platform st \<longleftrightarrow> is_mq_supported_platform ps pm system machine)
    \<and> (reason st = None \<longleftrightarrow> available st)
    \<and> ensure_mq_runtime_available imp ps pm system machine =
        (case reason st of None \<Rightarrow> Inr () | Some r \<Rightarrow> Inl (RuntimeError r))
    \<and> (is_mq_runtime_available imp ps pm system machine \<longleftrightarrow> reason st = None)"
proof -
  have sup: "is_mq_supported_platform ps pm system machine \<longleftrightarrow>
      s \<in> {''linux'', ''windows''} \<and> m \<in> {''x86_64'', ''amd64''}"
    unfolding s_def m_def
    by (auto simp: is_mq_supported_platform_def SUPPORTED_NATIVE_CLIENT_PLATFORMS_def Let_def)
  have w: "get_mq_platform_warning ps pm system machine = None \<longleftrightarrow>
      is_mq_supported_platform ps pm system machine"
    unfolding sup unfolding s_def m_def
    by (simp add: get_mq_platform_warning_def Let_def)
  show ?thesis
    by (cases "get_mq_platform_warning ps pm system machine"; cases imp)
      (use w sup in \<open>simp_all add: st_def get_mq_runtime_status_def available_def
        ensure_mq_runtime_available_def is_mq_runtime_available_def Let_def\<close>)
qed

end
