(* ===== verification/MQ_Library.thy ===== *)
theory MQ_Library
  imports MQ_Runtime
begin

text \<open>
  The outside world of the adapter: the \<open>ibmmq\<close> package, the operating system services
  the code calls and the history of those calls. None of it is defined here. A record
  \<open>mqlib\<close> holds the constants of \<open>ibmmq.CMQC\<close> and one answer function per kind of
  call; an answer may depend on everything that happened before, so quantifying over
  \<open>mqlib\<close> quantifies over every behaviour of the library, the network and the clock.
  Each call is appended to the history with a flag saying whether it returned.
\<close>

section \<open>Constants of ibmmq.CMQC and ibmmq.CMQXC\<close>

record cmqc =
  MQRC_NO_MSG_AVAILABLE :: int
  MQRC_PROPERTY_NOT_AVAILABLE :: int
  MQRC_PROPERTY_VALUE_TOO_BIG :: int
  MQRC_CONNECTION_BROKEN :: int
  MQRC_HCONN_ERROR :: int
  MQRC_Q_MGR_NOT_AVAILABLE :: int
  MQRC_HOST_NOT_AVAILABLE :: int
  MQRC_RECONNECTING :: int
  MQRC_RECONNECTED :: int
  MQRC_RECONNECT_FAILED :: int
  MQRC_CALL_INTERRUPTED :: int
  MQRC_RECONNECT_Q_MGR_REQD :: int
  MQRC_RECONNECT_TIMED_OUT :: int
  MQRC_SSL_INITIALIZATION_ERROR :: "int option"  \<comment> \<open>absent in some versions\<close>
  MQOO_INPUT_AS_Q_DEF :: int
  MQOO_INPUT_EXCLUSIVE :: int
  MQOO_OUTPUT :: int
  MQGMO_WAIT :: int
  MQGMO_SYNCPOINT :: int
  MQGMO_NO_SYNCPOINT :: int
  MQGMO_PROPERTIES_IN_HANDLE :: int
  MQMO_MATCH_CORREL_ID :: int
  MQPMO_SYNCPOINT :: int
  MQPER_PERSISTENT :: int
  MQPER_NOT_PERSISTENT :: int
  MQIMPO_INQ_FIRST :: int
  MQIMPO_INQ_NEXT :: int
  MQIMPO_INQ_PROP_UNDER_CURSOR :: int
  MQCNO_RECONNECT_AS_DEF :: int
  MQCNO_RECONNECT_DISABLED :: int
  MQCNO_RECONNECT :: int
  MQCNO_RECONNECT_Q_MGR :: int
  MQRCN_DISABLED :: int
  MQRCN_YES :: int
  MQRCN_Q_MGR :: int

section \<open>Objects passed to the library\<close>

text \<open>Attributes of a message descriptor are dynamically typed; a missing one is \<open>PNone\<close>.\<close>

record md =
  MsgId :: pyval
  CorrelId :: pyval
  ReplyToQ :: pyval
  ReplyToQMgr :: pyval
  Priority :: pyval
  Persistence :: pyval
  Expiry :: pyval

record gmo =
  gmo_Options :: int
  gmo_MatchOptions :: "int option"  \<comment> \<open>\<open>None\<close>: left at the library's default\<close>
  gmo_WaitInterval :: int
  gmo_MsgHandle :: nat

record pmo =
  pmo_Options :: int
  pmo_OriginalMsgHandle :: "nat option"

record cd =
  SSLCipherSpec :: pyval
  SSLPeerNamePtr :: pyval
  DefReconnect :: "int option"

record sco =
  KeyRepository :: string
  CertificateLabel :: "string option"
  KeyRepoPassword :: "string option"

record cno =
  cno_Options :: int
  CCDTUrl :: "string option"

section \<open>Calls and their history\<close>

text \<open>
  An object of the library is named by the position in the history of the call that
  created it, so two objects never share a name.
\<close>

datatype call =
    NewQueueManager
  | ConnectWithOptions nat string cno "string option" "string option" "cd option" "sco option"
  | ConnectTcpClient nat string cd string string "string option" "string option" cno "sco option"
  | Disconnect nat
  | GetName nat
  | Commit nat
  | Backout nat
  | OpenQueue nat string int
  | OpenDynamicQueue nat string string int
  | CloseQueue nat
  | NewMessageHandle nat
  | DeleteHandle nat
  | SetProperty nat string pyval
  | GetProperty nat int "int option"
  | Put nat bytes md pmo
  | Get nat md gmo
  | Sleep pyfloat
  | Monotonic
  | MkDTemp string
  | WriteFile string bytes
  | RmTree string

type_synonym history = "(call \<times> bool) list"

record world =
  AMQ_TLS_ENVIRONMENT_SCOPE :: "string option"
  history :: history

record mqlib =
  CMQC :: cmqc
  platform_system :: string
  platform_machine :: string
  import_ibmmq :: import_result
  new_md :: md
  new_cd :: cd
  new_pmo_Options :: int
  ans_unit :: "world \<Rightarrow> call \<Rightarrow> exn + unit"
  ans_put :: "world \<Rightarrow> call \<Rightarrow> exn + pyval"            \<comment> \<open>the \<open>MsgId\<close> the put left in its descriptor\<close>
  ans_get :: "world \<Rightarrow> call \<Rightarrow> exn + bytes \<times> md"
  ans_property :: "world \<Rightarrow> call \<Rightarrow> exn + pyval \<times> pyval"  \<comment> \<open>value and name\<close>
  ans_dynamic :: "world \<Rightarrow> call \<Rightarrow> exn + pyval"         \<comment> \<open>the name of the queue created\<close>
  ans_mkdtemp :: "world \<Rightarrow> call \<Rightarrow> exn + string"
  ans_clock :: "world \<Rightarrow> call \<Rightarrow> exn + pyfloat"

text \<open>
  One call: ask the answer function in the current world, record the call, and return or
  raise. A call that creates an object returns the position of its record.
\<close>

definition record_call :: "call \<Rightarrow> bool \<Rightarrow> world \<Rightarrow> world" where
  "record_call c okay w = w\<lparr>history := history w @ [(c, okay)]\<rparr>"

definition call_lib :: "(world \<Rightarrow> call \<Rightarrow> exn + 'a) \<Rightarrow> call \<Rightarrow> (world, 'a) prog" where
  "call_lib ans c = (\<lambda>w. case ans w c of
       Inl e \<Rightarrow> (Raises e, record_call c False w)
     | Inr x \<Rightarrow> (Returns x, record_call c True w))"

definition call_new :: "mqlib \<Rightarrow> call \<Rightarrow> (world, nat) prog" where
  "call_new L c = bind (gets (\<lambda>w. length (history w))) (\<lambda>i. seq (call_lib (ans_unit L) c) (ret i))"

lemma history_record_call [simp]: "history (record_call c b w) = history w @ [(c, b)]"
  by (simp add: record_call_def)

lemma environ_record_call [simp]:
  "AMQ_TLS_ENVIRONMENT_SCOPE (record_call c b w) = AMQ_TLS_ENVIRONMENT_SCOPE w"
  by (simp add: record_call_def)

lemma call_lib_apply [prog_simps]:
  "call_lib ans c w = (case ans w c of
       Inl e \<Rightarrow> (Raises e, record_call c False w)
     | Inr x \<Rightarrow> (Returns x, record_call c True w))"
  by (simp add: call_lib_def)

lemma call_new_apply [prog_simps]:
  "call_new L c w = (case ans_unit L w c of
       Inl e \<Rightarrow> (Raises e, record_call c False w)
     | Inr x \<Rightarrow> (Returns (length (history w)), record_call c True w))"
  by (simp add: call_new_def prog_simps split: sum.split)

lemma pres_call_lib:
  "(\<And>w b. I w \<Longrightarrow> I (record_call c b w)) \<Longrightarrow> preserves I (call_lib ans c)"
  by (auto simp: preserves_def prog_simps split: sum.split)

lemma pres_call_new:
  "(\<And>w b. I w \<Longrightarrow> I (record_call c b w)) \<Longrightarrow> preserves I (call_new L c)"
  by (auto simp: preserves_def prog_simps split: sum.split)

section \<open>_load_ibmmq\<close>

definition INSTALL_FASTSTREAM_MQ :: string where
  "INSTALL_FASTSTREAM_MQ =
     [CHR 0x0A] @ ''To use IBM MQ with FastStream, please install dependencies:''
     @ [CHR 0x0A, CHR 0x0A] @ ''pip install faststream-mq'' @ [CHR 0x0A]"

text \<open>
  \<open>_load_ibmmq\<close> asks for the runtime status and imports the module again; after an
  available status the second import finds the module loaded.
\<close>

definition load_ibmmq :: "mqlib \<Rightarrow> exn + unit" where
  "load_ibmmq L =
     (let status = get_mq_runtime_status (import_ibmmq L) (platform_system L) (platform_machine L)
            None None
      in if \<not> available status
         then Inl (ImportError (INSTALL_FASTSTREAM_MQ @ [CHR 0x0A] @
                (case reason status of None \<Rightarrow> ''None'' | Some r \<Rightarrow> r)))
         else case import_ibmmq L of
           Imported \<Rightarrow> Inr ()
         | ImportFails e \<Rightarrow> Inl (ImportError INSTALL_FASTSTREAM_MQ))"

definition mq_available :: "mqlib \<Rightarrow> bool" where
  "mq_available L \<longleftrightarrow> load_ibmmq L = Inr ()"

text \<open>A failing \<open>_load_ibmmq\<close> is an \<open>ImportError\<close>, which no clause of the adapter retries.\<close>

lemma load_ibmmq_cases:
  obtains "mq_available L" and "load_ibmmq L = Inr ()"
  | m where "\<not> mq_available L" and "load_ibmmq L = Inl (ImportError m)"
  by (cases "load_ibmmq L")
    (auto simp: mq_available_def load_ibmmq_def Let_def split: if_splits import_result.splits)

section \<open>Histories\<close>

definition calls_where :: "(call \<Rightarrow> bool) \<Rightarrow> history \<Rightarrow> nat" where
  "calls_where P h = length (filter (\<lambda>(c, _). P c) h)"

definition returned_where :: "(call \<Rightarrow> bool) \<Rightarrow> history \<Rightarrow> nat" where
  "returned_where P h = length (filter (\<lambda>(c, okay). P c \<and> okay) h)"

fun is_put :: "call \<Rightarrow> bool" where
  "is_put (Put q b m p) = True"
| "is_put c = False"

fun is_get :: "call \<Rightarrow> bool" where
  "is_get (Get q m g) = True"
| "is_get c = False"

lemma calls_where_append [simp]: "calls_where P (h @ k) = calls_where P h + calls_where P k"
  by (simp add: calls_where_def)

lemma calls_where_Nil [simp]: "calls_where P [] = 0"
  by (simp add: calls_where_def)

lemma calls_where_single [simp]: "calls_where P [(c, b)] = (if P c then 1 else 0)"
  by (simp add: calls_where_def)

lemma returned_where_append [simp]:
  "returned_where P (h @ k) = returned_where P h + returned_where P k"
  by (simp add: returned_where_def)

lemma returned_where_Nil [simp]: "returned_where P [] = 0"
  by (simp add: returned_where_def)

lemma returned_where_single [simp]: "returned_where P [(c, b)] = (if P c \<and> b then 1 else 0)"
  by (simp add: returned_where_def)

section \<open>A concrete library for examples\<close>

text \<open>
  The constants have their documented values. Every call succeeds except those for which
  \<open>faults\<close> names an exception; a message has the given body, descriptor and no properties.
\<close>

definition documented_cmqc :: cmqc where
  "documented_cmqc =
     \<lparr>MQRC_NO_MSG_AVAILABLE = 2033, MQRC_PROPERTY_NOT_AVAILABLE = 2471,
      MQRC_PROPERTY_VALUE_TOO_BIG = 2469, MQRC_CONNECTION_BROKEN = 2009, MQRC_HCONN_ERROR = 2018,
      MQRC_Q_MGR_NOT_AVAILABLE = 2059, MQRC_HOST_NOT_AVAILABLE = 2538, MQRC_RECONNECTING = 2544,
      MQRC_RECONNECTED = 2545, MQRC_RECONNECT_FAILED = 2548, MQRC_CALL_INTERRUPTED = 2549,
      MQRC_RECONNECT_Q_MGR_REQD = 2555, MQRC_RECONNECT_TIMED_OUT = 2556,
      MQRC_SSL_INITIALIZATION_ERROR = Some 2393, MQOO_INPUT_AS_Q_DEF = 1, MQOO_INPUT_EXCLUSIVE = 4,
      MQOO_OUTPUT = 16, MQGMO_WAIT = 1, MQGMO_SYNCPOINT = 2, MQGMO_NO_SYNCPOINT = 4,
      MQGMO_PROPERTIES_IN_HANDLE = 134217728, MQMO_MATCH_CORREL_ID = 2, MQPMO_SYNCPOINT = 2,
      MQPER_PERSISTENT = 1, MQPER_NOT_PERSISTENT = 0, MQIMPO_INQ_FIRST = 0, MQIMPO_INQ_NEXT = 8,
      MQIMPO_INQ_PROP_UNDER_CURSOR = 16, MQCNO_RECONNECT_AS_DEF = 0,
      MQCNO_RECONNECT_DISABLED = 33554432, MQCNO_RECONNECT = 16777216,
      MQCNO_RECONNECT_Q_MGR = 67108864, MQRCN_DISABLED = 3, MQRCN_YES = 1, MQRCN_Q_MGR = 2\<rparr>"

definition empty_md :: md where
  "empty_md = \<lparr>MsgId = PNone, CorrelId = PNone, ReplyToQ = PNone, ReplyToQMgr = PNone,
     Priority = PNone, Persistence = PNone, Expiry = PNone\<rparr>"

definition answer_unless :: "(world \<Rightarrow> call \<Rightarrow> exn option) \<Rightarrow> 'a \<Rightarrow> world \<Rightarrow> call \<Rightarrow> exn + 'a" where
  "answer_unless faults x w c = (case faults w c of None \<Rightarrow> Inr x | Some e \<Rightarrow> Inl e)"

definition sample_lib :: "(world \<Rightarrow> call \<Rightarrow> exn option) \<Rightarrow> mqlib" where
  "sample_lib faults =
     \<lparr>CMQC = documented_cmqc, platform_system = ''Linux'', platform_machine = ''x86_64'',
      import_ibmmq = Imported, new_md = empty_md,
      new_cd = \<lparr>SSLCipherSpec = PNone, SSLPeerNamePtr = PNone, DefReconnect = None\<rparr>,
      new_pmo_Options = 0,
      ans_unit = answer_unless faults (),
      ans_put = answer_unless faults (PBytes (replicate 24 1)),
      ans_get = answer_unless faults ([1, 2, 3], empty_md\<lparr>MsgId := PBytes (replicate 24 7)\<rparr>),
      ans_property = (\<lambda>w c. case faults w c of None \<Rightarrow> Inl (MQMIError 2471 0) | Some e \<Rightarrow> Inl e),
      ans_dynamic = answer_unless faults (PStr ''FASTSTREAM.REPLY.1''),
      ans_mkdtemp = answer_unless faults ''/tmp/faststream-mq-tls-1'',
      ans_clock = answer_unless faults (Fin 0 0)\<rparr>"

definition no_faults :: "world \<Rightarrow> call \<Rightarrow> exn option" where
  "no_faults w c = None"

definition empty_world :: world where
  "empty_world = \<lparr>AMQ_TLS_ENVIRONMENT_SCOPE = None, history = []\<rparr>"

lemma sample_lib_simps [simp]:
  "CMQC (sample_lib faults) = documented_cmqc"
  "platform_system (sample_lib faults) = ''Linux''"
  "platform_machine (sample_lib faults) = ''x86_64''"
  "import_ibmmq (sample_lib faults) = Imported"
  "ans_unit (sample_lib faults) = answer_unless faults ()"
  "ans_put (sample_lib faults) = answer_unless faults (PBytes (replicate 24 1))"
  by (simp_all add: sample_lib_def)

lemma linux_available: "available (get_mq_runtime_status Imported ''Linux'' ''x86_64'' None None)"
  by code_simp

lemma sample_lib_available [simp]: "load_ibmmq (sample_lib faults) = Inr ()"
  using linux_available by (simp add: load_ibmmq_def Let_def)

lemma sample_lib_mq_available [simp]: "mq_available (sample_lib faults)"
  by (simp add: mq_available_def)

end
