(* ===== verification/MQ_Headers.thy ===== *)
theory MQ_Headers
  imports MQ_Response MQ_Library
begin

text \<open>
  The module-level helpers of \<open>faststream_mq/helpers/client.py\<close>: headers as MQ message
  properties (names and values), conversions of descriptor fields, wait intervals,
  reconnect options and the classification of reason codes.
\<close>

section \<open>Header names as property names\<close>

definition property_name_from_header :: "string \<Rightarrow> string" where
  "property_name_from_header n = ''usr.'' @ py_replace ''-'' ''_dash_'' n"

definition strip_property_prefix :: "string \<Rightarrow> string" where
  "strip_property_prefix n = (if starts_with n ''usr.'' then drop 4 n else n)"

definition header_name_from_property :: "string \<Rightarrow> string" where
  "header_name_from_property n = py_replace ''_dash_'' ''-'' n"

section \<open>Header values and the headers of a command\<close>

fun normalize_property_value :: "fslib \<Rightarrow> pyval \<Rightarrow> exn + pyval" where
  "normalize_property_value F (PByteArray b) = map_sum id PStr (json_dumps F (PByteArray b))"
| "normalize_property_value F (PObj n) = map_sum id PStr (json_dumps F (PObj n))"
| "normalize_property_value F v = Inr v"

definition headers_to_publish :: "mq_publish_command \<Rightarrow> string option \<Rightarrow> headers" where
  "headers_to_publish cmd content_type =
     (let h = headers_of cmd;
          h = (case content_type of
                 None \<Rightarrow> h
               | Some ct \<Rightarrow> if ct = [] then h else dict_setdefault ''content-type'' (PStr ct) h)
      in case message_type cmd of
           None \<Rightarrow> h
         | Some mt \<Rightarrow> if mt = [] then h else dict_setdefault ''message_type'' (PStr mt) h)"

section \<open>Fields of a message descriptor\<close>

definition mq_str :: "pyval \<Rightarrow> exn + string" where
  "mq_str v = (case v of
      PBytes b \<Rightarrow> map_sum id strip (decode_utf8 b)
    | PStr s \<Rightarrow> Inr (strip s)
    | _ \<Rightarrow> Inr [])"

definition to_bytes :: "pyval \<Rightarrow> bytes option" where
  "to_bytes v = (case v of
      PBytes b \<Rightarrow> Some b
    | PByteArray b \<Rightarrow> Some b
    | _ \<Rightarrow> None)"

text \<open>\<open>==\<close> of a dynamically typed value and an integer constant.\<close>

definition py_eq_int :: "pyval \<Rightarrow> int \<Rightarrow> bool" where
  "py_eq_int v n = (case v of
      PInt i \<Rightarrow> i = n
    | PBool b \<Rightarrow> (if b then 1 else 0) = n
    | PFloat (Fin m e) \<Rightarrow> Fin m e \<le> Fin n 0 \<and> Fin n 0 \<le> Fin m e
    | _ \<Rightarrow> False)"

definition decode_persistence :: "mqlib \<Rightarrow> pyval \<Rightarrow> exn + bool option" where
  "decode_persistence L v =
     (if v = PNone then Inr None
      else case load_ibmmq L of
        Inl e \<Rightarrow> Inl e
      | Inr _ \<Rightarrow>
          if py_eq_int v (MQPER_PERSISTENT (CMQC L)) then Inr (Some True)
          else if py_eq_int v (MQPER_NOT_PERSISTENT (CMQC L)) then Inr (Some False)
          else Inr None)"

section \<open>Wait intervals\<close>

text \<open>\<open>max(int(timeout * 1000), 1)\<close>; \<open>int\<close> of an infinity or a NaN raises.\<close>

definition to_wait_interval :: "pyfloat \<Rightarrow> exn + int" where
  "to_wait_interval t = (case times_1000 t of
      Fin m e \<Rightarrow> Inr (max (trunc_int m e) 1)
    | NaN \<Rightarrow> Inl (ValueError ''cannot convert float NaN to integer'')
    | _ \<Rightarrow> Inl OverflowError)"

section \<open>Reconnect options and reason codes\<close>

definition cno_reconnect_option :: "mqlib \<Rightarrow> string \<Rightarrow> exn + int" where
  "cno_reconnect_option L mode =
     (case map_of
        [(''as_def'', MQCNO_RECONNECT_AS_DEF (CMQC L)),
         (''disabled'', MQCNO_RECONNECT_DISABLED (CMQC L)),
         (''reconnect'', MQCNO_RECONNECT (CMQC L)),
         (''qmgr'', MQCNO_RECONNECT_Q_MGR (CMQC L))] mode of
        None \<Rightarrow> Inl (ValueError (''Unknown MQ reconnect mode: '' @ mode))
      | Some o1 \<Rightarrow> Inr o1)"

definition cd_reconnect_default :: "mqlib \<Rightarrow> string \<Rightarrow> exn + int option" where
  "cd_reconnect_default L mode =
     (case map_of
        [(''as_def'', None),
         (''disabled'', Some (MQRCN_DISABLED (CMQC L))),
         (''reconnect'', Some (MQRCN_YES (CMQC L))),
         (''qmgr'', Some (MQRCN_Q_MGR (CMQC L)))] mode of
        None \<Rightarrow> Inl (ValueError (''Unknown MQ reconnect mode: '' @ mode))
      | Some d \<Rightarrow> Inr d)"

definition reconnectable_reasons :: "cmqc \<Rightarrow> int list" where
  "reconnectable_reasons C =
     [MQRC_CONNECTION_BROKEN C, MQRC_HCONN_ERROR C, MQRC_Q_MGR_NOT_AVAILABLE C,
      MQRC_HOST_NOT_AVAILABLE C, MQRC_RECONNECTING C, MQRC_RECONNECTED C,
      MQRC_RECONNECT_FAILED C, MQRC_CALL_INTERRUPTED C, MQRC_RECONNECT_Q_MGR_REQD C,
      MQRC_RECONNECT_TIMED_OUT C]
     @ (case MQRC_SSL_INITIALIZATION_ERROR C of
          None \<Rightarrow> [] | Some ssl \<Rightarrow> if ssl = 0 then [] else [ssl])"

definition is_reconnectable_reason :: "cmqc \<Rightarrow> int \<Rightarrow> bool" where
  "is_reconnectable_reason C r \<longleftrightarrow> r \<in> set (reconnectable_reasons C)"

fun is_retryable_mq_exception :: "mqlib \<Rightarrow> exn \<Rightarrow> bool" where
  "is_retryable_mq_exception L (MQMIError r len) =
     (case load_ibmmq L of
        Inl _ \<Rightarrow> False
      | Inr _ \<Rightarrow> is_reconnectable_reason (CMQC L) r)"
| "is_retryable_mq_exception L e = False"

section \<open>Names: when the round trip is exact\<close>

text \<open>
  A header name is ambiguous if it already contains what the encoding of a dash looks
  like: \<open>_dash\<close> followed by an underscore or a dash.
\<close>

fun ambiguous :: "string \<Rightarrow> bool" where
  "ambiguous [] = False"
| "ambiguous (c # s) =
     (starts_with (c # s) ''_dash_'' \<or> starts_with (c # s) ''_dash-'' \<or> ambiguous s)"

definition encode_dashes :: "string \<Rightarrow> string" where
  "encode_dashes s = concat (map (\<lambda>c. if c = CHR ''-'' then ''_dash_'' else [c]) s)"

lemma encode_dashes_simps [simp]:
  "encode_dashes [] = []"
  "encode_dashes (c # s) = (if c = CHR ''-'' then ''_dash_'' @ encode_dashes s else c # encode_dashes s)"
  by (simp_all add: encode_dashes_def)

lemma property_name_encode: "property_name_from_header n = ''usr.'' @ encode_dashes n"
  by (simp add: property_name_from_header_def py_replace_char encode_dashes_def)

lemma strip_prefix_encode [simp]:
  "strip_property_prefix (property_name_from_header n) = encode_dashes n"
  by (simp add: property_name_encode strip_property_prefix_def)

lemma decode_dash [simp]:
  "header_name_from_property (''_dash_'' @ s) = CHR ''-'' # header_name_from_property s"
  unfolding header_name_from_property_def by (subst py_replace_prefix) simp_all

lemma decode_other:
  "\<not> starts_with (c # s) ''_dash_'' \<Longrightarrow>
     header_name_from_property (c # s) = c # header_name_from_property s"
  unfolding header_name_from_property_def by (subst py_replace_Cons) simp_all

text \<open>
  Where the encoding of a name shows \<open>_dash_\<close> at a character that is not a dash, the
  name itself has \<open>_dash_\<close> or \<open>_dash-\<close> there.
\<close>

lemma starts_with_encode:
  "CHR ''-'' \<notin> set p \<Longrightarrow> CHR ''_'' \<notin> set p \<Longrightarrow>
     starts_with (encode_dashes s) (p @ ''_'') \<longleftrightarrow>
       starts_with s (p @ ''_'') \<or> starts_with s (p @ ''-'')"
proof (induction p arbitrary: s)
  case Nil
  show ?case by (cases s) auto
next
  case (Cons a p)
  then show ?case by (cases s) auto
qed

lemma encode_starts_dash:
  "c \<noteq> CHR ''-'' \<Longrightarrow> starts_with (c # encode_dashes s) ''_dash_'' \<longleftrightarrow>
    starts_with (c # s) ''_dash_'' \<or> starts_with (c # s) ''_dash-''"
  using starts_with_encode [of "''dash''" s] by auto

lemma decode_encode_iff:
  "header_name_from_property (encode_dashes s) = s \<longleftrightarrow> \<not> ambiguous s"
proof (induction s)
  case Nil
  show ?case by (simp add: header_name_from_property_def)
next
  case (Cons c s)
  show ?case
  proof (cases "c = CHR ''-''")
    case True
    then show ?thesis using Cons.IH decode_dash [of "encode_dashes s"] by simp
  next
    case False
    note start = encode_starts_dash [OF False, of s]
    show ?thesis
    proof (cases "starts_with (c # encode_dashes s) ''_dash_''")
      case True
      then obtain t where t: "c # encode_dashes s = ''_dash_'' @ t" by (rule starts_withE)
      have "header_name_from_property (encode_dashes (c # s)) = CHR ''-'' # header_name_from_property t"
        using False decode_dash [of t] by (simp only: encode_dashes_simps if_False t)
      with True False start show ?thesis by auto
    next
      case no: False
      then have "header_name_from_property (encode_dashes (c # s)) = c # header_name_from_property (encode_dashes s)"
        using False decode_other [OF no] by simp
      with no False start Cons.IH show ?thesis by auto
    qed
  qed
qed

definition header_name_of_property :: "string \<Rightarrow> string" where
  "header_name_of_property p = header_name_from_property (strip_property_prefix p)"

interpretation names: codec property_name_from_header
  "\<lambda>p. Some (header_name_of_property p)" "\<lambda>n. \<not> ambiguous n"
  by unfold_locales (simp add: header_name_of_property_def decode_encode_iff)

text \<open>Decoding a property name and encoding it again gives the property name back.\<close>

lemma encode_decode_no_dash:
  "CHR ''-'' \<notin> set t \<Longrightarrow> encode_dashes (header_name_from_property t) = t"
proof (induction t rule: length_induct)
  case (1 t)
  show ?case
  proof (cases "starts_with t ''_dash_''")
    case True
    then obtain u where t: "t = ''_dash_'' @ u" by (rule starts_withE)
    have "length u < length t" and "CHR ''-'' \<notin> set u" using "1.prems" by (simp_all add: t)
    with "1.IH" have "encode_dashes (header_name_from_property u) = u" by blast
    then show ?thesis using decode_dash [of u] by (simp add: t)
  next
    case no: False
    show ?thesis
    proof (cases t)
      case Nil
      then show ?thesis by (simp add: header_name_from_property_def)
    next
      case (Cons c u)
      with no "1" show ?thesis by (auto simp add: decode_other)
    qed
  qed
qed

section \<open>Properties\<close>





end
