(* ===== verification/MQ_Message.thy ===== *)
theory MQ_Message
  imports MQ_Headers
begin

text \<open>
  \<open>faststream_mq/message.py\<close> and the construction of raw messages in
  \<open>faststream_mq/helpers/client.py\<close>.
\<close>

section \<open>MQRawMessage\<close>

record MQRawMessage =
  raw_body :: bytes
  raw_queue :: string
  raw_headers :: headers
  raw_reply_to :: string
  raw_reply_to_qmgr :: string
  raw_content_type :: pyval
  raw_correlation_id :: "string option"
  raw_message_id :: "string option"
  native_message_id :: "bytes option"
  raw_native_correlation_id :: "bytes option"
  raw_priority :: pyval
  raw_persistence :: "bool option"
  raw_expiry :: pyval
  metadata :: md
  connection :: "nat option"  \<comment> \<open>the connection to settle on, by identity\<close>
  settled :: "AckStatus option"
  settled_event :: bool

definition or_else :: "'a option \<Rightarrow> 'a option \<Rightarrow> 'a option" where
  "or_else a b = (case a of None \<Rightarrow> b | Some x \<Rightarrow> Some x)"

definition opt_pybytes :: "bytes option \<Rightarrow> pyval" where
  "opt_pybytes b = (case b of None \<Rightarrow> PNone | Some x \<Rightarrow> PBytes x)"

definition build_raw_message ::
  "mqlib \<Rightarrow> bytes \<Rightarrow> md \<Rightarrow> headers \<Rightarrow> string \<Rightarrow> nat option \<Rightarrow> exn + MQRawMessage" where
  "build_raw_message L b m hs queue_name conn =
     (let header_message_id = try_parse_mq_id (dict_get hs ''message_id'');
          hs = AList.delete ''message_id'' hs;
          header_correlation_id = try_parse_mq_id (dict_get hs ''correlation_id'');
          hs = AList.delete ''correlation_id'' hs;
          nmid = to_bytes (MsgId m);
          ncid = to_bytes (CorrelId m)
      in case mq_str (ReplyToQ m) of
           Inl e \<Rightarrow> Inl e
         | Inr rq \<Rightarrow> (case mq_str (ReplyToQMgr m) of
             Inl e \<Rightarrow> Inl e
           | Inr rqm \<Rightarrow> (case decode_persistence L (Persistence m) of
               Inl e \<Rightarrow> Inl e
             | Inr pers \<Rightarrow> Inr
                \<lparr>raw_body = b, raw_queue = queue_name, raw_headers = hs, raw_reply_to = rq,
                 raw_reply_to_qmgr = rqm, raw_content_type = dict_get hs ''content-type'',
                 raw_correlation_id =
                   or_else (try_parse_mq_id (opt_pybytes ncid)) header_correlation_id,
                 raw_message_id = or_else (try_parse_mq_id (opt_pybytes nmid)) header_message_id,
                 native_message_id = nmid, raw_native_correlation_id = ncid,
                 raw_priority = Priority m, raw_persistence = pers, raw_expiry = Expiry m,
                 metadata = m, connection = conn, settled = None, settled_event = False\<rparr>)))"

end
