(* ===== verification/MQ_Tls.thy ===== *)
theory MQ_Tls
  imports MQ_Library
begin

text \<open>
  TLS material: \<open>faststream_mq/tls.py\<close> (the configuration value, the two ways to make
  one, certificate extraction) and \<open>faststream_mq/helpers/tls.py\<close> (the prepared
  configuration with its temporary key store). The \<open>cryptography\<close> package and the file
  system are inputs.
\<close>

section \<open>MQTLSConfig\<close>

record MQTLSConfig =
  cipher_spec :: string
  keystore :: string
  peer_name :: "string option"
  certificate_label :: "string option"
  keystore_password :: "string option"
  keystore_bytes :: "bytes option"
  environment_scope :: "string option"

record filesystem =
  path_exists :: "string \<Rightarrow> bool"
  read_bytes :: "string \<Rightarrow> exn + bytes"

text \<open>\<open>__post_init__\<close>.\<close>

definition MQTLSConfig_check :: "filesystem \<Rightarrow> MQTLSConfig \<Rightarrow> exn + MQTLSConfig" where
  "MQTLSConfig_check fs t =
     (if cipher_spec t = [] then Inl (SetupError ''`cipher_spec` is required for IBM MQ TLS.'')
      else if keystore t = [] then Inl (SetupError ''`keystore` is required for IBM MQ TLS.'')
      else if keystore_bytes t = None \<and> \<not> path_exists fs (keystore t)
      then Inl (SetupError (''`keystore` path does not exist: '' @ keystore t))
      else Inr t)"

definition mq_tls_from_keystore ::
  "filesystem \<Rightarrow> string \<Rightarrow> string \<Rightarrow> string option \<Rightarrow> string option \<Rightarrow> string option \<Rightarrow> exn + MQTLSConfig"
where
  "mq_tls_from_keystore fs cs ks password label peer =
     MQTLSConfig_check fs
       \<lparr>cipher_spec = cs, keystore = ks, peer_name = peer, certificate_label = label,
        keystore_password = password, keystore_bytes = None,
        environment_scope = Some ''CONNECTION''\<rparr>"

definition validate_tls_configuration ::
  "MQTLSConfig option \<Rightarrow> bool \<Rightarrow> bool \<Rightarrow> exn + unit" where
  "validate_tls_configuration tls use_ssl has_ssl_context =
     (if has_ssl_context then Inl (SetupError
        ''`ssl_context` is not supported by IBM MQ. Use `tls=` with MQ-native TLS settings.'')
      else if use_ssl \<and> tls = None then Inl (SetupError
        ''IBM MQ TLS requires explicit `tls=` configuration. `security.use_ssl` alone is not enough.'')
      else Inr ())"

section \<open>Certificates in a PEM file\<close>

definition begin_certificate :: bytes where
  "begin_certificate = map (\<lambda>c. word_of_nat (of_char c)) ''-----BEGIN CERTIFICATE-----''"

definition end_certificate :: bytes where
  "end_certificate = map (\<lambda>c. word_of_nat (of_char c)) ''-----END CERTIFICATE-----''"

text \<open>The first occurrence of a marker: what precedes it and what follows it.\<close>

fun split_at :: "bytes \<Rightarrow> bytes \<Rightarrow> (bytes \<times> bytes) option" where
  "split_at pat s =
     (if take (length pat) s = pat then Some ([], drop (length pat) s)
      else case s of
        [] \<Rightarrow> None
      | b # s' \<Rightarrow> (case split_at pat s' of
          None \<Rightarrow> None
        | Some (before, after) \<Rightarrow> Some (b # before, after)))"

declare split_at.simps [simp del]

lemma split_at_eq: "split_at pat s = Some (before, after) \<Longrightarrow> s = before @ pat @ after"
proof (induction pat s arbitrary: before rule: split_at.induct)
  case (1 pat s)
  show ?case
  proof (cases "take (length pat) s = pat")
    case True
    with "1.prems" show ?thesis
      by (subst (asm) split_at.simps) (simp, metis append_take_drop_id)
  next
    case False
    with "1.prems" obtain b s' before' where
      "s = b # s'" "split_at pat s' = Some (before', after)" "before = b # before'"
      by (subst (asm) split_at.simps) (auto split: list.splits option.splits)
    with "1.IH" [OF False] show ?thesis by simp
  qed
qed

text \<open>
  \<open>re.findall\<close> with the pattern \<open>BEGIN.*?END\<close>: leftmost, shortest, non-overlapping
  matches, line breaks included.
\<close>

function extract_certificate_blocks :: "bytes \<Rightarrow> bytes list" where
  "extract_certificate_blocks data =
     (case split_at begin_certificate data of
        None \<Rightarrow> []
      | Some (_, rest) \<Rightarrow> (case split_at end_certificate rest of
          None \<Rightarrow> []
        | Some (mid, rest') \<Rightarrow>
            (begin_certificate @ mid @ end_certificate) # extract_certificate_blocks rest'))"
  by pat_completeness auto
termination
  by (relation "measure length") (auto dest!: split_at_eq simp: begin_certificate_def)

declare extract_certificate_blocks.simps [simp del]

text \<open>The \<open>cryptography\<close> package: certificates and keys are opaque values.\<close>

record crypto =
  load_pem_x509_certificate :: "bytes \<Rightarrow> exn + nat"
  load_pem_private_key :: "bytes \<Rightarrow> bytes option \<Rightarrow> exn + nat"
  serialize_pkcs12 ::
    "bytes \<Rightarrow> nat \<Rightarrow> nat \<Rightarrow> (nat \<times> bytes) list \<Rightarrow> bytes \<Rightarrow> exn + bytes"
  exception_text :: "exn \<Rightarrow> string"

text \<open>The loop over the blocks with its set of blocks already seen.\<close>

fun load_blocks :: "crypto \<Rightarrow> bytes list \<Rightarrow> nat list \<Rightarrow> bytes list \<Rightarrow> exn + nat list" where
  "load_blocks X seen certs [] = Inr certs"
| "load_blocks X seen certs (block # blocks) =
     (if block \<in> set seen then load_blocks X seen certs blocks
      else case load_pem_x509_certificate X block of
        Inl e \<Rightarrow> Inl e
      | Inr c \<Rightarrow> load_blocks X (block # seen) (certs @ [c]) blocks)"

definition load_distinct_certificates :: "crypto \<Rightarrow> filesystem \<Rightarrow> string \<Rightarrow> exn + nat list" where
  "load_distinct_certificates X fs path =
     (case read_bytes fs path of
        Inl e \<Rightarrow> Inl e
      | Inr data \<Rightarrow> load_blocks X [] [] (extract_certificate_blocks data))"

definition load_first_certificate :: "crypto \<Rightarrow> bytes \<Rightarrow> string \<Rightarrow> exn + nat" where
  "load_first_certificate X data field_name =
     (case extract_certificate_blocks data of
        [] \<Rightarrow> Inl (SetupError (''No certificate found in `'' @ field_name @ ''` PEM file.''))
      | b # _ \<Rightarrow> load_pem_x509_certificate X b)"

text \<open>\<open>encode("ascii")\<close> refuses characters beyond 127.\<close>

definition encode_ascii :: "string \<Rightarrow> exn + bytes" where
  "encode_ascii s = (if list_all (\<lambda>c. (of_char c :: nat) < 128) s
     then Inr (map (\<lambda>c. word_of_nat (of_char c)) s) else Inl (ValueError ''ascii''))"

text \<open>The label \<open>ca-cert-1\<close>, \<open>ca-cert-2\<close>, ... of the \<open>i\<close>-th authority.\<close>

fun show_nat :: "nat \<Rightarrow> string" where
  "show_nat n = (if n < 10 then [char_of (48 + n)] else show_nat (n div 10) @ [char_of (48 + n mod 10)])"

declare show_nat.simps [simp del]

definition ca_label :: "nat \<Rightarrow> bytes" where
  "ca_label i = map (\<lambda>c. word_of_nat (of_char c)) (''ca-cert-'' @ show_nat i)"

definition bind_sum :: "exn + 'a \<Rightarrow> ('a \<Rightarrow> exn + 'b) \<Rightarrow> exn + 'b" where
  "bind_sum r k = (case r of Inl e \<Rightarrow> Inl e | Inr x \<Rightarrow> k x)"

definition build_pkcs12_body ::
  "crypto \<Rightarrow> filesystem \<Rightarrow> string \<Rightarrow> string \<Rightarrow> string \<Rightarrow> string \<Rightarrow> string \<Rightarrow> string option \<Rightarrow> exn + bytes"
where
  "build_pkcs12_body X fs client_cert client_key ca_cert label password client_key_password =
     bind_sum (read_bytes fs client_cert) (\<lambda>cert_data.
     bind_sum (read_bytes fs client_key) (\<lambda>key_data.
     bind_sum (load_first_certificate X cert_data ''client_cert'') (\<lambda>cert.
     bind_sum (load_pem_private_key X key_data
         (map_option (map (\<lambda>c. word_of_nat (of_char c))) client_key_password)) (\<lambda>key.
     bind_sum (load_distinct_certificates X fs ca_cert) (\<lambda>ca_chain.
     bind_sum (encode_ascii password) (\<lambda>pw.
     bind_sum (encode_ascii label) (\<lambda>lab.
       serialize_pkcs12 X lab key cert
         (map (\<lambda>(i, c). (c, ca_label i)) (enumerate 1 ca_chain)) pw)))))))"

text \<open>
  \<open>_build_pkcs12\<close> turns every exception into a \<open>SetupError\<close>. A missing file is told
  apart by the exception the file system raises for it.
\<close>

definition build_pkcs12 ::
  "crypto \<Rightarrow> filesystem \<Rightarrow> (exn \<Rightarrow> string option) \<Rightarrow>
   string \<Rightarrow> string \<Rightarrow> string \<Rightarrow> string \<Rightarrow> string \<Rightarrow> string option \<Rightarrow> exn + bytes"
where
  "build_pkcs12 X fs missing_file client_cert client_key ca_cert label password client_key_password =
     (case build_pkcs12_body X fs client_cert client_key ca_cert label password client_key_password of
        Inr b \<Rightarrow> Inr b
      | Inl e \<Rightarrow> (case missing_file e of
          Some f \<Rightarrow> Inl (SetupError (''MQ TLS file not found: '' @ f))
        | None \<Rightarrow> if is_exception e
            then Inl (SetupError (''MQ TLS setup failed: '' @ exception_text X e)) else Inl e))"

definition mq_tls_from_pem ::
  "crypto \<Rightarrow> filesystem \<Rightarrow> (exn \<Rightarrow> string option) \<Rightarrow> string \<Rightarrow>
   string \<Rightarrow> string \<Rightarrow> string \<Rightarrow> string \<Rightarrow> string option \<Rightarrow> string option \<Rightarrow> string option \<Rightarrow>
   string option \<Rightarrow> exn + MQTLSConfig"
where
  "mq_tls_from_pem X fs missing_file random_password cs client_cert client_key ca_cert
      password label client_key_password peer =
     (if client_cert = [] then Inl (SetupError ''`client_cert` is required for IBM MQ PEM TLS.'')
      else if client_key = [] then Inl (SetupError ''`client_key` is required for IBM MQ PEM TLS.'')
      else if ca_cert = [] then Inl (SetupError ''`ca_cert` is required for IBM MQ PEM TLS.'')
      else if \<not> path_exists fs client_cert
      then Inl (SetupError (''`client_cert` path does not exist: '' @ client_cert))
      else if \<not> path_exists fs client_key
      then Inl (SetupError (''`client_key` path does not exist: '' @ client_key))
      else if \<not> path_exists fs ca_cert
      then Inl (SetupError (''`ca_cert` path does not exist: '' @ ca_cert))
      else
        let resolved_password = or_default password random_password in
        bind_sum (build_pkcs12 X fs missing_file client_cert client_key ca_cert
            (or_default label ''faststream-mq-client'') resolved_password client_key_password)
          (\<lambda>p12. MQTLSConfig_check fs
             \<lparr>cipher_spec = cs, keystore = ''<generated-pkcs12>'', peer_name = peer,
              certificate_label = label, keystore_password = Some resolved_password,
              keystore_bytes = Some p12, environment_scope = Some ''CONNECTION''\<rparr>))"

section \<open>PreparedMQTLSConfig\<close>

record PreparedMQTLSConfig =
  pr_cipher_spec :: string
  pr_key_repository :: string
  pr_keystore_password :: "string option"
  pr_certificate_label :: "string option"
  pr_peer_name :: "string option"
  pr_environment_scope :: "string option"
  pr_tempdir :: "string option"

definition prepare_tls_config ::
  "mqlib \<Rightarrow> MQTLSConfig option \<Rightarrow> (world, PreparedMQTLSConfig option) prog" where
  "prepare_tls_config L tls = (case tls of
      None \<Rightarrow> ret None
    | Some t \<Rightarrow> (case keystore_bytes t of
        None \<Rightarrow> ret (Some
          \<lparr>pr_cipher_spec = cipher_spec t, pr_key_repository = keystore t,
           pr_keystore_password = keystore_password t,
           pr_certificate_label = certificate_label t, pr_peer_name = peer_name t,
           pr_environment_scope = environment_scope t, pr_tempdir = None\<rparr>)
      | Some ks \<Rightarrow>
          bind (call_lib (ans_mkdtemp L) (MkDTemp ''faststream-mq-tls-'')) (\<lambda>tempdir.
          let p12_file = tempdir @ ''/client.p12'' in
          seq (call_lib (ans_unit L) (WriteFile p12_file ks))
          (ret (Some
            \<lparr>pr_cipher_spec = cipher_spec t, pr_key_repository = p12_file,
             pr_keystore_password = keystore_password t,
             pr_certificate_label = certificate_label t, pr_peer_name = peer_name t,
             pr_environment_scope = environment_scope t, pr_tempdir = Some tempdir\<rparr>)))))"

text \<open>\<open>shutil.rmtree(..., ignore_errors=True)\<close> never raises.\<close>

definition cleanup_prepared_tls :: "PreparedMQTLSConfig option \<Rightarrow> (world, unit) prog" where
  "cleanup_prepared_tls p = (case p of
      None \<Rightarrow> ret ()
    | Some t \<Rightarrow> (case pr_tempdir t of
        None \<Rightarrow> ret ()
      | Some d \<Rightarrow> call_lib (\<lambda>w c. Inr ()) (RmTree d)))"

end
