(* ===== verification/MQ_Connection.thy ===== *)
theory MQ_Connection
  imports MQ_Message MQ_Tls
begin

text \<open>
  \<open>AsyncMQConnection\<close> of \<open>faststream_mq/helpers/client.py\<close>: one connection to a queue
  manager with at most one open consumer queue. A program of this theory runs on the
  connection object and the world; the executor of the source has a single worker, so the
  calls on one connection happen one after the other.
\<close>

section \<open>State\<close>

record MQConnectionConfig =
  queue_manager :: string
  channel :: "string option"
  conn_name :: "string option"
  username :: "string option"
  password :: "string option"
  tls :: "MQTLSConfig option"
  reply_model_queue :: string
  wait_interval :: pyfloat
  ccdt_url :: "string option"
  reconnect_mode :: string
  startup_retry_timeout :: pyfloat
  startup_retry_interval :: pyfloat

record AsyncMQConnection =
  self_id :: nat
  connection_config :: MQConnectionConfig
  executor :: bool
  qmgr :: "nat option"
  consumer_queue :: "nat option"
  consumer_queue_name :: string
  prepared_tls :: "PreparedMQTLSConfig option"

type_synonym cst = "AsyncMQConnection \<times> world"

definition AsyncMQConnection_init :: "nat \<Rightarrow> MQConnectionConfig \<Rightarrow> AsyncMQConnection" where
  "AsyncMQConnection_init i cfg =
     \<lparr>self_id = i, connection_config = cfg, executor = False, qmgr = None,
      consumer_queue = None, consumer_queue_name = [], prepared_tls = None\<rparr>"

definition on_world :: "(world, 'a) prog \<Rightarrow> (cst, 'a) prog" where
  "on_world m = (\<lambda>s. case m (snd s) of (r, w) \<Rightarrow> (r, (fst s, w)))"

definition getc :: "(AsyncMQConnection \<Rightarrow> 'a) \<Rightarrow> (cst, 'a) prog" where
  "getc f = gets (\<lambda>s. f (fst s))"

definition updc :: "(AsyncMQConnection \<Rightarrow> AsyncMQConnection) \<Rightarrow> (cst, unit) prog" where
  "updc f = modify (\<lambda>s. (f (fst s), snd s))"

text \<open>A call without a result and a call that creates an object.\<close>

definition call_unit :: "mqlib \<Rightarrow> call \<Rightarrow> (cst, unit) prog" where
  "call_unit L c = on_world (call_lib (ans_unit L) c)"

definition call_object :: "mqlib \<Rightarrow> call \<Rightarrow> (cst, nat) prog" where
  "call_object L c = on_world (call_new L c)"

definition load :: "mqlib \<Rightarrow> (cst, unit) prog" where
  "load L = lift_sum (load_ibmmq L)"

definition opt_truthy :: "string option \<Rightarrow> bool" where
  "opt_truthy v \<longleftrightarrow> v \<noteq> None \<and> v \<noteq> Some []"

section \<open>Connecting\<close>

definition build_cno :: "mqlib \<Rightarrow> MQConnectionConfig \<Rightarrow> exn + cno" where
  "build_cno L cfg =
     (case cno_reconnect_option L (reconnect_mode cfg) of
        Inl e \<Rightarrow> Inl e
      | Inr opts \<Rightarrow> Inr \<lparr>cno_Options = opts,
          CCDTUrl = (if opt_truthy (ccdt_url cfg) then ccdt_url cfg else None)\<rparr>)"

definition prepare_tls :: "mqlib \<Rightarrow> (cst, PreparedMQTLSConfig option) prog" where
  "prepare_tls L =
     bind (getc prepared_tls) (\<lambda>p.
     seq (when_do (p = None)
        (bind (getc connection_config) (\<lambda>cfg.
         bind (on_world (prepare_tls_config L (tls cfg))) (\<lambda>p'.
         updc (\<lambda>c. c\<lparr>prepared_tls := p'\<rparr>)))))
     (getc prepared_tls))"

definition build_tls_options :: "mqlib \<Rightarrow> (cst, cd \<times> sco option) prog" where
  "build_tls_options L =
     bind (prepare_tls L) (\<lambda>prepared. case prepared of
        None \<Rightarrow> ret (new_cd L, None)
      | Some p \<Rightarrow>
          let d = (new_cd L)\<lparr>SSLCipherSpec := PStr (pr_cipher_spec p)\<rparr>;
              d = (if opt_truthy (pr_peer_name p)
                   then d\<lparr>SSLPeerNamePtr := PStr (the (pr_peer_name p))\<rparr> else d)
          in ret (d, Some
            \<lparr>KeyRepository = pr_key_repository p,
             CertificateLabel = (if opt_truthy (pr_certificate_label p)
                                 then pr_certificate_label p else None),
             KeyRepoPassword = (if opt_truthy (pr_keystore_password p)
                                then pr_keystore_password p else None)\<rparr>))"

text \<open>The scope the prepared TLS configuration asks for, if any.\<close>

definition tls_scope :: "AsyncMQConnection \<Rightarrow> string option" where
  "tls_scope c = (case prepared_tls c of
      None \<Rightarrow> None
    | Some p \<Rightarrow> if opt_truthy (pr_environment_scope p) then pr_environment_scope p else None)"

definition set_environ :: "string option \<Rightarrow> (cst, unit) prog" where
  "set_environ v = on_world (modify (\<lambda>w. w\<lparr>AMQ_TLS_ENVIRONMENT_SCOPE := v\<rparr>))"

definition connect_call ::
  "mqlib \<Rightarrow> MQConnectionConfig \<Rightarrow> nat \<Rightarrow> cno \<Rightarrow> cd \<Rightarrow> sco option \<Rightarrow> (cst, unit) prog" where
  "connect_call L cfg qm o1 d sc =
     (if opt_truthy (ccdt_url cfg) then
        call_unit L (ConnectWithOptions qm (queue_manager cfg) o1 (username cfg) (password cfg)
          (if truthy (SSLCipherSpec d) \<or> truthy (SSLPeerNamePtr d) then Some d else None) sc)
      else
        seq (assert_that (channel cfg \<noteq> None) [])
        (seq (assert_that (conn_name cfg \<noteq> None) [])
        (bind (lift_sum (cd_reconnect_default L (reconnect_mode cfg))) (\<lambda>reconnect_default.
         let d' = (case reconnect_default of None \<Rightarrow> d | Some v \<Rightarrow> d\<lparr>DefReconnect := Some v\<rparr>)
         in call_unit L (ConnectTcpClient qm (queue_manager cfg) d' (the (channel cfg))
              (the (conn_name cfg)) (username cfg) (password cfg) o1 sc)))))"

text \<open>
  The \<open>try\<close> statement of \<open>_connect_sync\<close>. The \<open>except\<close> clause drops the prepared TLS
  configuration before the \<open>finally\<close> clause asks for it.
\<close>

definition connect_body ::
  "mqlib \<Rightarrow> MQConnectionConfig \<Rightarrow> nat \<Rightarrow> cno \<Rightarrow> cd \<Rightarrow> sco option \<Rightarrow> (cst, unit) prog" where
  "connect_body L cfg qm o1 d sc =
     bind (on_world (gets AMQ_TLS_ENVIRONMENT_SCOPE)) (\<lambda>old_tls_scope.
     try_finally
       (try_except
         (seq (bind (getc tls_scope) (\<lambda>scope. when_do (scope \<noteq> None) (set_environ scope)))
         (seq (connect_call L cfg qm o1 d sc)
         (updc (\<lambda>c. c\<lparr>qmgr := Some qm\<rparr>))))
         (\<lambda>e. if is_exception e then
            seq (bind (getc prepared_tls) (\<lambda>p. on_world (cleanup_prepared_tls p)))
            (seq (updc (\<lambda>c. c\<lparr>prepared_tls := None\<rparr>))
            (throw e))
          else throw e))
       (bind (getc tls_scope) (\<lambda>scope. when_do (scope \<noteq> None) (set_environ old_tls_scope))))"

definition connect_sync :: "mqlib \<Rightarrow> (cst, unit) prog" where
  "connect_sync L =
     bind (getc qmgr) (\<lambda>q. if q \<noteq> None then ret () else
     seq (load L)
     (bind (call_object L NewQueueManager) (\<lambda>qm.
      bind (getc connection_config) (\<lambda>cfg.
      bind (lift_sum (build_cno L cfg)) (\<lambda>o1.
      bind (build_tls_options L) (\<lambda>(d, sc).
      connect_body L cfg qm o1 d sc))))))"

definition connect :: "mqlib \<Rightarrow> (cst, unit) prog" where
  "connect L = seq (updc (\<lambda>c. c\<lparr>executor := True\<rparr>)) (connect_sync L)"

section \<open>Closing\<close>

definition safe_close_consumer_sync :: "mqlib \<Rightarrow> (cst, unit) prog" where
  "safe_close_consumer_sync L =
     bind (getc consumer_queue) (\<lambda>q. case q of
        None \<Rightarrow> ret ()
      | Some h \<Rightarrow> try_finally (ignore_exception (call_unit L (CloseQueue h)))
                    (updc (\<lambda>c. c\<lparr>consumer_queue := None\<rparr>)))"

definition safe_disconnect_qmgr_sync :: "mqlib \<Rightarrow> (cst, unit) prog" where
  "safe_disconnect_qmgr_sync L =
     bind (getc qmgr) (\<lambda>q. case q of
        None \<Rightarrow> ret ()
      | Some h \<Rightarrow> try_finally (ignore_exception (call_unit L (Disconnect h)))
                    (updc (\<lambda>c. c\<lparr>qmgr := None\<rparr>)))"

definition disconnect_sync :: "mqlib \<Rightarrow> (cst, unit) prog" where
  "disconnect_sync L =
     seq (safe_close_consumer_sync L)
     (seq (safe_disconnect_qmgr_sync L)
     (seq (bind (getc prepared_tls) (\<lambda>p. on_world (cleanup_prepared_tls p)))
     (updc (\<lambda>c. c\<lparr>prepared_tls := None\<rparr>))))"

definition disconnect :: "mqlib \<Rightarrow> (cst, unit) prog" where
  "disconnect L =
     bind (getc executor) (\<lambda>x. if \<not> x then ret () else
     try_finally (disconnect_sync L) (updc (\<lambda>c. c\<lparr>executor := False\<rparr>)))"

section \<open>The consumer queue\<close>

definition start_consumer_once :: "mqlib \<Rightarrow> string \<Rightarrow> (cst, unit) prog" where
  "start_consumer_once L queue_name =
     seq (load L)
     (seq (safe_close_consumer_sync L)
     (bind (getc qmgr) (\<lambda>q.
      seq (assert_that (q \<noteq> None) [])
      (bind (call_object L (OpenQueue (the q) queue_name (MQOO_INPUT_AS_Q_DEF (CMQC L)))) (\<lambda>h.
       updc (\<lambda>c. c\<lparr>consumer_queue := Some h, consumer_queue_name := queue_name\<rparr>))))))"

definition stop_consumer_sync :: "mqlib \<Rightarrow> (cst, unit) prog" where
  "stop_consumer_sync L =
     bind (getc consumer_queue) (\<lambda>q. case q of
        None \<Rightarrow> ret ()
      | Some h \<Rightarrow>
          seq (call_unit L (CloseQueue h))
          (updc (\<lambda>c. c\<lparr>consumer_queue := None, consumer_queue_name := []\<rparr>)))"

definition stop_consumer :: "mqlib \<Rightarrow> (cst, unit) prog" where
  "stop_consumer L = bind (getc executor) (\<lambda>x. if \<not> x then ret () else stop_consumer_sync L)"

section \<open>Reconnecting\<close>

definition recover_connection_sync :: "mqlib \<Rightarrow> bool \<Rightarrow> (cst, unit) prog" where
  "recover_connection_sync L reopen_consumer =
     bind (getc consumer_queue_name) (\<lambda>n.
     let queue_name = (if reopen_consumer then n else []) in
     seq (safe_close_consumer_sync L)
     (seq (safe_disconnect_qmgr_sync L)
     (seq (connect_sync L)
     (when_do (queue_name \<noteq> []) (start_consumer_once L queue_name)))))"

text \<open>The float nearest to 0.2.\<close>

definition pause :: pyfloat where
  "pause = Fin 3602879701896397 (- 54)"

definition reconnectable :: "mqlib \<Rightarrow> exn \<Rightarrow> bool" where
  "reconnectable L e = (case e of
      MQMIError r len \<Rightarrow> is_reconnectable_reason (CMQC L) r
    | _ \<Rightarrow> False)"

definition run_with_reconnect_sync :: "mqlib \<Rightarrow> (cst, 'a) prog \<Rightarrow> bool \<Rightarrow> (cst, 'a) prog" where
  "run_with_reconnect_sync L func reopen_consumer =
     seq (load L)
     (bind (try_except (bind func (\<lambda>x. ret (Some x)))
              (\<lambda>e. if reconnectable L e then ret None else throw e))
       (\<lambda>r. case r of
          Some x \<Rightarrow> ret x
        | None \<Rightarrow>
            seq (recover_connection_sync L reopen_consumer)
            (seq (call_unit L (Sleep pause))
            func)))"

text \<open>\<open>assert self._executor is not None\<close> in front of the asynchronous operations.\<close>

definition started :: "(cst, 'a) prog \<Rightarrow> (cst, 'a) prog" where
  "started m = bind (getc executor) (\<lambda>x.
     seq (assert_that x ''Connection is not started yet.'') m)"

definition start_consumer_sync :: "mqlib \<Rightarrow> string \<Rightarrow> (cst, unit) prog" where
  "start_consumer_sync L queue_name =
     seq (updc (\<lambda>c. c\<lparr>consumer_queue_name := queue_name\<rparr>))
     (run_with_reconnect_sync L (start_consumer_once L queue_name) True)"

definition start_consumer :: "mqlib \<Rightarrow> string \<Rightarrow> (cst, unit) prog" where
  "start_consumer L queue_name = started (start_consumer_sync L queue_name)"

section \<open>ping, commit, backout\<close>

text \<open>A call on the queue manager the connection holds at the time of the call.\<close>

definition on_qmgr :: "mqlib \<Rightarrow> (nat \<Rightarrow> call) \<Rightarrow> (cst, unit) prog" where
  "on_qmgr L f = bind (getc qmgr) (\<lambda>q.
     seq (assert_that (q \<noteq> None) []) (call_unit L (f (the q))))"

definition ping_once :: "mqlib \<Rightarrow> (cst, bool) prog" where
  "ping_once L = seq (on_qmgr L GetName) (ret True)"

definition ping_sync :: "mqlib \<Rightarrow> (cst, bool) prog" where
  "ping_sync L = bind (getc qmgr) (\<lambda>q. if q = None then ret False
     else run_with_reconnect_sync L (ping_once L) False)"

definition ping :: "mqlib \<Rightarrow> (cst, bool) prog" where
  "ping L = bind (getc executor) (\<lambda>x. if \<not> x then ret False
     else try_except (ping_sync L) (\<lambda>e. if is_exception e then ret False else throw e))"

definition commit_once :: "mqlib \<Rightarrow> (cst, unit) prog" where
  "commit_once L = on_qmgr L Commit"

definition commit_sync :: "mqlib \<Rightarrow> (cst, unit) prog" where
  "commit_sync L = bind (getc consumer_queue_name) (\<lambda>n.
     run_with_reconnect_sync L (commit_once L) (n \<noteq> []))"

definition commit :: "mqlib \<Rightarrow> (cst, unit) prog" where
  "commit L = started (commit_sync L)"

definition backout_once :: "mqlib \<Rightarrow> (cst, unit) prog" where
  "backout_once L = on_qmgr L Backout"

definition backout_sync :: "mqlib \<Rightarrow> (cst, unit) prog" where
  "backout_sync L = bind (getc consumer_queue_name) (\<lambda>n.
     run_with_reconnect_sync L (backout_once L) (n \<noteq> []))"

definition backout :: "mqlib \<Rightarrow> (cst, unit) prog" where
  "backout L = started (backout_sync L)"

section \<open>A concrete configuration for examples\<close>

definition sample_config :: MQConnectionConfig where
  "sample_config =
     \<lparr>queue_manager = ''QM1'', channel = Some ''DEV.APP.SVRCONN'',
      conn_name = Some ''127.0.0.1(1414)'', username = None, password = None, tls = None,
      reply_model_queue = ''DEV.APP.MODEL.QUEUE'', wait_interval = Fin 1 0, ccdt_url = None,
      reconnect_mode = ''disabled'', startup_retry_timeout = Fin 60 0,
      startup_retry_interval = Fin 2 0\<rparr>"

definition sample_connection :: AsyncMQConnection where
  "sample_connection = AsyncMQConnection_init 1 sample_config"

end
