(* ===== verification/MQ_Messaging.thy ===== *)
theory MQ_Messaging
  imports MQ_Connection
begin

text \<open>
  The messaging operations of \<open>AsyncMQConnection\<close>: \<open>get_message\<close>, \<open>publish\<close> and
  \<open>request\<close>. The loop over the message properties is bounded by a fuel argument; the
  theory MQ_Header_Props shows how much is enough.
\<close>

unbundle bit_operations_syntax

section \<open>Reading the headers of a message\<close>

definition get_property :: "mqlib \<Rightarrow> nat \<Rightarrow> int \<Rightarrow> int \<Rightarrow> (cst, pyval \<times> pyval) prog" where
  "get_property L h options max_value_length =
     try_except
       (on_world (call_lib (ans_property L) (GetProperty h options (Some max_value_length))))
       (\<lambda>e. if e = TypeError then on_world (call_lib (ans_property L) (GetProperty h options None))
            else throw e)"

text \<open>One turn of the loop: \<open>None\<close> when the properties are exhausted.\<close>

definition next_property :: "mqlib \<Rightarrow> nat \<Rightarrow> int \<Rightarrow> int \<Rightarrow> (cst, (pyval \<times> pyval) option) prog" where
  "next_property L h options header_max_value_length =
     try_except
       (bind (get_property L h options header_max_value_length) (\<lambda>p. ret (Some p)))
       (\<lambda>e. case e of
          MQMIError r value_length \<Rightarrow>
            if r = MQRC_PROPERTY_NOT_AVAILABLE (CMQC L) then ret None
            else if r = MQRC_PROPERTY_VALUE_TOO_BIG (CMQC L) then
              bind (get_property L h (MQIMPO_INQ_PROP_UNDER_CURSOR (CMQC L)) value_length)
                (\<lambda>(value, property_name).
              bind (lift_sum (mq_str property_name)) (\<lambda>_.   \<comment> \<open>for the log record\<close>
              ret (Some (value, property_name))))
            else throw e
        | _ \<Rightarrow> throw e)"

fun read_headers_loop ::
  "mqlib \<Rightarrow> nat \<Rightarrow> nat \<Rightarrow> int \<Rightarrow> int \<Rightarrow> headers \<Rightarrow> (cst, headers) prog" where
  "read_headers_loop L 0 h max_len options hs = out_of_fuel"
| "read_headers_loop L (Suc fuel) h max_len options hs =
     bind (next_property L h options max_len) (\<lambda>p. case p of
        None \<Rightarrow> ret hs
      | Some (value, property_name) \<Rightarrow>
          bind (lift_sum (mq_str property_name)) (\<lambda>n.
          read_headers_loop L fuel h max_len (MQIMPO_INQ_NEXT (CMQC L))
            (AList.update (header_name_from_property (strip_property_prefix n)) value hs)))"

definition read_headers :: "mqlib \<Rightarrow> nat \<Rightarrow> nat \<Rightarrow> int \<Rightarrow> (cst, headers) prog" where
  "read_headers L fuel h max_len =
     seq (load L) (read_headers_loop L fuel h max_len (MQIMPO_INQ_FIRST (CMQC L)) [])"

section \<open>Getting a message\<close>

definition get_options :: "mqlib \<Rightarrow> int \<Rightarrow> nat \<Rightarrow> gmo" where
  "get_options L wi h =
     \<lparr>gmo_Options = MQGMO_WAIT (CMQC L) OR MQGMO_SYNCPOINT (CMQC L) OR MQGMO_PROPERTIES_IN_HANDLE (CMQC L),
      gmo_MatchOptions = None, gmo_WaitInterval = wi, gmo_MsgHandle = h\<rparr>"

definition get_message_once ::
  "mqlib \<Rightarrow> nat \<Rightarrow> pyfloat \<Rightarrow> int \<Rightarrow> (cst, MQRawMessage option) prog" where
  "get_message_once L fuel t header_max_value_length =
     seq (load L)
     (bind (getc qmgr) (\<lambda>q. seq (assert_that (q \<noteq> None) [])
     (bind (getc consumer_queue) (\<lambda>cq. seq (assert_that (cq \<noteq> None) [])
     (bind (lift_sum (to_wait_interval t)) (\<lambda>wi.
      bind (call_object L (NewMessageHandle (the q))) (\<lambda>h.
      bind (try_except
             (bind (on_world (call_lib (ans_get L) (Get (the cq) (new_md L) (get_options L wi h))))
                (\<lambda>x. ret (Some x)))
             (\<lambda>e. case e of
                MQMIError r len \<Rightarrow>
                  if r = MQRC_NO_MSG_AVAILABLE (CMQC L)
                  then seq (call_unit L (DeleteHandle h)) (ret None)
                  else seq (call_unit L (DeleteHandle h)) (throw e)
              | _ \<Rightarrow> throw e))
        (\<lambda>got. case got of
          None \<Rightarrow> ret None
        | Some (b, m) \<Rightarrow>
            bind (try_finally
                   (try_except (read_headers L fuel h header_max_value_length)
                      (\<lambda>e. if is_exception e
                           then seq (on_qmgr L Backout) (throw e) else throw e))
                   (call_unit L (DeleteHandle h)))
              (\<lambda>hs. bind (getc consumer_queue_name) (\<lambda>qn. bind (getc self_id) (\<lambda>i.
                 bind (lift_sum (build_raw_message L b m hs qn (Some i))) (\<lambda>msg.
                 ret (Some msg)))))))))))))"

definition get_message_sync ::
  "mqlib \<Rightarrow> nat \<Rightarrow> pyfloat \<Rightarrow> int \<Rightarrow> (cst, MQRawMessage option) prog" where
  "get_message_sync L fuel t header_max_value_length =
     run_with_reconnect_sync L (get_message_once L fuel t header_max_value_length) True"

definition get_message ::
  "mqlib \<Rightarrow> nat \<Rightarrow> pyfloat \<Rightarrow> int \<Rightarrow> (cst, MQRawMessage option) prog" where
  "get_message L fuel t header_max_value_length =
     started (get_message_sync L fuel t header_max_value_length)"

section \<open>Publishing\<close>

text \<open>The fields of the descriptor that \<open>publish\<close> and \<open>request\<close> set in the same way.\<close>

definition md_options :: "mqlib \<Rightarrow> mq_publish_command \<Rightarrow> md \<Rightarrow> exn + md" where
  "md_options L cmd m =
     (let m = (case priority cmd of None \<Rightarrow> m | Some p \<Rightarrow> m\<lparr>Priority := PInt p\<rparr>);
          m = (case persistence cmd of None \<Rightarrow> m | Some p \<Rightarrow>
                 m\<lparr>Persistence := PInt (if p then MQPER_PERSISTENT (CMQC L)
                                        else MQPER_NOT_PERSISTENT (CMQC L))\<rparr>);
          m = (case expiry cmd of None \<Rightarrow> m | Some x \<Rightarrow> m\<lparr>Expiry := PInt x\<rparr>)
      in case message_id cmd of
           None \<Rightarrow> Inr m
         | Some i \<Rightarrow> (case mq_id_to_bytes (Some i) ''message_id'' of
             Inl e \<Rightarrow> Inl e
           | Inr b \<Rightarrow> Inr (m\<lparr>MsgId := opt_pybytes b\<rparr>)))"

definition md_correlation :: "mq_publish_command \<Rightarrow> md \<Rightarrow> exn + md" where
  "md_correlation cmd m =
     (case correlation_id cmd of
        None \<Rightarrow> Inr m
      | Some i \<Rightarrow> (case mq_id_to_bytes (Some i) ''correlation_id'' of
          Inl e \<Rightarrow> Inl e
        | Inr b \<Rightarrow> Inr (m\<lparr>CorrelId := opt_pybytes b\<rparr>)))"

definition publish_md :: "mqlib \<Rightarrow> mq_publish_command \<Rightarrow> exn + md" where
  "publish_md L cmd =
     (let m = new_md L;
          m = (if reply_to cmd = [] then m else m\<lparr>ReplyToQ := PStr (reply_to cmd)\<rparr>);
          m = (if reply_to_qmgr cmd = [] then m else m\<lparr>ReplyToQMgr := PStr (reply_to_qmgr cmd)\<rparr>)
      in case md_options L cmd m of
           Inl e \<Rightarrow> Inl e
         | Inr m \<Rightarrow> (case native_correlation_id cmd of
             Some b \<Rightarrow> Inr (m\<lparr>CorrelId := PBytes b\<rparr>)
           | None \<Rightarrow> md_correlation cmd m))"

definition set_properties :: "mqlib \<Rightarrow> fslib \<Rightarrow> nat \<Rightarrow> headers \<Rightarrow> (cst, unit) prog" where
  "set_properties L F h hs = for_each hs (\<lambda>(key, value).
     bind (lift_sum (normalize_property_value F value)) (\<lambda>v.
     call_unit L (SetProperty h (property_name_from_header key) v)))"

record publish_frame =
  msg_handle :: "nat option"

definition publish_once :: "mqlib \<Rightarrow> fslib \<Rightarrow> mq_publish_command \<Rightarrow> nat option \<Rightarrow> (cst, unit) prog" where
  "publish_once L F cmd serializer =
     seq (load L)
     (bind (getc qmgr) (\<lambda>q. seq (assert_that (q \<noteq> None) [])
     (bind (lift_sum (encode_message F (body cmd) serializer)) (\<lambda>(b, content_type).
      let hs = headers_to_publish cmd content_type in
      bind (call_object L (OpenQueue (the q) (destination cmd) (MQOO_OUTPUT (CMQC L)))) (\<lambda>queue.
      with_frame \<lparr>msg_handle = None\<rparr>
       (try_finally
         (bind (lift_sum (publish_md L cmd)) (\<lambda>m.
          let opts = (if syncpoint cmd then new_pmo_Options L OR MQPMO_SYNCPOINT (CMQC L)
                      else new_pmo_Options L) in
          seq (when_do (hs \<noteq> [])
                 (bind (outside (call_object L (NewMessageHandle (the q)))) (\<lambda>h.
                  seq (local (\<lambda>f. f\<lparr>msg_handle := Some h\<rparr>))
                  (outside (set_properties L F h hs)))))
          (bind (get_local msg_handle) (\<lambda>mh.
           outside (seq (on_world (call_lib (ans_put L)
             (Put queue b m \<lparr>pmo_Options = opts, pmo_OriginalMsgHandle = mh\<rparr>))) (ret ()))))))
         (seq (outside (call_unit L (CloseQueue queue)))
         (bind (get_local msg_handle) (\<lambda>mh. case mh of
            None \<Rightarrow> ret ()
          | Some h \<Rightarrow> outside (call_unit L (DeleteHandle h)))))))))))"

definition publish_sync :: "mqlib \<Rightarrow> fslib \<Rightarrow> mq_publish_command \<Rightarrow> nat option \<Rightarrow> (cst, unit) prog" where
  "publish_sync L F cmd serializer = bind (getc consumer_queue_name) (\<lambda>n.
     run_with_reconnect_sync L (publish_once L F cmd serializer) (n \<noteq> []))"

definition publish :: "mqlib \<Rightarrow> fslib \<Rightarrow> mq_publish_command \<Rightarrow> nat option \<Rightarrow> (cst, unit) prog" where
  "publish L F cmd serializer = started (publish_sync L F cmd serializer)"

section \<open>Request and reply\<close>

definition request_md :: "mqlib \<Rightarrow> MQConnectionConfig \<Rightarrow> mq_publish_command \<Rightarrow> string \<Rightarrow> exn + md" where
  "request_md L cfg cmd reply_queue_name =
     (let m = (new_md L)\<lparr>ReplyToQ := PStr reply_queue_name,
                         ReplyToQMgr := PStr (queue_manager cfg)\<rparr>
      in case md_options L cmd m of
           Inl e \<Rightarrow> Inl e
         | Inr m \<Rightarrow> md_correlation cmd m)"

record request_frame =
  reply_queue :: "nat option"
  out_queue :: "nat option"
  put_handle :: "nat option"
  request_published :: bool

text \<open>\<open>bytes(md.MsgId)\<close>; an identifier that is no byte string raises.\<close>

definition py_bytes :: "pyval \<Rightarrow> exn + bytes" where
  "py_bytes v = (case v of
      PBytes b \<Rightarrow> Inr b
    | PByteArray b \<Rightarrow> Inr b
    | _ \<Rightarrow> Inl TypeError)"

text \<open>The body of the \<open>try\<close> statement in one attempt of \<open>_publish_request_sync\<close>.\<close>

definition request_attempt_body ::
  "mqlib \<Rightarrow> mq_publish_command \<Rightarrow> fslib \<Rightarrow> bytes \<Rightarrow> headers \<Rightarrow>
   (cst \<times> request_frame, nat \<times> string \<times> bytes) prog" where
  "request_attempt_body L cmd F b hs =
     bind (outside (getc qmgr)) (\<lambda>q. seq (assert_that (q \<noteq> None) [])
     (bind (outside (getc connection_config)) (\<lambda>cfg.
      bind (outside (bind (on_world (gets (\<lambda>w. length (history w)))) (\<lambda>i.
            bind (on_world (call_lib (ans_dynamic L) (OpenDynamicQueue (the q)
                    (reply_model_queue cfg) ''FASTSTREAM.REPLY.*'' (MQOO_INPUT_EXCLUSIVE (CMQC L)))))
              (\<lambda>nm. ret (i, nm))))) (\<lambda>(rq, nm).
      seq (local (\<lambda>f. f\<lparr>reply_queue := Some rq\<rparr>))
      (bind (lift_sum (mq_str nm)) (\<lambda>reply_queue_name.
      bind (outside (call_object L (OpenQueue (the q) (destination cmd) (MQOO_OUTPUT (CMQC L)))))
        (\<lambda>queue.
      seq (local (\<lambda>f. f\<lparr>out_queue := Some queue\<rparr>))
      (bind (lift_sum (request_md L cfg cmd reply_queue_name)) (\<lambda>m.
      seq (when_do (hs \<noteq> [])
             (bind (outside (call_object L (NewMessageHandle (the q)))) (\<lambda>h.
              seq (local (\<lambda>f. f\<lparr>put_handle := Some h\<rparr>))
              (outside (set_properties L F h hs)))))
      (bind (get_local put_handle) (\<lambda>ph.
      bind (outside (on_world (call_lib (ans_put L)
              (Put queue b m \<lparr>pmo_Options = new_pmo_Options L, pmo_OriginalMsgHandle = ph\<rparr>))))
        (\<lambda>mid.
      seq (assert_that (mid \<noteq> PNone) [])
      (bind (lift_sum (py_bytes mid)) (\<lambda>request_message_id.
      seq (local (\<lambda>f. f\<lparr>request_published := True\<rparr>))
      (ret (rq, reply_queue_name, request_message_id))))))))))))))))"

definition request_attempt_finally :: "mqlib \<Rightarrow> (cst \<times> request_frame, unit) prog" where
  "request_attempt_finally L =
     seq (bind (get_local out_queue) (\<lambda>q. case q of
            None \<Rightarrow> ret ()
          | Some h \<Rightarrow> outside (ignore_exception (call_unit L (CloseQueue h)))))
     (seq (bind (get_local put_handle) (\<lambda>ph. case ph of
            None \<Rightarrow> ret ()
          | Some h \<Rightarrow> outside (call_unit L (DeleteHandle h))))
     (bind (get_local reply_queue) (\<lambda>rq. bind (get_local request_published) (\<lambda>p. case rq of
            None \<Rightarrow> ret ()
          | Some h \<Rightarrow> when_do (\<not> p) (outside (ignore_exception (call_unit L (CloseQueue h))))))))"

text \<open>
  One turn of \<open>for attempt in range(2)\<close>: \<open>Some\<close> is the \<open>return\<close>, \<open>None\<close> goes on to the
  next attempt. The connection is recovered inside the \<open>except\<close> clause, before the
  \<open>finally\<close> clause closes the handles of the failed attempt.
\<close>

definition request_attempt ::
  "mqlib \<Rightarrow> mq_publish_command \<Rightarrow> fslib \<Rightarrow> bytes \<Rightarrow> headers \<Rightarrow> bool \<Rightarrow>
   (cst, (nat \<times> string \<times> bytes) option) prog" where
  "request_attempt L cmd F b hs last_attempt =
     with_frame \<lparr>reply_queue = None, out_queue = None, put_handle = None, request_published = False\<rparr>
      (try_finally
        (try_except
          (bind (request_attempt_body L cmd F b hs) (\<lambda>r. ret (Some r)))
          (\<lambda>e. if \<not> reconnectable L e \<or> last_attempt then throw e
               else seq (outside (recover_connection_sync L False))
                    (seq (outside (call_unit L (Sleep pause)))
                    (ret None))))
        (request_attempt_finally L))"

definition publish_request_sync ::
  "mqlib \<Rightarrow> fslib \<Rightarrow> mq_publish_command \<Rightarrow> nat option \<Rightarrow> (cst, nat \<times> string \<times> bytes) prog" where
  "publish_request_sync L F cmd serializer =
     seq (load L)
     (bind (lift_sum (encode_message F (body cmd) serializer)) (\<lambda>(b, content_type).
      let hs = headers_to_publish cmd content_type in
      bind (request_attempt L cmd F b hs False) (\<lambda>r. case r of
        Some x \<Rightarrow> ret x
      | None \<Rightarrow> bind (request_attempt L cmd F b hs True) (\<lambda>r. case r of
          Some x \<Rightarrow> ret x
        | None \<Rightarrow> throw (RuntimeError ''IBM MQ request publish retry exhausted.'')))))"

definition reply_options :: "mqlib \<Rightarrow> int \<Rightarrow> nat \<Rightarrow> gmo" where
  "reply_options L wi h =
     \<lparr>gmo_Options = MQGMO_WAIT (CMQC L) OR MQGMO_NO_SYNCPOINT (CMQC L) OR MQGMO_PROPERTIES_IN_HANDLE (CMQC L),
      gmo_MatchOptions = Some (MQMO_MATCH_CORREL_ID (CMQC L)), gmo_WaitInterval = wi,
      gmo_MsgHandle = h\<rparr>"

text \<open>\<open>mq.MessageHandle(None)\<close> would be the library's to answer; the object name is 0 then.\<close>

definition wait_for_reply_sync ::
  "mqlib \<Rightarrow> nat \<Rightarrow> nat \<Rightarrow> string \<Rightarrow> bytes \<Rightarrow> pyfloat \<Rightarrow> (cst, MQRawMessage) prog" where
  "wait_for_reply_sync L fuel rq reply_queue_name request_message_id t =
     seq (load L)
     (bind (lift_sum (to_wait_interval t)) (\<lambda>wi.
      bind (getc qmgr) (\<lambda>q.
      bind (call_object L (NewMessageHandle (case q of None \<Rightarrow> 0 | Some x \<Rightarrow> x))) (\<lambda>h.
      bind (try_except
             (on_world (call_lib (ans_get L)
                (Get rq ((new_md L)\<lparr>CorrelId := PBytes request_message_id\<rparr>) (reply_options L wi h))))
             (\<lambda>e. case e of
                MQMIError r len \<Rightarrow>
                  if r = MQRC_NO_MSG_AVAILABLE (CMQC L)
                  then seq (call_unit L (DeleteHandle h)) (throw TimeoutError)
                  else seq (call_unit L (DeleteHandle h)) (throw e)
              | _ \<Rightarrow> throw e))
        (\<lambda>(b, m).
      bind (try_finally (read_headers L fuel h 64) (call_unit L (DeleteHandle h))) (\<lambda>hs.
      lift_sum (build_raw_message L b m hs reply_queue_name None)))))))"

record reply_frame =
  open_reply_queue :: "nat option"
  recover_after_error :: bool

definition request_sync ::
  "mqlib \<Rightarrow> fslib \<Rightarrow> nat \<Rightarrow> mq_publish_command \<Rightarrow> nat option \<Rightarrow> (cst, MQRawMessage) prog" where
  "request_sync L F fuel cmd serializer =
     seq (load L)
     (with_frame \<lparr>open_reply_queue = None, recover_after_error = False\<rparr>
       (try_finally
         (try_except
           (bind (outside (publish_request_sync L F cmd serializer)) (\<lambda>(rq, rqn, mid).
            seq (local (\<lambda>f. f\<lparr>open_reply_queue := Some rq\<rparr>))
            (outside (wait_for_reply_sync L fuel rq rqn mid (timeout cmd)))))
           (\<lambda>e. seq (when_do (reconnectable L e) (local (\<lambda>f. f\<lparr>recover_after_error := True\<rparr>)))
                (throw e)))
         (seq (bind (get_local open_reply_queue) (\<lambda>rq. case rq of
                 None \<Rightarrow> ret ()
               | Some h \<Rightarrow> outside (ignore_exception (call_unit L (CloseQueue h)))))
         (bind (get_local recover_after_error) (\<lambda>r.
          when_do r (outside (recover_connection_sync L False)))))))"

definition request ::
  "mqlib \<Rightarrow> fslib \<Rightarrow> nat \<Rightarrow> mq_publish_command \<Rightarrow> nat option \<Rightarrow> (cst, MQRawMessage) prog" where
  "request L F fuel cmd serializer = started (request_sync L F fuel cmd serializer)"

end
