(* ===== verification/MQ_Process.thy ===== *)
theory MQ_Process
  imports MQ_Messaging
begin

text \<open>
  The objects the higher layers share: connections and raw messages live in a store and
  are named by their address, so that a message settled through one reference is seen as
  settled through every other. A program of these layers runs on the store and on the
  object it is a method of.
\<close>

record mqstate =
  connections :: "nat \<Rightarrow> AsyncMQConnection"
  next_connection :: nat
  raw_messages :: "nat \<Rightarrow> MQRawMessage"
  next_message :: nat
  the_world :: world

text \<open>A method of the connection at an address.\<close>

definition on_connection :: "nat \<Rightarrow> (cst, 'a) prog \<Rightarrow> (mqstate, 'a) prog" where
  "on_connection i m = (\<lambda>S. case m (connections S i, the_world S) of
     (r, c, w) \<Rightarrow> (r, S\<lparr>connections := (connections S)(i := c), the_world := w\<rparr>))"

definition call_on_world :: "(world, 'a) prog \<Rightarrow> (mqstate, 'a) prog" where
  "call_on_world m = (\<lambda>S. case m (the_world S) of (r, w) \<Rightarrow> (r, S\<lparr>the_world := w\<rparr>))"

definition new_connection :: "MQConnectionConfig \<Rightarrow> (mqstate, nat) prog" where
  "new_connection cfg = (\<lambda>S. (Returns (next_connection S),
     S\<lparr>connections := (connections S)(next_connection S := AsyncMQConnection_init (next_connection S) cfg),
       next_connection := next_connection S + 1\<rparr>))"

definition new_message :: "MQRawMessage \<Rightarrow> (mqstate, nat) prog" where
  "new_message m = (\<lambda>S. (Returns (next_message S),
     S\<lparr>raw_messages := (raw_messages S)(next_message S := m), next_message := next_message S + 1\<rparr>))"

definition get_raw :: "nat \<Rightarrow> (MQRawMessage \<Rightarrow> 'a) \<Rightarrow> (mqstate, 'a) prog" where
  "get_raw a f = gets (\<lambda>S. f (raw_messages S a))"

definition set_raw :: "nat \<Rightarrow> (MQRawMessage \<Rightarrow> MQRawMessage) \<Rightarrow> (mqstate, unit) prog" where
  "set_raw a f = modify (\<lambda>S. S\<lparr>raw_messages := (raw_messages S)(a := f (raw_messages S a))\<rparr>)"

lemma on_connection_apply [prog_simps]:
  "on_connection i m S = (fst (m (connections S i, the_world S)),
     S\<lparr>connections := (connections S)(i := fst (snd (m (connections S i, the_world S)))),
       the_world := snd (snd (m (connections S i, the_world S)))\<rparr>)"
  by (simp add: on_connection_def split: prod.split)

lemma call_on_world_apply [prog_simps]:
  "call_on_world m S = (fst (m (the_world S)), S\<lparr>the_world := snd (m (the_world S))\<rparr>)"
  by (simp add: call_on_world_def split: prod.split)

lemma new_connection_apply [prog_simps]:
  "new_connection cfg S = (Returns (next_connection S),
     S\<lparr>connections := (connections S)(next_connection S := AsyncMQConnection_init (next_connection S) cfg),
       next_connection := next_connection S + 1\<rparr>)"
  by (simp add: new_connection_def)

lemma new_message_apply [prog_simps]:
  "new_message m S = (Returns (next_message S),
     S\<lparr>raw_messages := (raw_messages S)(next_message S := m), next_message := next_message S + 1\<rparr>)"
  by (simp add: new_message_def)

lemma get_raw_apply [prog_simps]: "get_raw a f S = (Returns (f (raw_messages S a)), S)"
  by (simp add: get_raw_def gets_apply)

lemma set_raw_apply [prog_simps]:
  "set_raw a f S = (Returns (), S\<lparr>raw_messages := (raw_messages S)(a := f (raw_messages S a))\<rparr>)"
  by (simp add: set_raw_def modify_apply)

lemma on_connection_run [run_simps]:
  "on_connection i m S = (Returns x, S') \<longleftrightarrow>
     (\<exists>t. m (connections S i, the_world S) = (Returns x, t)
        \<and> S' = S\<lparr>connections := (connections S)(i := fst t), the_world := snd t\<rparr>)"
  by (cases "m (connections S i, the_world S)") (auto simp: on_connection_apply)

end
