(* ===== verification/MQ_Settlement.thy ===== *)
theory MQ_Settlement
  imports MQ_Process
begin

text \<open>
  Settling messages: \<open>MQMessage.ack\<close>, \<open>nack\<close> and \<open>reject\<close> of \<open>faststream_mq/message.py\<close>, and
  what the subscriber does with a message its handler left unresolved. Both are clients
  of the protocol \<open>MQAcknowledger\<close>; the connection is its provider.
\<close>

section \<open>MQMessage\<close>

text \<open>The part of a \<open>StreamMessage\<close> the adapter reads and writes.\<close>

record MQMessage =
  raw_message :: nat    \<comment> \<open>address of the raw message\<close>
  m_body :: bytes
  m_headers :: headers
  m_reply_to :: string
  m_content_type :: pyval
  m_correlation_id :: "string option"
  m_message_id :: "string option"
  committed :: "AckStatus option"

text \<open>
  \<open>MQParser.parse_message\<close>. The constructor overwrites the identifiers FastStream would
  otherwise generate by those of the raw message, absent ones included.
\<close>

definition parse_message :: "nat \<Rightarrow> MQRawMessage \<Rightarrow> MQMessage" where
  "parse_message a m =
     \<lparr>raw_message = a, m_body = raw_body m, m_headers = raw_headers m, m_reply_to = raw_reply_to m,
      m_content_type = raw_content_type m, m_correlation_id = raw_correlation_id m,
      m_message_id = raw_message_id m, committed = None\<rparr>"

text \<open>
  The cancellations delivered while a broker operation is awaited. The first one is
  swallowed and the operation awaited again; a second one cancels the operation, which
  still takes effect when the executor had started it.
\<close>

datatype interrupt = Uninterrupted | CancelledOnce | CancelledTwice bool

definition wait_for_broker_settle :: "interrupt \<Rightarrow> ('s, unit) prog \<Rightarrow> ('s, unit) prog" where
  "wait_for_broker_settle i operation = (case i of
      Uninterrupted \<Rightarrow> operation
    | CancelledOnce \<Rightarrow> operation
    | CancelledTwice begun \<Rightarrow>
        (\<lambda>s. (Raises CancelledError, if begun then snd (operation s) else s)))"

text \<open>
  The operations of the acknowledger at an address, as the message sees them: programs on
  the shared store.
\<close>

record acknowledger =
  ack_commit :: "nat \<Rightarrow> (mqstate, unit) prog"
  ack_backout :: "nat \<Rightarrow> (mqstate, unit) prog"

definition needs_settle :: "(mqstate \<times> MQMessage, nat option) prog" where
  "needs_settle =
     bind (get_local raw_message) (\<lambda>a.
     bind (outside (get_raw a connection)) (\<lambda>c.
     bind (get_local committed) (\<lambda>st. ret (if st = None then c else None))))"

definition settle_with ::
  "interrupt \<Rightarrow> (nat \<Rightarrow> (mqstate, unit) prog) \<Rightarrow> (AckStatus option \<Rightarrow> AckStatus option) \<Rightarrow>
   (mqstate \<times> MQMessage, unit) prog" where
  "settle_with i operation base =
     try_finally
       (seq (bind needs_settle (\<lambda>c. case c of
               None \<Rightarrow> ret ()
             | Some conn \<Rightarrow> outside (wait_for_broker_settle i (operation conn))))
       (seq (local (\<lambda>m. m\<lparr>committed := base (committed m)\<rparr>))
       (bind (get_local raw_message) (\<lambda>a. bind (get_local committed) (\<lambda>st.
        outside (set_raw a (\<lambda>r. r\<lparr>settled := st\<rparr>)))))))
       (bind (get_local raw_message) (\<lambda>a. outside (set_raw a (\<lambda>r. r\<lparr>settled_event := True\<rparr>))))"

definition ack :: "fslib \<Rightarrow> acknowledger \<Rightarrow> interrupt \<Rightarrow> (mqstate \<times> MQMessage, unit) prog" where
  "ack F A i = settle_with i (ack_commit A) (base_ack F)"

definition nack :: "fslib \<Rightarrow> acknowledger \<Rightarrow> interrupt \<Rightarrow> (mqstate \<times> MQMessage, unit) prog" where
  "nack F A i = settle_with i (ack_backout A) (base_nack F)"

definition reject :: "fslib \<Rightarrow> acknowledger \<Rightarrow> interrupt \<Rightarrow> (mqstate \<times> MQMessage, unit) prog" where
  "reject F A i = ack F A i"

text \<open>The connection as an acknowledger.\<close>

definition connection_acknowledger :: "mqlib \<Rightarrow> acknowledger" where
  "connection_acknowledger L =
     \<lparr>ack_commit = (\<lambda>c. on_connection c (commit L)), ack_backout = (\<lambda>c. on_connection c (backout L))\<rparr>"

section \<open>Unresolved messages\<close>

datatype AckPolicy = ACK | ACK_FIRST | NACK_ON_ERROR | REJECT_ON_ERROR | MANUAL

definition should_commit :: "AckPolicy \<Rightarrow> exn \<Rightarrow> bool" where
  "should_commit policy e =
     (if e = AckMessage \<or> e = RejectMessage then True
      else if e = NackMessage then False
      else policy \<in> {ACK, ACK_FIRST, REJECT_ON_ERROR})"

text \<open>\<open>asyncio.shield\<close>: a cancellation is raised here, the operation runs on.\<close>

definition shield :: "bool \<Rightarrow> ('s, unit) prog \<Rightarrow> ('s, unit) prog" where
  "shield cancelled operation =
     (if cancelled then (\<lambda>s. (Raises CancelledError, snd (operation s))) else operation)"

definition settle_unresolved_message ::
  "acknowledger \<Rightarrow> AckPolicy \<Rightarrow> bool \<Rightarrow> nat \<Rightarrow> exn \<Rightarrow> (mqstate, unit) prog" where
  "settle_unresolved_message A policy cancelled a e =
     bind (get_raw a connection) (\<lambda>c. bind (get_raw a settled) (\<lambda>st.
     case c of
       None \<Rightarrow> ret ()
     | Some conn \<Rightarrow> if st \<noteq> None then ret () else
         try_except
           (seq (if should_commit policy e
                 then seq (shield cancelled (ack_commit A conn))
                          (set_raw a (\<lambda>r. r\<lparr>settled := Some ACKED\<rparr>))
                 else seq (shield cancelled (ack_backout A conn))
                          (set_raw a (\<lambda>r. r\<lparr>settled := Some NACKED\<rparr>)))
           (set_raw a (\<lambda>r. r\<lparr>settled_event := True\<rparr>)))
           (\<lambda>err. if err = CancelledError \<or> is_exception err
                  then set_raw a (\<lambda>r. r\<lparr>settled_event := True\<rparr>)
                  else throw err)))"

end
