(* ===== verification/MQ_Publisher.thy ===== *)
theory MQ_Publisher
  imports MQ_Response
begin

text \<open>
  \<open>faststream_mq/publisher\<close> without the producer: the publisher object with its
  defaults (\<open>usecase.py\<close>, \<open>config.py\<close>, \<open>factory.py\<close>) and the publisher of automatic
  replies (\<open>fake.py\<close>). Each entry point is modelled up to the command it hands to
  FastStream's \<open>_basic_publish\<close> and, through it, to the producer.
\<close>

section \<open>Publisher objects\<close>

record MQPublisher =
  p_queue :: MQQueue
  p_headers :: headers
  p_reply_to :: string
  p_reply_to_qmgr :: string
  p_priority :: "int option"
  p_persistence :: "bool option"
  p_expiry :: "int option"
  p_message_type :: "string option"

definition headers_or_empty :: "headers option \<Rightarrow> headers" where
  "headers_or_empty h = (case h of None \<Rightarrow> [] | Some d \<Rightarrow> d)"

definition create_publisher :: "MQQueue \<Rightarrow> cmd_kwargs \<Rightarrow> MQPublisher" where
  "create_publisher q kw =
     \<lparr>p_queue = q, p_headers = headers_or_empty (kw_headers kw), p_reply_to = kw_reply_to kw,
      p_reply_to_qmgr = kw_reply_to_qmgr kw, p_priority = kw_priority kw,
      p_persistence = kw_persistence kw, p_expiry = kw_expiry kw,
      p_message_type = kw_message_type kw\<rparr>"

text \<open>The prefix is the one of the outer (router or broker) configuration.\<close>

definition publisher_routing :: "string \<Rightarrow> MQPublisher \<Rightarrow> queue_arg option \<Rightarrow> string" where
  "publisher_routing prefix p q = (case q of
      None \<Rightarrow> prefix @ routing (p_queue p)
    | Some a \<Rightarrow> prefix @ routing (validate a))"

section \<open>Falling back to a default\<close>

definition or_str :: "string \<Rightarrow> string \<Rightarrow> string" where
  "or_str a b = (if a = [] then b else a)"

definition or_opt_str :: "string option \<Rightarrow> string option \<Rightarrow> string option" where
  "or_opt_str a b = (if a = None \<or> a = Some [] then b else a)"

definition if_given :: "'a option \<Rightarrow> 'a option \<Rightarrow> 'a option" where
  "if_given a b = (case a of None \<Rightarrow> b | Some x \<Rightarrow> Some x)"

section \<open>publish, _publish and request\<close>

definition publisher_publish ::
  "fslib \<Rightarrow> string \<Rightarrow> MQPublisher \<Rightarrow> pyval \<Rightarrow> queue_arg option \<Rightarrow> cmd_kwargs \<Rightarrow> exn + mq_publish_command"
where
  "publisher_publish F prefix p message q kw =
     MQPublishCommand F message (publisher_routing prefix p q) PUBLISH
       (no_kwargs
         \<lparr>kw_headers := Some (dict_union (p_headers p) (headers_or_empty (kw_headers kw))),
          kw_correlation_id := kw_correlation_id kw,
          kw_message_id := kw_message_id kw,
          kw_reply_to := or_str (kw_reply_to kw) (p_reply_to p),
          kw_reply_to_qmgr := or_str (kw_reply_to_qmgr kw) (p_reply_to_qmgr p),
          kw_priority := if_given (kw_priority kw) (p_priority p),
          kw_persistence := if_given (kw_persistence kw) (p_persistence p),
          kw_expiry := if_given (kw_expiry kw) (p_expiry p),
          kw_message_type := or_opt_str (kw_message_type kw) (p_message_type p)\<rparr>)"

definition publisher__publish ::
  "fslib \<Rightarrow> string \<Rightarrow> MQPublisher \<Rightarrow> any_command \<Rightarrow> exn + mq_publish_command" where
  "publisher__publish F prefix p cmd =
     (case from_cmd F cmd of
        Inl e \<Rightarrow> Inl e
      | Inr real_cmd \<Rightarrow> Inr (real_cmd
          \<lparr>destination := publisher_routing prefix p None,
           reply_to := or_str (reply_to real_cmd) (p_reply_to p),
           reply_to_qmgr := or_str (reply_to_qmgr real_cmd) (p_reply_to_qmgr p),
           priority := if_given (priority real_cmd) (p_priority p),
           persistence := if_given (persistence real_cmd) (p_persistence p),
           expiry := if_given (expiry real_cmd) (p_expiry p),
           message_type := or_opt_str (message_type real_cmd) (p_message_type p),
           headers_of := base_add_headers F (headers_of real_cmd) (p_headers p) False\<rparr>))"

definition publisher_request ::
  "fslib \<Rightarrow> string \<Rightarrow> MQPublisher \<Rightarrow> pyval \<Rightarrow> queue_arg option \<Rightarrow> cmd_kwargs \<Rightarrow> exn + mq_publish_command"
where
  "publisher_request F prefix p message q kw =
     MQPublishCommand F message (publisher_routing prefix p q) PUBLISH
       (no_kwargs
         \<lparr>kw_headers := Some (dict_union (p_headers p) (headers_or_empty (kw_headers kw))),
          kw_correlation_id := kw_correlation_id kw,
          kw_message_id := kw_message_id kw,
          kw_priority := if_given (kw_priority kw) (p_priority p),
          kw_persistence := if_given (kw_persistence kw) (p_persistence p),
          kw_expiry := if_given (kw_expiry kw) (p_expiry p),
          kw_message_type := or_opt_str (kw_message_type kw) (p_message_type p),
          kw_timeout := kw_timeout kw\<rparr>)"

section \<open>MQFakePublisher: automatic replies\<close>

record MQFakePublisher =
  f_queue :: string
  f_reply_to_qmgr :: string
  f_native_correlation_id :: "bytes option"

definition patch_command ::
  "fslib \<Rightarrow> MQFakePublisher \<Rightarrow> any_command \<Rightarrow> exn + mq_publish_command" where
  "patch_command F fp cmd =
     (case from_cmd F (base_patch_command F cmd) of
        Inl e \<Rightarrow> Inl e
      | Inr real_cmd \<Rightarrow> Inr (real_cmd
          \<lparr>destination := f_queue fp,
           reply_to_qmgr := f_reply_to_qmgr fp,
           native_correlation_id := f_native_correlation_id fp,
           syncpoint := True\<rparr>))"

section \<open>Properties\<close>

lemma map_of_publisher_headers:
  "dict_ok h \<Longrightarrow> map_of (dict_union d h) k = (case map_of h k of None \<Rightarrow> map_of d k | Some v \<Rightarrow> Some v)"
  by (simp add: map_of_union map_add_def split: option.split)

text \<open>
  A publisher's two entry points agree: a command built from explicit arguments and
  handed to \<open>_publish\<close> (the decorator path) ends up as exactly the command \<open>publish\<close>
  builds from the same arguments, with every argument that was not given taken from the
  publisher, or both raise the same ValueError. The one requirement is that FastStream
  treats headers as documented.
\<close>

theorem publisher_paths_agree:
  assumes "headers_as_documented F"
    and "kw_timeout kw = Fin 5 0" and "kw_native_correlation_id kw = None" and "\<not> kw_syncpoint kw"
  shows "(case MQPublishCommand F message d PUBLISH kw of
            Inl e \<Rightarrow> Inl e
          | Inr c \<Rightarrow> publisher__publish F prefix p (MQCommand c))
         = publisher_publish F prefix p message None kw"
  using assms
  by (auto simp: MQPublishCommand_def publisher__publish_def publisher_publish_def
      headers_as_documented_def headers_or_empty_def split: sum.split option.split)

theorem publisher_paths_agree_witness:
  "(case MQPublishCommand sample_fslib (PStr ''hello'') ''Q'' PUBLISH (no_kwargs\<lparr>kw_priority := Some 3\<rparr>) of
      Inl e \<Rightarrow> Inl e
    | Inr c \<Rightarrow> publisher__publish sample_fslib ''APP.''
        (create_publisher \<lparr>name = ''DEV.Q''\<rparr> no_kwargs) (MQCommand c))
   = publisher_publish sample_fslib
        ''APP.'' (create_publisher \<lparr>name = ''DEV.Q''\<rparr> no_kwargs) (PStr ''hello'') None
        (no_kwargs\<lparr>kw_priority := Some 3\<rparr>)"
  by (rule publisher_paths_agree) simp_all

text \<open>
  What \<open>publish\<close> sends: the destination is the prefixed queue of the call or of the
  publisher, a header given in the call wins over the publisher's header of the same name
  and all others are kept, and every other field is the argument of the call if it was
  given and the publisher's default otherwise.
\<close>

theorem publish_resolution:
  assumes "publisher_publish F prefix p message q kw = Inr c" and "headers_as_documented F"
    and "dict_ok (headers_or_empty (kw_headers kw))" and "dict_ok (p_headers p)"
  shows "destination c = prefix @ name (case q of None \<Rightarrow> p_queue p | Some a \<Rightarrow> validate a)
    \<and> dict_ok (headers_of c)
    \<and> map_of (headers_of c) k =
        (case map_of (headers_or_empty (kw_headers kw)) k of
           None \<Rightarrow> map_of (p_headers p) k | Some v \<Rightarrow> Some v)
    \<and> reply_to c = (if kw_reply_to kw = [] then p_reply_to p else kw_reply_to kw)
    \<and> reply_to_qmgr c = (if kw_reply_to_qmgr kw = [] then p_reply_to_qmgr p else kw_reply_to_qmgr kw)
    \<and> priority c = (case kw_priority kw of None \<Rightarrow> p_priority p | Some x \<Rightarrow> Some x)
    \<and> persistence c = (case kw_persistence kw of None \<Rightarrow> p_persistence p | Some x \<Rightarrow> Some x)
    \<and> expiry c = (case kw_expiry kw of None \<Rightarrow> p_expiry p | Some x \<Rightarrow> Some x)
    \<and> command_ok c \<and> body c = message \<and> \<not> syncpoint c"
proof -
  note fields = MQPublishCommand_fields [OF assms(1) [unfolded publisher_publish_def]]
  have "command_ok c"
    using assms(1) unfolding publisher_publish_def by (rule MQPublishCommand_ok)
  then show ?thesis
    using assms(2-4)
    by (auto simp: fields headers_as_documented_def publisher_routing_def routing_def or_str_def
        if_given_def map_of_publisher_headers split: option.split)
qed

theorem publish_resolution_witness:
  "\<exists>c. publisher_publish sample_fslib ''APP.'' (create_publisher \<lparr>name = ''DEV.Q''\<rparr>
        (no_kwargs\<lparr>kw_headers := Some [(''a'', PInt 1)], kw_priority := Some 4\<rparr>))
      (PStr ''hello'') None (no_kwargs\<lparr>kw_headers := Some [(''a'', PInt 2)]\<rparr>) = Inr c
    \<and> destination c = ''APP.DEV.Q'' \<and> map_of (headers_of c) ''a'' = Some (PInt 2)
    \<and> priority c = Some 4"
proof -
  let ?p = "create_publisher \<lparr>name = ''DEV.Q''\<rparr>
        (no_kwargs\<lparr>kw_headers := Some [(''a'', PInt 1)], kw_priority := Some 4\<rparr>)"
  let ?kw = "no_kwargs\<lparr>kw_headers := Some [(''a'', PInt 2)]\<rparr>"
  obtain c where c: "publisher_publish sample_fslib ''APP.'' ?p (PStr ''hello'') None ?kw = Inr c"
    by (simp add: publisher_publish_def MQPublishCommand_def)
  have "destination c = ''APP.DEV.Q'' \<and> map_of (headers_of c) ''a'' = Some (PInt 2)
      \<and> priority c = Some 4"
    using publish_resolution [OF c, of "''a''"]
    by (simp add: create_publisher_def headers_or_empty_def dict_ok_def)
  with c show ?thesis by blast
qed

end
