(* ===== verification/MQ_Producer.thy ===== *)
theory MQ_Producer
  imports MQ_Process
begin

text \<open>
  The producers of \<open>faststream_mq/publisher/producer.py\<close>. The broker's producer keeps one
  connection for publications and a second one, made on first use, for requests. A method
  runs on the store of shared objects and on the producer's own fields.
\<close>

record MQProducer =
  publish_connection :: "nat option"
  request_connection :: "nat option"
  producer_config :: "MQConnectionConfig option"
  producer_serializer :: "nat option"

type_synonym 'a producer_prog = "(mqstate \<times> MQProducer, 'a) prog"

definition AsyncMQFastProducerImpl_init :: MQProducer where
  "AsyncMQFastProducerImpl_init =
     \<lparr>publish_connection = None, request_connection = None, producer_config = None,
      producer_serializer = None\<rparr>"

definition producer_connect ::
  "mqlib \<Rightarrow> MQConnectionConfig \<Rightarrow> nat option \<Rightarrow> unit producer_prog" where
  "producer_connect L cfg ser =
     seq (local (\<lambda>p. p\<lparr>producer_serializer := ser, producer_config := Some cfg\<rparr>))
     (bind (outside (new_connection cfg)) (\<lambda>c.
      seq (local (\<lambda>p. p\<lparr>publish_connection := Some c, request_connection := None\<rparr>))
      (outside (on_connection c (connect L)))))"

text \<open>
  \<open>asyncio.gather\<close> of two disconnections, whose jobs run in the executors of two different
  connections: both are carried out, and the first failure is raised.
\<close>

definition gather :: "('s, unit) prog \<Rightarrow> ('s, unit) prog \<Rightarrow> ('s, unit) prog" where
  "gather m k = (\<lambda>s. case m s of (r, t) \<Rightarrow> (case k t of (r', u) \<Rightarrow>
      (case r of Returns x \<Rightarrow> r' | _ \<Rightarrow> r, u)))"

definition disconnect_if :: "mqlib \<Rightarrow> nat option \<Rightarrow> (mqstate, unit) prog" where
  "disconnect_if L c = (case c of None \<Rightarrow> ret () | Some i \<Rightarrow> on_connection i (disconnect L))"

definition producer_disconnect :: "mqlib \<Rightarrow> unit producer_prog" where
  "producer_disconnect L =
     bind (get_local publish_connection) (\<lambda>p. bind (get_local request_connection) (\<lambda>r.
     seq (outside (gather (disconnect_if L p) (disconnect_if L r)))
     (local (\<lambda>f. f\<lparr>publish_connection := None, request_connection := None,
                   producer_config := None\<rparr>))))"

definition producer_ping :: "mqlib \<Rightarrow> bool producer_prog" where
  "producer_ping L = bind (get_local publish_connection) (\<lambda>p. case p of
      None \<Rightarrow> ret False
    | Some c \<Rightarrow> outside (on_connection c (ping L)))"

definition producer_publish :: "mqlib \<Rightarrow> fslib \<Rightarrow> mq_publish_command \<Rightarrow> unit producer_prog" where
  "producer_publish L F cmd =
     bind (get_local publish_connection) (\<lambda>p.
     seq (assert_that (p \<noteq> None) ''Producer is not connected yet.'')
     (bind (get_local producer_serializer) (\<lambda>ser.
      outside (on_connection (the p) (publish L F cmd ser)))))"

text \<open>The new connection is stored before it is connected.\<close>

definition get_request_connection :: "mqlib \<Rightarrow> nat producer_prog" where
  "get_request_connection L =
     bind (get_local request_connection) (\<lambda>r. case r of
        Some c \<Rightarrow> ret c
      | None \<Rightarrow>
          bind (get_local producer_config) (\<lambda>cfg.
          seq (assert_that (cfg \<noteq> None) ''Producer is not connected yet.'')
          (bind (outside (new_connection (the cfg))) (\<lambda>c.
           seq (local (\<lambda>p. p\<lparr>request_connection := Some c\<rparr>))
           (seq (outside (on_connection c (connect L)))
           (ret c))))))"

definition producer_request ::
  "mqlib \<Rightarrow> fslib \<Rightarrow> nat \<Rightarrow> mq_publish_command \<Rightarrow> MQRawMessage producer_prog" where
  "producer_request L F fuel cmd =
     bind (get_request_connection L) (\<lambda>c.
     bind (get_local producer_serializer) (\<lambda>ser.
     outside (on_connection c (request L F fuel cmd ser))))"

definition publish_batch :: "('s, unit) prog" where
  "publish_batch = throw (NotImplementedError ''IBM MQ doesn't support publishing in batches.'')"

text \<open>The property \<open>connection\<close>: the one for publications, whether it is open or not.\<close>

definition producer_connection :: "MQProducer \<Rightarrow> nat option" where
  "producer_connection p = publish_connection p"

section \<open>The other producers\<close>

text \<open>
  \<open>AsyncMQConnectionProducer\<close> sends on a connection it is given: a reply of a subscriber is
  put on the connection the request came from.
\<close>

record ConnectionProducer =
  cp_connection :: nat
  cp_serializer :: "nat option"

definition connection_publish ::
  "mqlib \<Rightarrow> fslib \<Rightarrow> ConnectionProducer \<Rightarrow> mq_publish_command \<Rightarrow> (mqstate, unit) prog" where
  "connection_publish L F p cmd = on_connection (cp_connection p) (publish L F cmd (cp_serializer p))"

definition connection_request ::
  "mqlib \<Rightarrow> fslib \<Rightarrow> nat \<Rightarrow> ConnectionProducer \<Rightarrow> mq_publish_command \<Rightarrow> (mqstate, MQRawMessage) prog" where
  "connection_request L F fuel p cmd =
     on_connection (cp_connection p) (request L F fuel cmd (cp_serializer p))"

definition connection_publish_batch :: "ConnectionProducer \<Rightarrow> mq_publish_command \<Rightarrow> (mqstate, unit) prog" where
  "connection_publish_batch p cmd = throw (NotImplementedError ''IBM MQ doesn't support publishing in batches.'')"

text \<open>\<open>FakeMQFastProducer\<close>: the producer of a configuration that has none.\<close>

definition fake_unsupported :: "('s, 'a) prog" where
  "fake_unsupported = throw (NotImplementedError [])"

end
