(* ===== verification/MQ_Config.thy ===== *)
theory MQ_Config
  imports MQ_Producer
begin

text \<open>
  The configuration objects of \<open>faststream_mq/configs\<close> and the security arguments of
  \<open>faststream_mq/security.py\<close>.
\<close>

section \<open>MQBrokerConfig\<close>

text \<open>
  The fields the adapter reads; the producer object is the broker's, and what subscribers
  ask of it is whether it belongs to a test broker.
\<close>

record MQBrokerConfig =
  broker_connection_config :: MQConnectionConfig
  broker_prefix :: string
  is_test_producer :: bool
  fd_serializer :: "nat option"

definition default_connection_config :: MQConnectionConfig where
  "default_connection_config =
     \<lparr>queue_manager = [], channel = None, conn_name = None, username = None, password = None,
      tls = None, reply_model_queue = ''DEV.APP.MODEL.QUEUE'', wait_interval = Fin 1 0,
      ccdt_url = None, reconnect_mode = ''disabled'', startup_retry_timeout = Fin 60 0,
      startup_retry_interval = Fin 2 0\<rparr>"

definition config_connect :: "mqlib \<Rightarrow> MQBrokerConfig \<Rightarrow> unit producer_prog" where
  "config_connect L cfg = producer_connect L (broker_connection_config cfg) (fd_serializer cfg)"

definition config_disconnect :: "mqlib \<Rightarrow> unit producer_prog" where
  "config_disconnect L = producer_disconnect L"

section \<open>Security\<close>

text \<open>The security objects of FastStream, told apart as \<open>isinstance\<close> does.\<close>

datatype base_security =
    SASLPlaintext string string bool "nat option"   \<comment> \<open>user, password, use of TLS, TLS context\<close>
  | UnsupportedSecurity string                       \<comment> \<open>the printed type\<close>

record security_args =
  sec_username :: "string option"
  sec_password :: "string option"
  sec_use_ssl :: bool
  sec_ssl_context :: "nat option"

text \<open>The empty dictionary is the record of absent entries.\<close>

definition parse_security :: "base_security option \<Rightarrow> exn + security_args" where
  "parse_security s = (case s of
      None \<Rightarrow> Inr \<lparr>sec_username = None, sec_password = None, sec_use_ssl = False, sec_ssl_context = None\<rparr>
    | Some (SASLPlaintext u p b c) \<Rightarrow>
        Inr \<lparr>sec_username = Some u, sec_password = Some p, sec_use_ssl = b, sec_ssl_context = c\<rparr>
    | Some (UnsupportedSecurity t) \<Rightarrow>
        Inl (NotImplementedError (''MQBroker does not support `'' @ t @ ''`.'')))"

end
