(* ===== verification/MQ_Subscriber.thy ===== *)
theory MQ_Subscriber
  imports MQ_Settlement MQ_Publisher MQ_Config
begin

text \<open>
  \<open>faststream_mq/subscriber/usecase.py\<close>: the subscriber, its consume loop, its start and
  stop, and the direct access by \<open>get_one\<close> and by iteration. The base class belongs to
  FastStream; what the adapter calls of it, and what the other tasks of the event loop do
  while this one waits, is the record \<open>fsub\<close>.
\<close>

section \<open>The state\<close>

record MQSubscriber =
  sub_queue :: MQQueue
  sub_wait_interval :: pyfloat
  sub_header_max :: int
  sub_ack_policy :: AckPolicy
  outer_config :: MQBrokerConfig
  calls :: "nat list"               \<comment> \<open>the registered handlers\<close>
  running :: bool
  tasks :: nat                      \<comment> \<open>consume loops started with \<open>add_task\<close>\<close>
  consumer :: "nat option"          \<comment> \<open>address of the connection\<close>
  test_messages :: "nat list option"
  direct_message :: "nat option"

type_synonym 'a sub_prog = "(mqstate \<times> MQSubscriber, 'a) prog"

text \<open>The result of a handler, as far as the adapter reads it.\<close>

record handler_result =
  result_body :: pyval
  result_headers :: headers
  result_message_id :: "string option"

record fsub =
  base_start :: "unit sub_prog"
  base_post_start :: "unit sub_prog"
  base_stop :: "unit sub_prog"
  base_process_message :: "nat \<Rightarrow> handler_result sub_prog"  \<comment> \<open>middlewares, parser, handlers\<close>
  base_process_msg :: "nat \<Rightarrow> MQMessage sub_prog"           \<comment> \<open>middlewares and parser only\<close>
  app_exit :: "unit sub_prog"
  other_tasks :: "unit sub_prog"    \<comment> \<open>raises \<open>CancelledError\<close> when this task is cancelled\<close>
  cancelled_tasks :: "unit sub_prog"    \<comment> \<open>cancelled tasks running to their end\<close>
  settle_cancelled :: "nat \<Rightarrow> bool"     \<comment> \<open>cancelled while a message is settled\<close>

definition sub_routing :: "MQSubscriber \<Rightarrow> string" where
  "sub_routing p = broker_prefix (outer_config p) @ routing (sub_queue p)"

text \<open>An await: the other tasks run before this one goes on.\<close>

definition awaiting :: "fsub \<Rightarrow> 'a sub_prog \<Rightarrow> 'a sub_prog" where
  "awaiting H m = try_finally m (other_tasks H)"

text \<open>
  \<open>Event.wait\<close> returns once the event is set; when what the other tasks do does not set
  it, the waiting never ends.
\<close>

definition never_returns :: "('s, 'a) prog" where
  "never_returns = out_of_fuel"

definition wait_settled_event :: "fsub \<Rightarrow> nat \<Rightarrow> unit sub_prog" where
  "wait_settled_event H a =
     bind (outside (get_raw a settled_event)) (\<lambda>b. if b then ret () else
     seq (other_tasks H)
     (bind (outside (get_raw a settled_event)) (\<lambda>b. if b then ret () else never_returns)))"

section \<open>Stopping\<close>

text \<open>
  \<open>inside\<close> says that the caller runs in one of the subscriber's own tasks. Such a call
  cancels its own task and waits for it in \<open>asyncio.gather\<close>, which never completes: the
  pending cancellation is passed to the gathering future, from there to its children, and
  so back to the task, until Python's recursion limit ends the step of the task and with
  it the last reference that could resume it.
\<close>

definition cancel_and_wait :: "fsub \<Rightarrow> bool \<Rightarrow> nat \<Rightarrow> unit sub_prog" where
  "cancel_and_wait H inside n =
     (if n = 0 then ret () else if inside then never_returns else cancelled_tasks H)"

definition stop :: "mqlib \<Rightarrow> fsub \<Rightarrow> bool \<Rightarrow> unit sub_prog" where
  "stop L H inside =
     bind (get_local tasks) (\<lambda>ts.
     seq (base_stop H)
     (seq (local (\<lambda>p. p\<lparr>direct_message := None\<rparr>))
     (bind (get_local test_messages) (\<lambda>tm.
      if tm \<noteq> None then local (\<lambda>p. p\<lparr>test_messages := None\<rparr>) else
      seq (cancel_and_wait H inside ts)
      (seq (local (\<lambda>p. p\<lparr>tasks := 0\<rparr>))
      (bind (get_local consumer) (\<lambda>c. case c of
         None \<Rightarrow> ret ()
       | Some i \<Rightarrow>
           seq (outside (on_connection i (stop_consumer L)))
           (seq (outside (on_connection i (disconnect L)))
           (local (\<lambda>p. p\<lparr>consumer := None\<rparr>))))))))))"

section \<open>Consuming\<close>

definition settle_unresolved :: "mqlib \<Rightarrow> fsub \<Rightarrow> nat \<Rightarrow> exn \<Rightarrow> unit sub_prog" where
  "settle_unresolved L H a e =
     bind (get_local sub_ack_policy) (\<lambda>policy.
     outside (settle_unresolved_message (connection_acknowledger L) policy (settle_cancelled H a) a e))"

definition consume :: "mqlib \<Rightarrow> fsub \<Rightarrow> bool \<Rightarrow> nat \<Rightarrow> handler_result option sub_prog" where
  "consume L H inside a =
     bind (get_local running) (\<lambda>r. if \<not> r then ret None else
     try_except (bind (base_process_message H a) (\<lambda>x. ret (Some x)))
       (\<lambda>e. if e = StopConsume then
              seq (settle_unresolved L H a e) (seq (stop L H inside) (ret None))
            else if e = SystemExit then
              seq (settle_unresolved L H a e) (seq (stop L H inside) (seq (app_exit H) (ret None)))
            else if is_exception e then
              seq (settle_unresolved L H a e) (ret None)
            else throw e))"

text \<open>Python's attribute error on \<open>None\<close>.\<close>

definition attribute_error :: exn where
  "attribute_error = OtherException 0"

text \<open>\<open>await self._consumer.get_message(...)\<close>: a message gets an address of its own.\<close>

definition fetch :: "mqlib \<Rightarrow> fsub \<Rightarrow> nat \<Rightarrow> pyfloat \<Rightarrow> nat option sub_prog" where
  "fetch L H fuel t =
     bind (get_local consumer) (\<lambda>c. bind (get_local sub_header_max) (\<lambda>k. case c of
        None \<Rightarrow> throw attribute_error
      | Some i \<Rightarrow> awaiting H (outside
          (bind (on_connection i (get_message L fuel t k)) (\<lambda>r. case r of
             None \<Rightarrow> ret None
           | Some m \<Rightarrow> bind (new_message m) (\<lambda>a. ret (Some a)))))))"

text \<open>One turn of the loop; the result says whether the loop goes on.\<close>

definition consume_turn :: "mqlib \<Rightarrow> fsub \<Rightarrow> nat \<Rightarrow> bool sub_prog" where
  "consume_turn L H fuel =
     bind (get_local running) (\<lambda>r. if \<not> r then ret False else
     bind (try_except
            (bind (get_local sub_wait_interval) (\<lambda>t. bind (fetch L H fuel t) (\<lambda>x. ret (Some x))))
            (\<lambda>e. if is_exception e then bind (get_local running) (\<lambda>r. if r then throw e else ret None)
                 else throw e))
       (\<lambda>x. case x of
          None \<Rightarrow> ret False
        | Some None \<Rightarrow> ret True
        | Some (Some a) \<Rightarrow>
            seq (consume L H True a)
            (bind (get_local sub_ack_policy) (\<lambda>policy. bind (outside (get_raw a settled)) (\<lambda>st.
             seq (when_do (policy = MANUAL \<and> st = None) (wait_settled_event H a))
             (ret True))))))"

fun consume_turns :: "mqlib \<Rightarrow> fsub \<Rightarrow> nat \<Rightarrow> nat \<Rightarrow> unit sub_prog" where
  "consume_turns L H fuel 0 = out_of_fuel"
| "consume_turns L H fuel (Suc n) =
     bind (consume_turn L H fuel) (\<lambda>b. if b then consume_turns L H fuel n else ret ())"

definition consume_loop :: "mqlib \<Rightarrow> fsub \<Rightarrow> nat \<Rightarrow> nat \<Rightarrow> unit sub_prog" where
  "consume_loop L H fuel n =
     bind (get_local consumer) (\<lambda>c. seq (assert_that (c \<noteq> None) []) (consume_turns L H fuel n))"

section \<open>Starting\<close>

definition sub_clock :: "mqlib \<Rightarrow> pyfloat sub_prog" where
  "sub_clock L = outside (call_on_world (call_lib (ans_clock L) Monotonic))"

definition sub_sleep :: "mqlib \<Rightarrow> pyfloat \<Rightarrow> unit sub_prog" where
  "sub_sleep L t = outside (call_on_world (call_lib (ans_unit L) (Sleep t)))"

definition on_consumer :: "(cst, 'a) prog \<Rightarrow> 'a sub_prog" where
  "on_consumer m = bind (get_local consumer) (\<lambda>c. case c of
      None \<Rightarrow> throw attribute_error
    | Some i \<Rightarrow> outside (on_connection i m))"

text \<open>One attempt: connect, and open the queue.\<close>

definition connect_attempt :: "mqlib \<Rightarrow> unit sub_prog" where
  "connect_attempt L =
     seq (on_consumer (connect L))
     (bind (get_local sub_routing) (\<lambda>q. on_consumer (start_consumer L q)))"

fun startup_attempts ::
  "mqlib \<Rightarrow> nat \<Rightarrow> pyfloat \<Rightarrow> pyfloat \<Rightarrow> pyfloat \<Rightarrow> unit sub_prog" where
  "startup_attempts L 0 t interval deadline = out_of_fuel"
| "startup_attempts L (Suc n) t interval deadline =
     try_except (connect_attempt L)
       (\<lambda>e. if \<not> is_exception e then throw e else
            if \<not> is_retryable_mq_exception L e then throw e else
            bind (if t \<le> Fin 0 0 then ret True else bind (sub_clock L) (\<lambda>now. ret (deadline \<le> now)))
              (\<lambda>over. if over then throw e else
                 seq (on_consumer (disconnect L))
                 (seq (sub_sleep L interval)
                 (startup_attempts L n t interval deadline))))"

definition startup_connect_consumer :: "mqlib \<Rightarrow> nat \<Rightarrow> unit sub_prog" where
  "startup_connect_consumer L n =
     bind (get_local consumer) (\<lambda>c. seq (assert_that (c \<noteq> None) [])
     (bind (get_local (\<lambda>p. broker_connection_config (outer_config p))) (\<lambda>cfg.
      bind (sub_clock L) (\<lambda>now.
      startup_attempts L n (startup_retry_timeout cfg) (startup_retry_interval cfg)
        (now + startup_retry_timeout cfg)))))"

definition start :: "mqlib \<Rightarrow> fsub \<Rightarrow> nat \<Rightarrow> unit sub_prog" where
  "start L H n =
     seq (base_start H)
     (bind (get_local outer_config) (\<lambda>cfg.
      if is_test_producer cfg then
        seq (local (\<lambda>p. p\<lparr>test_messages := Some []\<rparr>)) (base_post_start H)
      else
        bind (outside (new_connection (broker_connection_config cfg))) (\<lambda>c.
        seq (local (\<lambda>p. p\<lparr>consumer := Some c\<rparr>))
        (seq (startup_connect_consumer L n)
        (seq (base_post_start H)
        (bind (get_local calls) (\<lambda>hs. when_do (hs \<noteq> []) (local (\<lambda>p. p\<lparr>tasks := tasks p + 1\<rparr>)))))))))"

section \<open>Direct access\<close>

definition unsettled_direct_message :: string where
  "unsettled_direct_message =
     ''IBM MQ manual settlement allows only one unsettled message per consumer ''
     @ ''connection. Settle the previous message before fetching another one.''"

definition ensure_no_unsettled_direct_message :: "unit sub_prog" where
  "ensure_no_unsettled_direct_message =
     bind (get_local direct_message) (\<lambda>d. case d of
        None \<Rightarrow> ret ()
      | Some a \<Rightarrow> bind (outside (get_raw a settled)) (\<lambda>st.
          if st \<noteq> None then local (\<lambda>p. p\<lparr>direct_message := None\<rparr>)
          else throw (RuntimeError unsettled_direct_message)))"

text \<open>
  \<open>asyncio.wait_for(queue.get(), timeout)\<close> on the queue of the test broker: \<open>None\<close> when
  the other tasks have put nothing in time.
\<close>

definition test_queue_get :: "fsub \<Rightarrow> nat option sub_prog" where
  "test_queue_get H = seq (other_tasks H) (bind (get_local test_messages) (\<lambda>tm. case tm of
      Some (a # as) \<Rightarrow> seq (local (\<lambda>p. p\<lparr>test_messages := Some as\<rparr>)) (ret (Some a))
    | _ \<Rightarrow> ret None))"

definition direct_fetch :: "mqlib \<Rightarrow> fsub \<Rightarrow> nat \<Rightarrow> pyfloat \<Rightarrow> nat option sub_prog" where
  "direct_fetch L H fuel t =
     bind (get_local test_messages) (\<lambda>tm. if tm \<noteq> None then test_queue_get H else
     bind (get_local consumer) (\<lambda>c.
     seq (assert_that (c \<noteq> None) ''You should start subscriber at first.'')
     (fetch L H fuel t)))"

text \<open>From a raw message to the message handed out, the same in both ways of access.\<close>

definition deliver_direct :: "mqlib \<Rightarrow> fsub \<Rightarrow> nat \<Rightarrow> MQMessage sub_prog" where
  "deliver_direct L H a =
     try_except
       (bind (base_process_msg H a) (\<lambda>m.
        bind (get_local sub_ack_policy) (\<lambda>policy.
        seq (when_do (policy = MANUAL) (local (\<lambda>p. p\<lparr>direct_message := Some a\<rparr>)))
        (ret m))))
       (\<lambda>e. if is_exception e then seq (settle_unresolved L H a e) (throw e) else throw e)"

definition get_one :: "mqlib \<Rightarrow> fsub \<Rightarrow> nat \<Rightarrow> pyfloat \<Rightarrow> MQMessage option sub_prog" where
  "get_one L H fuel t =
     bind (get_local calls) (\<lambda>hs.
     seq (assert_that (hs = [])
            ''You can't use `get_one` method if subscriber has registered handlers.'')
     (seq ensure_no_unsettled_direct_message
     (bind (direct_fetch L H fuel t) (\<lambda>r. case r of
        None \<Rightarrow> ret None
      | Some a \<Rightarrow> bind (deliver_direct L H a) (\<lambda>m. ret (Some m))))))"

text \<open>
  The asynchronous iterator: \<open>aiter_start\<close> is the code before the loop, \<open>aiter_next\<close> what
  one \<open>__anext__\<close> runs, up to the next \<open>yield\<close>; \<open>None\<close> ends the iteration.
\<close>

definition aiter_start :: "unit sub_prog" where
  "aiter_start = bind (get_local calls) (\<lambda>hs. assert_that (hs = [])
     ''You can't use iterator method if subscriber has registered handlers.'')"

fun aiter_next :: "mqlib \<Rightarrow> fsub \<Rightarrow> nat \<Rightarrow> nat \<Rightarrow> MQMessage option sub_prog" where
  "aiter_next L H fuel 0 = out_of_fuel"
| "aiter_next L H fuel (Suc n) =
     bind (get_local running) (\<lambda>r. if \<not> r then ret None else
     seq ensure_no_unsettled_direct_message
     (bind (get_local sub_wait_interval) (\<lambda>t. bind (direct_fetch L H fuel t) (\<lambda>x. case x of
        None \<Rightarrow> aiter_next L H fuel n
      | Some a \<Rightarrow> bind (deliver_direct L H a) (\<lambda>m. ret (Some m))))))"

definition put_test_message :: "nat \<Rightarrow> unit sub_prog" where
  "put_test_message a =
     bind (get_local test_messages) (\<lambda>tm.
     seq (assert_that (tm \<noteq> None) ''Test buffer is not initialized.'')
     (local (\<lambda>p. p\<lparr>test_messages := Some (the tm @ [a])\<rparr>)))"

section \<open>Replies and logs\<close>

text \<open>The producer of a reply: the broker's, or one on the connection of the request.\<close>

datatype reply_producer = BrokerProducer | OnConnection ConnectionProducer

definition make_response_publisher ::
  "MQSubscriber \<Rightarrow> MQMessage \<Rightarrow> MQRawMessage \<Rightarrow> reply_producer \<times> MQFakePublisher" where
  "make_response_publisher p m raw =
     (case connection raw of
        None \<Rightarrow> BrokerProducer
      | Some c \<Rightarrow> OnConnection \<lparr>cp_connection = c, cp_serializer = fd_serializer (outer_config p)\<rparr>,
      \<lparr>f_queue = m_reply_to m, f_reply_to_qmgr = raw_reply_to_qmgr raw,
       f_native_correlation_id = native_message_id raw\<rparr>)"

definition build_log_context :: "MQMessage option \<Rightarrow> MQQueue \<Rightarrow> (string \<times> pyval) list" where
  "build_log_context m q =
     [(''queue'', PStr (name q)),
      (''message_id'', case m of None \<Rightarrow> PStr [] | Some x \<Rightarrow>
         (case m_message_id x of None \<Rightarrow> PNone | Some s \<Rightarrow> PStr s))]"

definition get_log_context :: "MQSubscriber \<Rightarrow> MQMessage option \<Rightarrow> (string \<times> pyval) list" where
  "get_log_context p m = build_log_context m (sub_queue p)"

end
