(* ===== verification/MQ_Broker.thy ===== *)
theory MQ_Broker
  imports MQ_Subscriber MQ_Tls
begin

text \<open>
  \<open>faststream_mq/broker\<close>: the broker with its constructor, its start-up loop and its
  operations (\<open>broker.py\<close>), the registration of subscribers and publishers
  (\<open>registrator.py\<close>, with \<open>subscriber/factory.py\<close> and \<open>subscriber/config.py\<close>) and the
  routes of a router (\<open>router.py\<close>).
\<close>

section \<open>Registering subscribers and publishers\<close>

text \<open>The arguments of \<open>subscriber\<close> that reach the subscriber; \<open>EMPTY\<close> is an absent policy.\<close>

record subscriber_args =
  sa_queue :: queue_arg
  sa_ack_policy :: "AckPolicy option"
  sa_no_reply :: bool
  sa_wait_interval :: pyfloat
  sa_header_max_value_length :: int

definition ack_policy_of :: "AckPolicy option \<Rightarrow> AckPolicy" where
  "ack_policy_of p = (case p of None \<Rightarrow> NACK_ON_ERROR | Some q \<Rightarrow> q)"

definition create_subscriber ::
  "MQQueue \<Rightarrow> AckPolicy option \<Rightarrow> pyfloat \<Rightarrow> int \<Rightarrow> MQBrokerConfig \<Rightarrow> MQSubscriber" where
  "create_subscriber q policy t k cfg =
     \<lparr>sub_queue = q, sub_wait_interval = t, sub_header_max = k, sub_ack_policy = ack_policy_of policy,
      outer_config = cfg, calls = [], running = False, tasks = 0, consumer = None,
      test_messages = None, direct_message = None\<rparr>"

definition registrator_subscriber :: "MQBrokerConfig \<Rightarrow> subscriber_args \<Rightarrow> MQSubscriber" where
  "registrator_subscriber cfg a =
     create_subscriber (validate (sa_queue a)) (sa_ack_policy a) (sa_wait_interval a)
       (sa_header_max_value_length a) cfg"

definition registrator_publisher :: "queue_arg \<Rightarrow> cmd_kwargs \<Rightarrow> MQPublisher" where
  "registrator_publisher q kw = create_publisher (validate q) kw"

datatype router_arg = RegistratorArg nat | OtherRouterArg string  \<comment> \<open>its type's name\<close>

definition include_router_check :: "router_arg \<Rightarrow> exn + nat" where
  "include_router_check r = (case r of
      RegistratorArg i \<Rightarrow> Inr i
    | OtherRouterArg t \<Rightarrow> Inl (SetupError
        (''Router must be an instance of MQRegistrator, '' @ ''got '' @ t @ '' instead'')))"

text \<open>
  The default arguments of the three places a subscriber or publisher can be declared at:
  the registrator, a route of a router, and the FastAPI router. The keyword arguments of a
  declaration are given as an update of the defaults.
\<close>

definition registrator_subscriber_defaults :: "queue_arg \<Rightarrow> subscriber_args" where
  "registrator_subscriber_defaults q = \<lparr>sa_queue = q, sa_ack_policy = None, sa_no_reply = False,
     sa_wait_interval = Fin 1 0, sa_header_max_value_length = 64\<rparr>"

definition route_subscriber_defaults :: "queue_arg \<Rightarrow> subscriber_args" where
  "route_subscriber_defaults q = \<lparr>sa_queue = q, sa_ack_policy = None, sa_no_reply = False,
     sa_wait_interval = Fin 1 0, sa_header_max_value_length = 64\<rparr>"

definition fastapi_subscriber_defaults :: "string \<Rightarrow> subscriber_args" where
  "fastapi_subscriber_defaults q = \<lparr>sa_queue = QueueStr q, sa_ack_policy = None, sa_no_reply = False,
     sa_wait_interval = Fin 1 0, sa_header_max_value_length = 64\<rparr>"

text \<open>A route hands its arguments to the registrator as they are.\<close>

definition MQRoute ::
  "queue_arg \<Rightarrow> (subscriber_args \<Rightarrow> subscriber_args) \<Rightarrow> MQBrokerConfig \<Rightarrow> MQSubscriber" where
  "MQRoute q kw cfg = registrator_subscriber cfg (kw (route_subscriber_defaults q))"

definition route_publisher :: "queue_arg \<Rightarrow> cmd_kwargs \<Rightarrow> MQPublisher" where
  "route_publisher q kw = registrator_publisher q kw"

definition fastapi_subscriber ::
  "string \<Rightarrow> (subscriber_args \<Rightarrow> subscriber_args) \<Rightarrow> MQBrokerConfig \<Rightarrow> MQSubscriber" where
  "fastapi_subscriber q kw cfg = registrator_subscriber cfg (kw (fastapi_subscriber_defaults q))"

definition fastapi_publisher :: "string \<Rightarrow> cmd_kwargs \<Rightarrow> MQPublisher" where
  "fastapi_publisher q kw = registrator_publisher (QueueStr q) kw"

definition MQRouter_config :: "string \<Rightarrow> MQBrokerConfig" where
  "MQRouter_config pre = \<lparr>broker_connection_config = default_connection_config, broker_prefix = pre,
     is_test_producer = False, fd_serializer = None\<rparr>"

section \<open>The broker\<close>

record broker_args =
  ba_queue_manager :: string
  ba_channel :: "string option"
  ba_conn_name :: "string option"
  ba_host :: "string option"
  ba_port :: "int option"
  ba_ccdt_url :: "string option"
  ba_reconnect :: string
  ba_username :: "string option"
  ba_password :: "string option"
  ba_tls :: "MQTLSConfig option"
  ba_reply_model_queue :: string
  ba_wait_interval :: pyfloat
  ba_security :: "base_security option"
  ba_specification_url :: "string option"
  ba_protocol :: "string option"
  ba_serializer :: "nat option"

definition broker_defaults :: broker_args where
  "broker_defaults =
     \<lparr>ba_queue_manager = ''QM1'', ba_channel = None, ba_conn_name = None, ba_host = None, ba_port = None,
      ba_ccdt_url = None, ba_reconnect = ''disabled'', ba_username = None, ba_password = None,
      ba_tls = None, ba_reply_model_queue = ''DEV.APP.MODEL.QUEUE'', ba_wait_interval = Fin 1 0,
      ba_security = None, ba_specification_url = None, ba_protocol = None, ba_serializer = None\<rparr>"

text \<open>
  The FastAPI router declares the same arguments, less the serializer, and hands them to its
  base class \<open>stream_router\<close>, which makes a broker of class \<open>MQBroker\<close> of them.
\<close>

definition fastapi_broker_defaults :: broker_args where
  "fastapi_broker_defaults =
     \<lparr>ba_queue_manager = ''QM1'', ba_channel = None, ba_conn_name = None, ba_host = None, ba_port = None,
      ba_ccdt_url = None, ba_reconnect = ''disabled'', ba_username = None, ba_password = None,
      ba_tls = None, ba_reply_model_queue = ''DEV.APP.MODEL.QUEUE'', ba_wait_interval = Fin 1 0,
      ba_security = None, ba_specification_url = None, ba_protocol = None, ba_serializer = None\<rparr>"

definition fastapi_MQRouter :: "(broker_args \<Rightarrow> 'r) \<Rightarrow> (broker_args \<Rightarrow> broker_args) \<Rightarrow> 'r" where
  "fastapi_MQRouter stream_router kw =
     (let a = kw fastapi_broker_defaults in stream_router (broker_defaults
        \<lparr>ba_queue_manager := ba_queue_manager a, ba_channel := ba_channel a, ba_conn_name := ba_conn_name a,
         ba_host := ba_host a, ba_port := ba_port a, ba_ccdt_url := ba_ccdt_url a,
         ba_reconnect := ba_reconnect a, ba_username := ba_username a, ba_password := ba_password a,
         ba_tls := ba_tls a, ba_reply_model_queue := ba_reply_model_queue a,
         ba_wait_interval := ba_wait_interval a, ba_security := ba_security a,
         ba_specification_url := ba_specification_url a, ba_protocol := ba_protocol a\<rparr>))"

record MQBroker =
  broker_config :: MQBrokerConfig
  broker_producer :: MQProducer
  specification_url :: string
  specification_protocol :: string
  broker_connection :: "nat option"

definition show_int :: "int \<Rightarrow> string" where
  "show_int n = (if n < 0 then ''-'' @ show_nat (nat (- n)) else show_nat (nat n))"

text \<open>Python's \<open>x or default\<close> on an optional string and an optional integer.\<close>

definition str_or :: "string option \<Rightarrow> string \<Rightarrow> string" where
  "str_or x d = (case x of None \<Rightarrow> d | Some s \<Rightarrow> if s = [] then d else s)"

definition int_or :: "int option \<Rightarrow> int \<Rightarrow> int" where
  "int_or x d = (case x of None \<Rightarrow> d | Some n \<Rightarrow> if n = 0 then d else n)"

text \<open>Channel and connection name, from the arguments that may be combined.\<close>

definition connection_target :: "broker_args \<Rightarrow> exn + string option \<times> string option" where
  "connection_target a =
     (if ba_ccdt_url a = None then
        Inr (Some (str_or (ba_channel a) ''DEV.APP.SVRCONN''),
             Some (case ba_conn_name a of
                Some n \<Rightarrow> n
              | None \<Rightarrow> str_or (ba_host a) ''127.0.0.1'' @ ''('' @ show_int (int_or (ba_port a) 1414) @ '')''))
      else if ba_conn_name a \<noteq> None \<or> ba_host a \<noteq> None \<or> ba_port a \<noteq> None then
        Inl (ValueError ''`ccdt_url` cannot be combined with `conn_name`, `host`, or `port`.'')
      else Inr (ba_channel a, None))"

definition MQBroker_init :: "broker_args \<Rightarrow> exn + MQBroker" where
  "MQBroker_init a =
     bind_sum (parse_security (ba_security a)) (\<lambda>sec.
     bind_sum (validate_tls_configuration (ba_tls a) (sec_use_ssl sec) (sec_ssl_context sec \<noteq> None)) (\<lambda>_.
     bind_sum (connection_target a) (\<lambda>(ch, cn).
     let target = str_or cn (str_or (ba_ccdt_url a) ''ccdt'')
     in Inr
      \<lparr>broker_config =
         \<lparr>broker_connection_config =
            default_connection_config
              \<lparr>queue_manager := ba_queue_manager a, channel := ch, conn_name := cn,
               ccdt_url := ba_ccdt_url a, reconnect_mode := ba_reconnect a,
               username := or_opt_str (sec_username sec) (ba_username a),
               password := or_opt_str (sec_password sec) (ba_password a),
               tls := ba_tls a, reply_model_queue := ba_reply_model_queue a,
               wait_interval := ba_wait_interval a\<rparr>,
          broker_prefix = [], is_test_producer = False, fd_serializer = ba_serializer a\<rparr>,
       broker_producer = AsyncMQFastProducerImpl_init,
       specification_url = str_or (ba_specification_url a)
         (''mq://'' @ ba_queue_manager a @ ''@'' @ target),
       specification_protocol = str_or (ba_protocol a) ''ibmmq'',
       broker_connection = None\<rparr>)))"

type_synonym 'a broker_prog = "(mqstate \<times> MQBroker, 'a) prog"

definition on_producer :: "'a producer_prog \<Rightarrow> 'a broker_prog" where
  "on_producer m = (\<lambda>(S, b). case m (S, broker_producer b) of
     (r, S', p) \<Rightarrow> (r, S', b\<lparr>broker_producer := p\<rparr>))"

section \<open>Starting and stopping the broker\<close>

definition broker_clock :: "mqlib \<Rightarrow> pyfloat broker_prog" where
  "broker_clock L = outside (call_on_world (call_lib (ans_clock L) Monotonic))"

definition broker_sleep :: "mqlib \<Rightarrow> pyfloat \<Rightarrow> unit broker_prog" where
  "broker_sleep L t = outside (call_on_world (call_lib (ans_unit L) (Sleep t)))"

definition broker_attempt :: "mqlib \<Rightarrow> unit broker_prog" where
  "broker_attempt L = bind (get_local broker_config) (\<lambda>cfg. on_producer (config_connect L cfg))"

fun broker_attempts ::
  "mqlib \<Rightarrow> nat \<Rightarrow> pyfloat \<Rightarrow> pyfloat \<Rightarrow> pyfloat \<Rightarrow> unit broker_prog" where
  "broker_attempts L 0 t interval deadline = out_of_fuel"
| "broker_attempts L (Suc n) t interval deadline =
     try_except (broker_attempt L)
       (\<lambda>e. if \<not> is_exception e then throw e else
            if \<not> is_retryable_mq_exception L e then throw e else
            bind (if t \<le> Fin 0 0 then ret True else bind (broker_clock L) (\<lambda>now. ret (deadline \<le> now)))
              (\<lambda>over. if over then throw e else
                 seq (broker_sleep L interval)
                 (broker_attempts L n t interval deadline)))"

definition broker__connect :: "mqlib \<Rightarrow> nat \<Rightarrow> nat broker_prog" where
  "broker__connect L n =
     bind (get_local (\<lambda>b. broker_connection_config (broker_config b))) (\<lambda>cfg.
     bind (broker_clock L) (\<lambda>now.
     seq (broker_attempts L n (startup_retry_timeout cfg) (startup_retry_interval cfg)
            (now + startup_retry_timeout cfg))
     (bind (get_local (\<lambda>b. publish_connection (broker_producer b))) (\<lambda>c.
      seq (assert_that (c \<noteq> None) []) (ret (the c))))))"

text \<open>What the base class of the broker does around the adapter's methods.\<close>

record fbroker =
  usecase_connect :: "nat broker_prog \<Rightarrow> nat broker_prog"   \<comment> \<open>\<open>_connect\<close>, unless connected\<close>
  usecase_start :: "unit broker_prog"
  usecase_stop :: "unit broker_prog"
  basic_publish :: "(mq_publish_command \<Rightarrow> unit broker_prog) \<Rightarrow> mq_publish_command \<Rightarrow> unit broker_prog"
  basic_request :: "(mq_publish_command \<Rightarrow> MQRawMessage broker_prog) \<Rightarrow> mq_publish_command \<Rightarrow> MQRawMessage broker_prog"

definition broker_start :: "mqlib \<Rightarrow> fbroker \<Rightarrow> nat \<Rightarrow> unit broker_prog" where
  "broker_start L B n = seq (usecase_connect B (broker__connect L n)) (usecase_start B)"

definition broker_stop :: "mqlib \<Rightarrow> fbroker \<Rightarrow> unit broker_prog" where
  "broker_stop L B =
     seq (usecase_stop B)
     (seq (on_producer (config_disconnect L))
     (local (\<lambda>b. b\<lparr>broker_connection := None\<rparr>)))"

definition broker_ping :: "mqlib \<Rightarrow> bool broker_prog" where
  "broker_ping L = on_producer (producer_ping L)"

section \<open>Publishing through the broker\<close>

definition broker_destination :: "MQBrokerConfig \<Rightarrow> queue_arg \<Rightarrow> string" where
  "broker_destination cfg q = routing (add_prefix (validate q) (broker_prefix cfg))"

definition broker_publish_command ::
  "fslib \<Rightarrow> MQBrokerConfig \<Rightarrow> pyval \<Rightarrow> queue_arg \<Rightarrow> cmd_kwargs \<Rightarrow> exn + mq_publish_command" where
  "broker_publish_command F cfg message q kw =
     MQPublishCommand F message (broker_destination cfg q) PUBLISH
       (no_kwargs
         \<lparr>kw_headers := kw_headers kw, kw_correlation_id := kw_correlation_id kw,
          kw_reply_to := kw_reply_to kw, kw_reply_to_qmgr := kw_reply_to_qmgr kw,
          kw_priority := kw_priority kw, kw_persistence := kw_persistence kw,
          kw_expiry := kw_expiry kw, kw_message_type := kw_message_type kw,
          kw_message_id := kw_message_id kw\<rparr>)"

definition broker_publish ::
  "mqlib \<Rightarrow> fslib \<Rightarrow> fbroker \<Rightarrow> pyval \<Rightarrow> queue_arg \<Rightarrow> cmd_kwargs \<Rightarrow> unit broker_prog" where
  "broker_publish L F B message q kw =
     bind (get_local broker_config) (\<lambda>cfg.
     bind (lift_sum (broker_publish_command F cfg message q kw)) (\<lambda>cmd.
     basic_publish B (\<lambda>c. on_producer (producer_publish L F c)) cmd))"

definition broker_request_command ::
  "fslib \<Rightarrow> MQBrokerConfig \<Rightarrow> pyval \<Rightarrow> queue_arg \<Rightarrow> cmd_kwargs \<Rightarrow> exn + mq_publish_command" where
  "broker_request_command F cfg message q kw =
     MQPublishCommand F message (broker_destination cfg q) PUBLISH
       (no_kwargs
         \<lparr>kw_headers := kw_headers kw, kw_correlation_id := kw_correlation_id kw,
          kw_priority := kw_priority kw, kw_persistence := kw_persistence kw,
          kw_expiry := kw_expiry kw, kw_message_type := kw_message_type kw,
          kw_message_id := kw_message_id kw, kw_timeout := kw_timeout kw\<rparr>)"

definition broker_request ::
  "mqlib \<Rightarrow> fslib \<Rightarrow> fbroker \<Rightarrow> nat \<Rightarrow> pyval \<Rightarrow> queue_arg \<Rightarrow> cmd_kwargs \<Rightarrow> MQRawMessage broker_prog" where
  "broker_request L F B fuel message q kw =
     bind (get_local broker_config) (\<lambda>cfg.
     bind (lift_sum (broker_request_command F cfg message q kw)) (\<lambda>cmd.
     basic_request B (\<lambda>c. on_producer (producer_request L F fuel c)) cmd))"

end
