(* ===== verification/MQ_Testing.thy ===== *)
theory MQ_Testing
  imports MQ_Broker
begin

text \<open>
  \<open>faststream_mq/testing.py\<close>: the broker for tests, whose producer hands a message to the
  subscribers of its queue without a queue manager.
\<close>

section \<open>Messages\<close>

text \<open>
  \<open>metadata\<close> is \<open>None\<close> in a test message; the descriptor without fields stands for it.
  \<open>new_id\<close> is the source of random bytes of a generated identifier.
\<close>

definition build_message ::
  "fslib \<Rightarrow> (nat \<Rightarrow> bytes) \<Rightarrow> string \<Rightarrow> pyval \<Rightarrow> headers option \<Rightarrow> string option \<Rightarrow> string \<Rightarrow>
   string option \<Rightarrow> nat option \<Rightarrow> exn + MQRawMessage" where
  "build_message F new_id q message hs cid reply mid ser =
     bind_sum (encode_message F message ser) (\<lambda>(b, ct).
     let hs = headers_or_empty hs;
         hs = (case ct of None \<Rightarrow> hs
               | Some t \<Rightarrow> if t = [] then hs else dict_union [(''content-type'', PStr t)] hs)
     in bind_sum (normalize_mq_id cid ''correlation_id'') (\<lambda>ncid.
        bind_sum (normalize_mq_id mid ''message_id'') (\<lambda>nmid.
        Inr \<lparr>raw_body = b, raw_queue = routing (validate (QueueStr q)), raw_headers = hs, raw_reply_to = reply,
             raw_reply_to_qmgr = [],
             raw_content_type = (case ct of None \<Rightarrow> PNone | Some t \<Rightarrow> PStr t),
             raw_correlation_id = ncid,
             raw_message_id = (case nmid of None \<Rightarrow> Some (generate_mq_id new_id) | Some i \<Rightarrow> Some i),
             native_message_id = None, raw_native_correlation_id = None, raw_priority = PNone,
             raw_persistence = None, raw_expiry = PNone, metadata = empty_md, connection = None,
             settled = None, settled_event = False\<rparr>)))"

section \<open>FakeProducer\<close>

text \<open>
  The producer runs on the store and on the broker's subscribers. \<open>ids n\<close> is the randomness
  for an identifier generated when \<open>n\<close> messages have been made; \<open>H i\<close> are the hooks of the
  \<open>i\<close>-th subscriber.
\<close>

type_synonym 'a test_prog = "(mqstate \<times> MQSubscriber list, 'a) prog"

definition on_subscriber :: "nat \<Rightarrow> 'a sub_prog \<Rightarrow> 'a test_prog" where
  "on_subscriber i m = (\<lambda>(S, ps). case m (S, ps ! i) of (r, S', p) \<Rightarrow> (r, S', ps[i := p]))"

definition message_of_command ::
  "fslib \<Rightarrow> (nat \<Rightarrow> bytes) \<Rightarrow> nat option \<Rightarrow> mq_publish_command \<Rightarrow> exn + MQRawMessage" where
  "message_of_command F new_id ser cmd =
     build_message F new_id (destination cmd) (body cmd) (Some (headers_of cmd)) (correlation_id cmd)
       (reply_to cmd) (message_id cmd) ser"

definition incoming ::
  "fslib \<Rightarrow> (nat \<Rightarrow> nat \<Rightarrow> bytes) \<Rightarrow> nat option \<Rightarrow> mq_publish_command \<Rightarrow> nat test_prog" where
  "incoming F ids ser cmd =
     bind (gets (\<lambda>(S, ps). next_message S)) (\<lambda>n.
     bind (lift_sum (message_of_command F (ids n) ser cmd)) (\<lambda>m. outside (new_message m)))"

definition execute_handler ::
  "fslib \<Rightarrow> (nat \<Rightarrow> nat \<Rightarrow> bytes) \<Rightarrow> nat option \<Rightarrow> fsub \<Rightarrow> nat \<Rightarrow> nat \<Rightarrow> MQRawMessage test_prog" where
  "execute_handler F ids ser H a i =
     bind (on_subscriber i (base_process_message H a)) (\<lambda>res.
     bind (gets (\<lambda>(S, ps). (next_message S, raw_messages S a))) (\<lambda>(n, msg).
     lift_sum (build_message F (ids n) (raw_queue msg) (result_body res) (Some (result_headers res))
       (raw_message_id msg) [] (result_message_id res) ser)))"

fun deliver ::
  "fslib \<Rightarrow> (nat \<Rightarrow> nat \<Rightarrow> bytes) \<Rightarrow> nat option \<Rightarrow> (nat \<Rightarrow> fsub) \<Rightarrow> string \<Rightarrow> nat \<Rightarrow> nat list \<Rightarrow> bool \<Rightarrow> bool test_prog"
where
  "deliver F ids ser H q a [] called = ret called"
| "deliver F ids ser H q a (i # is) called =
     bind (gets (\<lambda>(S, ps). ps ! i)) (\<lambda>p.
     if sub_routing p = q then
       seq (if calls p \<noteq> [] then seq (execute_handler F ids ser (H i) a i) (ret ())
            else on_subscriber i (put_test_message a))
       (deliver F ids ser H q a is True)
     else deliver F ids ser H q a is called)"

definition fake_publish ::
  "fslib \<Rightarrow> (nat \<Rightarrow> nat \<Rightarrow> bytes) \<Rightarrow> nat option \<Rightarrow> (nat \<Rightarrow> fsub) \<Rightarrow> mq_publish_command \<Rightarrow> unit test_prog" where
  "fake_publish F ids ser H cmd =
     bind (incoming F ids ser cmd) (\<lambda>a.
     bind (gets (\<lambda>(S, ps). [0..<length ps])) (\<lambda>is.
     bind (deliver F ids ser H (destination cmd) a is False) (\<lambda>called.
     if called then ret () else throw SubscriberNotFound)))"

text \<open>The rest of the producer: it has no connection, and its broker connects to nothing.\<close>

definition fake_connection :: "nat option" where
  "fake_connection = None"

definition fake_connect :: "MQConnectionConfig \<Rightarrow> nat option \<Rightarrow> unit test_prog" where
  "fake_connect cfg ser = ret ()"

definition fake_disconnect :: "unit test_prog" where
  "fake_disconnect = ret ()"

definition fake_ping :: "pyfloat \<Rightarrow> bool test_prog" where
  "fake_ping t = ret True"

definition fake_publish_batch :: "mq_publish_command \<Rightarrow> unit test_prog" where
  "fake_publish_batch cmd = throw (NotImplementedError ''IBM MQ doesn't support publishing in batches.'')"

text \<open>\<open>anyio.fail_after\<close>: when the deadline passes, the cancellation it sends becomes a \<open>TimeoutError\<close>.\<close>

definition fail_after :: "bool \<Rightarrow> ('s, 'a) prog \<Rightarrow> ('s, 'a) prog" where
  "fail_after expired m = try_except m (\<lambda>e. if expired \<and> e = CancelledError then throw TimeoutError else throw e)"

fun first_handler :: "string \<Rightarrow> MQSubscriber list \<Rightarrow> nat \<Rightarrow> nat option" where
  "first_handler q [] i = None"
| "first_handler q (p # ps) i = (if sub_routing p = q then Some i else first_handler q ps (Suc i))"

definition fake_request ::
  "fslib \<Rightarrow> (nat \<Rightarrow> nat \<Rightarrow> bytes) \<Rightarrow> nat option \<Rightarrow> (nat \<Rightarrow> fsub) \<Rightarrow> bool \<Rightarrow> mq_publish_command \<Rightarrow>
   MQRawMessage test_prog" where
  "fake_request F ids ser H expired cmd =
     bind (incoming F ids ser cmd) (\<lambda>a.
     bind (gets (\<lambda>(S, ps). first_handler (destination cmd) ps 0)) (\<lambda>r. case r of
        None \<Rightarrow> throw SubscriberNotFound
      | Some i \<Rightarrow> fail_after expired (execute_handler F ids ser (H i) a i)))"

section \<open>TestMQBroker\<close>

text \<open>A publisher without a subscriber gets one of its own, which takes its messages.\<close>

definition create_publisher_fake_subscriber ::
  "MQBrokerConfig \<Rightarrow> MQSubscriber list \<Rightarrow> string \<Rightarrow> MQPublisher \<Rightarrow> MQSubscriber \<times> bool" where
  "create_publisher_fake_subscriber cfg ps pre publisher =
     (let q = publisher_routing pre publisher None
      in case first_handler q ps 0 of
           Some i \<Rightarrow> (ps ! i, True)
         | None \<Rightarrow> (registrator_subscriber cfg (registrator_subscriber_defaults (QueueStr q)), False))"

definition require_mq_runtime :: "MQRuntimeStatus \<Rightarrow> bool \<times> string" where
  "require_mq_runtime status = (\<not> available status, str_or (reason status) ''requires IBM MQ runtime'')"

end
