(* ===== verification/MQ_Startup.thy ===== *)
theory MQ_Startup
  imports MQ_Prelude
begin

text \<open>
  The contract of the start-up loops. Subscriber and broker repeat an attempt while it
  fails in a retryable way and a deadline on the monotonic clock has not passed; the laws
  below are the loop's own equations and what the clock does. The two loops of the code
  are interpretations.
\<close>

locale startup_retry =
  fixes attempt again :: "('s, unit) prog"   \<comment> \<open>\<open>again\<close>: what runs before the next attempt\<close>
    and clock :: "('s, pyfloat) prog"
    and retryable :: "exn \<Rightarrow> bool"
    and limit :: pyfloat
    and attempts :: "nat \<Rightarrow> pyfloat \<Rightarrow> ('s, unit) prog"
    and readings :: "'s \<Rightarrow> nat"
  assumes attempts_0: "attempts 0 deadline = out_of_fuel"
    and attempts_Suc: "attempts (Suc n) deadline =
      try_except attempt
       (\<lambda>e. if \<not> is_exception e then throw e else if \<not> retryable e then throw e else
            bind (if limit \<le> Fin 0 0 then ret True else bind clock (\<lambda>now. ret (deadline \<le> now)))
              (\<lambda>over. if over then throw e else seq again (attempts n deadline)))"
    and total: "fuel_free attempt" "fuel_free again" "fuel_free clock"
    and clock_readings: "readings (snd (clock s)) = Suc (readings s)"
    and readings_mono: "readings s \<le> readings (snd (attempt s))" "readings s \<le> readings (snd (again s))"
begin

text \<open>The clock passes the deadline after a number of readings.\<close>

definition passes :: "nat \<Rightarrow> pyfloat \<Rightarrow> bool" where
  "passes N deadline \<longleftrightarrow>
     (\<forall>s now. N \<le> readings s \<and> fst (clock s) = Returns now \<longrightarrow> deadline \<le> now)"

lemma attempts_total:
  assumes "passes N deadline" and "N - readings s < n"
  shows "fst (attempts n deadline s) \<noteq> NoFuel"
  using assms(2)
proof (induction n arbitrary: s)
  case (Suc n)
  let ?s1 = "snd (attempt s)"
  let ?s2 = "snd (clock ?s1)"
  let ?s3 = "snd (again ?s2)"
  have m: "readings s < readings ?s3"
    using readings_mono(1) [of s] clock_readings [of ?s1] readings_mono(2) [of ?s2] by simp
  note free = fuel_freeD [OF total(1), of s] fuel_freeD [OF total(3), of ?s1]
    fuel_freeD [OF total(2), of ?s2]
  have over: "deadline \<le> now" if "fst (clock ?s1) = Returns now" "N \<le> readings s" for now
    using assms(1) that readings_mono(1) [of s] unfolding passes_def by (meson le_trans)
  have rec: "fst (attempts n deadline ?s3) \<noteq> NoFuel" if "\<not> N \<le> readings s"
    using Suc.IH [of ?s3] Suc.prems m that by linarith
  show ?case
    unfolding attempts_Suc
    using free over rec by (auto simp: prog_simps split: outcome.split)
qed simp

text \<open>Without a time limit there is one attempt.\<close>

lemma single_attempt: "limit \<le> Fin 0 0 \<Longrightarrow> attempts (Suc n) deadline = attempt"
  by (rule ext) (auto simp: attempts_Suc prog_simps prod_eq_iff split: outcome.split)

text \<open>What every failed attempt and every retry keep, and a successful attempt gives.\<close>

lemma attempts_hoare:
  assumes "hoare I attempt (\<lambda>r s. case r of Returns _ \<Rightarrow> Q s | Raises e \<Rightarrow> J e s | NoFuel \<Rightarrow> False)"
    and "\<And>e. preserves (J e) clock" and "\<And>e. hoare (J e) again (\<lambda>r s. case r of Returns _ \<Rightarrow> I s | _ \<Rightarrow> True)"
  shows "hoare I (attempts n deadline) (\<lambda>r s. r = Returns () \<longrightarrow> Q s)"
proof (induction n)
  case 0
  show ?case by (simp add: attempts_0 hoare_def prog_simps)
next
  case (Suc n)
  have retry: "hoare (J e) (seq again (attempts n deadline)) (\<lambda>r s. r = Returns () \<longrightarrow> Q s)" for e
    by (rule hoare_seq [OF assms(3)]) (simp_all add: Suc)
  have rest: "hoare (J e) (bind (if limit \<le> Fin 0 0 then ret True else bind clock (\<lambda>now. ret (deadline \<le> now)))
      (\<lambda>over. if over then throw e else seq again (attempts n deadline)))
      (\<lambda>r s. r = Returns () \<longrightarrow> Q s)" for e
    by (rule hoare_step_bind)
      (auto intro!: pres_rules assms(2) hoare_if hoare_throw retry)
  show ?case
    unfolding attempts_Suc
    by (rule hoare_try_except [OF assms(1)]; (simp only: outcome.case)?; (intro hoare_if hoare_throw rest)?; simp)
qed

end

end
