(* ===== verification/MQ_Connection_Inv.thy ===== *)
theory MQ_Connection_Inv
  imports MQ_Messaging
begin

text \<open>
  The library of facts about \<open>AsyncMQConnection\<close>: which calls a program makes, what it
  does to the connection object, and the invariant that every handle the connection holds
  belongs to the queue manager it is connected to. The properties about the connection
  rest on these lemmas.
\<close>

section \<open>Symbolic execution\<close>

lemma on_world_apply [prog_simps]: "on_world m s = (fst (m (snd s)), (fst s, snd (m (snd s))))"
  by (simp add: on_world_def split: prod.split)

lemma getc_apply [prog_simps]: "getc f s = (Returns (f (fst s)), s)"
  by (simp add: getc_def gets_def)

lemma updc_apply [prog_simps]: "updc f s = (Returns (), (f (fst s), snd s))"
  by (simp add: updc_def modify_def)

lemma load_apply [prog_simps]:
  "load L s = (case load_ibmmq L of Inl e \<Rightarrow> (Raises e, s) | Inr x \<Rightarrow> (Returns (), s))"
  by (simp add: load_def prog_simps split: sum.split)

lemma load_available [simp]: "mq_available L \<Longrightarrow> load L s = (Returns (), s)"
  by (simp add: load_apply mq_available_def)

lemma call_unit_apply [prog_simps]:
  "call_unit L x s = (case ans_unit L (snd s) x of
      Inl e \<Rightarrow> (Raises e, (fst s, record_call x False (snd s)))
    | Inr u \<Rightarrow> (Returns (), (fst s, record_call x True (snd s))))"
  by (simp add: call_unit_def prog_simps split: sum.split)

lemma call_object_apply [prog_simps]:
  "call_object L x s = (case ans_unit L (snd s) x of
      Inl e \<Rightarrow> (Raises e, (fst s, record_call x False (snd s)))
    | Inr u \<Rightarrow> (Returns (length (history (snd s))), (fst s, record_call x True (snd s))))"
  by (simp add: call_object_def prog_simps split: sum.split)

lemma set_environ_apply [prog_simps]:
  "set_environ v s = (Returns (), (fst s, (snd s)\<lparr>AMQ_TLS_ENVIRONMENT_SCOPE := v\<rparr>))"
  by (simp add: set_environ_def prog_simps)

text \<open>Runs of the connection's primitives that return.\<close>

lemma on_world_run [run_simps]:
  "on_world m s = (Returns y, t) \<longleftrightarrow> (\<exists>w. m (snd s) = (Returns y, w) \<and> t = (fst s, w))"
  by (cases "m (snd s)") (auto simp: on_world_apply)

lemma getc_run [run_simps]: "getc f s = (Returns y, t) \<longleftrightarrow> y = f (fst s) \<and> t = s"
  by (auto simp: getc_apply)

lemma updc_run [run_simps]: "updc f s = (Returns y, t) \<longleftrightarrow> t = (f (fst s), snd s)"
  by (auto simp: updc_apply)

lemma load_run [run_simps]: "load L s = (Returns y, t) \<longleftrightarrow> mq_available L \<and> t = s"
  by (auto simp: load_apply mq_available_def split: sum.split)

lemma call_lib_run [run_simps]:
  "call_lib ans x w = (Returns y, w') \<longleftrightarrow> ans w x = Inr y \<and> w' = record_call x True w"
  by (auto simp: call_lib_apply split: sum.split)

lemma call_unit_run [run_simps]:
  "call_unit L x s = (Returns y, t) \<longleftrightarrow>
     ans_unit L (snd s) x = Inr () \<and> t = (fst s, record_call x True (snd s))"
  by (auto simp: call_unit_apply split: sum.split)

lemma call_object_run [run_simps]:
  "call_object L x s = (Returns y, t) \<longleftrightarrow>
     ans_unit L (snd s) x = Inr () \<and> y = length (history (snd s))
     \<and> t = (fst s, record_call x True (snd s))"
  by (auto simp: call_object_apply split: sum.split)

section \<open>Assertions that recording a call cannot break\<close>

text \<open>
  \<open>log_stable P I\<close>: the assertion \<open>I\<close> survives the record of any call in the class \<open>P\<close>. Programs
  that only make such calls and leave the connection object alone preserve it.
\<close>

definition log_stable :: "(call \<Rightarrow> bool) \<Rightarrow> (cst \<Rightarrow> bool) \<Rightarrow> bool" where
  "log_stable P I \<longleftrightarrow> (\<forall>c w x b. P x \<longrightarrow> I (c, w) \<longrightarrow> I (c, record_call x b w))"

lemma log_stable_weaken: "log_stable P I \<Longrightarrow> (\<And>x. Q x \<Longrightarrow> P x) \<Longrightarrow> log_stable Q I"
  by (auto simp: log_stable_def)

lemma pres_getc [pres_rules]: "preserves I (getc f)"
  by (simp add: preserves_def prog_simps)

lemma pres_load [pres_rules]: "preserves I (load L)"
  by (auto simp: preserves_def prog_simps split: sum.split)

lemma pres_updc: "(\<And>c w. I (c, w) \<Longrightarrow> I (f c, w)) \<Longrightarrow> preserves I (updc f)"
  by (auto simp: preserves_def prog_simps)

lemma pres_call [pres_rules]:
  "log_stable P I \<Longrightarrow> P x \<Longrightarrow> preserves I (on_world (call_lib ans x))"
  by (auto simp: preserves_def prog_simps log_stable_def split: sum.split)

lemma pres_call_unit [pres_rules]: "log_stable P I \<Longrightarrow> P x \<Longrightarrow> preserves I (call_unit L x)"
  unfolding call_unit_def by (rule pres_call)

lemma pres_call_object [pres_rules]: "log_stable P I \<Longrightarrow> P x \<Longrightarrow> preserves I (call_object L x)"
  by (auto simp: preserves_def prog_simps log_stable_def split: sum.split)

lemma pres_world_gets [pres_rules]: "preserves I (on_world (gets f))"
  by (simp add: preserves_def prog_simps)

text \<open>The same inside a function with local variables.\<close>

lemma pres_getl [pres_rules]: "preserves (\<lambda>sl. I (fst sl)) (outside (getc f))"
  by (intro pres_rules)

section \<open>What each part of the connection may call\<close>

text \<open>Calls that neither move a message nor touch the transaction or a temporary file.\<close>

fun is_handle_call :: "call \<Rightarrow> bool" where
  "is_handle_call (GetProperty h n v) = True"
| "is_handle_call (SetProperty h n v) = True"
| "is_handle_call (NewMessageHandle q) = True"
| "is_handle_call (DeleteHandle h) = True"
| "is_handle_call c = False"

fun is_link_call :: "call \<Rightarrow> bool" where
  "is_link_call NewQueueManager = True"
| "is_link_call (ConnectTcpClient q n d a b u p o1 s) = True"
| "is_link_call (ConnectWithOptions q n o1 u p d s) = True"
| "is_link_call (Disconnect q) = True"
| "is_link_call (OpenQueue q n opts) = True"
| "is_link_call (CloseQueue h) = True"
| "is_link_call (MkDTemp p) = True"
| "is_link_call (WriteFile f b) = True"
| "is_link_call (RmTree d) = True"
| "is_link_call c = False"

lemma pres_get_property [pres_rules]:
  "log_stable is_handle_call I \<Longrightarrow> preserves I (get_property L h opts n)"
  unfolding get_property_def by (rule pres_rules | assumption | simp)+

lemma pres_case_exn [pres_rules]:
  "(\<And>r n. e = MQMIError r n \<Longrightarrow> preserves I (f r n)) \<Longrightarrow> preserves I d \<Longrightarrow>
     preserves I (case e of MQMIError r n \<Rightarrow> f r n | _ \<Rightarrow> d)"
  by (cases e) auto

lemma pres_next_property [pres_rules]:
  "log_stable is_handle_call I \<Longrightarrow> preserves I (next_property L h opts n)"
  unfolding next_property_def by (rule pres_rules | assumption | simp)+

lemma pres_read_headers_loop [pres_rules]:
  "log_stable is_handle_call I \<Longrightarrow> preserves I (read_headers_loop L fuel h n opts hs)"
proof (induction fuel arbitrary: opts hs)
  case 0
  show ?case unfolding read_headers_loop.simps by (intro pres_rules)
next
  case (Suc fuel)
  show ?case unfolding read_headers_loop.simps
    by (rule pres_rules Suc | assumption | simp add: Suc.prems)+
qed

lemma pres_read_headers [pres_rules]:
  "log_stable is_handle_call I \<Longrightarrow> preserves I (read_headers L fuel h n)"
  unfolding read_headers_def by (rule pres_rules | assumption | simp)+

lemma pres_set_properties [pres_rules]:
  "log_stable is_handle_call I \<Longrightarrow> preserves I (set_properties L F h hs)"
  unfolding set_properties_def by (rule pres_rules | assumption | simp)+

section \<open>The connection invariant\<close>

fun is_connect :: "nat \<Rightarrow> call \<Rightarrow> bool" where
  "is_connect q (ConnectTcpClient q' n d a b u p o1 s) \<longleftrightarrow> q' = q"
| "is_connect q (ConnectWithOptions q' n o1 u p d s) \<longleftrightarrow> q' = q"
| "is_connect q c \<longleftrightarrow> False"

fun is_disconnect :: "call \<Rightarrow> bool" where
  "is_disconnect (Disconnect q) = True"
| "is_disconnect c = False"

text \<open>
  A queue manager object is live when it was created and connected and nothing has tried
  to disconnect it. Every disconnection names an object that already exists.
\<close>

definition live_qmgr :: "history \<Rightarrow> nat \<Rightarrow> bool" where
  "live_qmgr h q \<longleftrightarrow> q < length h \<and> h ! q = (NewQueueManager, True)
     \<and> (\<exists>x. is_connect q x \<and> (x, True) \<in> set h)
     \<and> (\<forall>b. (Disconnect q, b) \<notin> set h)"

definition open_input :: "mqlib \<Rightarrow> history \<Rightarrow> nat \<Rightarrow> string \<Rightarrow> nat \<Rightarrow> bool" where
  "open_input L h q n i \<longleftrightarrow> i < length h \<and> h ! i = (OpenQueue q n (MQOO_INPUT_AS_Q_DEF (CMQC L)), True)"

definition history_ok :: "history \<Rightarrow> bool" where
  "history_ok h \<longleftrightarrow> (\<forall>q b. (Disconnect q, b) \<in> set h \<longrightarrow> q < length h)"

definition qmgr_ok :: "mqlib \<Rightarrow> cst \<Rightarrow> bool" where
  "qmgr_ok L s \<longleftrightarrow> history_ok (history (snd s))
     \<and> (\<forall>q. qmgr (fst s) = Some q \<longrightarrow> mq_available L \<and> live_qmgr (history (snd s)) q)"

definition conn_ok_named :: "mqlib \<Rightarrow> string \<Rightarrow> cst \<Rightarrow> bool" where
  "conn_ok_named L n s \<longleftrightarrow> qmgr_ok L s
     \<and> (\<forall>i. consumer_queue (fst s) = Some i \<longrightarrow>
          (\<exists>q. qmgr (fst s) = Some q \<and> open_input L (history (snd s)) q n i))"

definition conn_ok :: "mqlib \<Rightarrow> cst \<Rightarrow> bool" where
  "conn_ok L s \<longleftrightarrow> conn_ok_named L (consumer_queue_name (fst s)) s"

lemmas conn_ok_defs = conn_ok_def conn_ok_named_def qmgr_ok_def

lemma live_qmgr_append [simp]:
  "live_qmgr h q \<Longrightarrow> (\<And>b. (Disconnect q, b) \<notin> set k) \<Longrightarrow> live_qmgr (h @ k) q"
  by (auto simp: live_qmgr_def nth_append)

lemma open_input_append [simp]: "open_input L h q n i \<Longrightarrow> open_input L (h @ k) q n i"
  by (auto simp: open_input_def nth_append)

lemma history_ok_append [simp]:
  "history_ok h \<Longrightarrow> \<not> is_disconnect x \<Longrightarrow> history_ok (h @ [(x, b)])"
  by (fastforce simp: history_ok_def)

lemma history_ok_disconnect [simp]:
  "history_ok h \<Longrightarrow> q < length h \<Longrightarrow> history_ok (h @ [(Disconnect q, b)])"
  by (fastforce simp: history_ok_def)

lemma live_qmgr_less [simp]: "live_qmgr h q \<Longrightarrow> q < length h"
  by (simp add: live_qmgr_def)

lemma qmgr_ok_record: "qmgr_ok L (c, w) \<Longrightarrow> \<not> is_disconnect x \<Longrightarrow> qmgr_ok L (c, record_call x b w)"
  by (auto simp: qmgr_ok_def intro!: live_qmgr_append)

lemma conn_ok_named_record:
  "conn_ok_named L n (c, w) \<Longrightarrow> \<not> is_disconnect x \<Longrightarrow> conn_ok_named L n (c, record_call x b w)"
  unfolding conn_ok_named_def by (auto simp: qmgr_ok_record)

text \<open>No call but a disconnection can break the invariant.\<close>

abbreviation harmless :: "call \<Rightarrow> bool" where
  "harmless x \<equiv> \<not> is_disconnect x"

lemma log_stable_qmgr_ok [simp]: "log_stable harmless (qmgr_ok L)"
  by (simp add: log_stable_def qmgr_ok_record)

lemma log_stable_conn_ok_named [simp]: "log_stable harmless (conn_ok_named L n)"
  by (simp add: log_stable_def conn_ok_named_record)

lemma log_stable_conn_ok [simp]: "log_stable harmless (conn_ok L)"
  by (auto simp: log_stable_def conn_ok_def conn_ok_named_record)

section \<open>Operations that keep it\<close>

lemma pres_on_world [pres_rules]:
  "(\<And>c. preserves (\<lambda>w. I (c, w)) m) \<Longrightarrow> preserves I (on_world m)"
  by (auto simp: preserves_def prog_simps)

lemma pres_world_call [pres_rules]:
  "log_stable P I \<Longrightarrow> P x \<Longrightarrow> preserves (\<lambda>w. I (c, w)) (call_lib ans x)"
  by (rule pres_call_lib) (simp add: log_stable_def)

lemma pres_prepare_tls_config [pres_rules]:
  "log_stable harmless I \<Longrightarrow> preserves (\<lambda>w. I (c, w)) (prepare_tls_config L t)"
  unfolding prepare_tls_config_def by (rule pres_rules | assumption | simp)+

lemma pres_cleanup_prepared_tls [pres_rules]:
  "log_stable harmless I \<Longrightarrow> preserves (\<lambda>w. I (c, w)) (cleanup_prepared_tls p)"
  unfolding cleanup_prepared_tls_def by (rule pres_rules | assumption | simp)+

text \<open>Assertions that do not look at the prepared TLS configuration or the environment.\<close>

definition tls_blind :: "(cst \<Rightarrow> bool) \<Rightarrow> bool" where
  "tls_blind I \<longleftrightarrow> (\<forall>c w p v. I (c, w) \<longrightarrow> I (c\<lparr>prepared_tls := p\<rparr>, w)
     \<and> I (c, w\<lparr>AMQ_TLS_ENVIRONMENT_SCOPE := v\<rparr>))"

lemma pres_set_prepared [pres_rules]:
  "tls_blind I \<Longrightarrow> preserves I (updc (\<lambda>c. c\<lparr>prepared_tls := p\<rparr>))"
  by (simp add: preserves_def prog_simps tls_blind_def)

lemma pres_set_environ [pres_rules]: "tls_blind I \<Longrightarrow> preserves I (set_environ v)"
  by (simp add: preserves_def prog_simps tls_blind_def)

lemma tls_blind_ok [simp]:
  "tls_blind (qmgr_ok L)" "tls_blind (conn_ok_named L n)" "tls_blind (conn_ok L)"
  by (simp_all add: tls_blind_def conn_ok_defs)

lemma pres_build_tls_options [pres_rules]:
  "log_stable harmless I \<Longrightarrow> tls_blind I \<Longrightarrow> preserves I (build_tls_options L)"
  unfolding build_tls_options_def prepare_tls_def
  by (rule pres_rules | assumption | simp)+

lemma pres_connect_call [pres_rules]:
  "log_stable harmless I \<Longrightarrow> preserves I (connect_call L cfg qm o1 d sc)"
  unfolding connect_call_def by (rule pres_rules | assumption | simp)+

text \<open>Connecting while there is no queue manager.\<close>

definition fresh_qmgr :: "mqlib \<Rightarrow> nat \<Rightarrow> cst \<Rightarrow> bool" where
  "fresh_qmgr L q s \<longleftrightarrow> qmgr_ok L s \<and> consumer_queue (fst s) = None \<and> mq_available L
     \<and> q < length (history (snd s)) \<and> history (snd s) ! q = (NewQueueManager, True)
     \<and> (\<forall>b. (Disconnect q, b) \<notin> set (history (snd s)))"

definition connected_qmgr :: "mqlib \<Rightarrow> nat \<Rightarrow> cst \<Rightarrow> bool" where
  "connected_qmgr L q s \<longleftrightarrow> qmgr_ok L s \<and> consumer_queue (fst s) = None \<and> mq_available L
     \<and> live_qmgr (history (snd s)) q"

lemma log_stable_fresh_qmgr [simp]: "log_stable harmless (fresh_qmgr L q)"
  by (fastforce simp: log_stable_def fresh_qmgr_def nth_append qmgr_ok_record)

lemma tls_blind_fresh_qmgr [simp]: "tls_blind (fresh_qmgr L q)"
  by (simp add: tls_blind_def fresh_qmgr_def qmgr_ok_def)

lemma call_unit_connects:
  assumes "fresh_qmgr L qm s" and "is_connect qm x" and "fst (call_unit L x s) = Returns ()"
  shows "connected_qmgr L qm (snd (call_unit L x s))"
proof -
  have x: "\<not> is_disconnect x" using assms(2) by (cases x) auto
  have s: "snd (call_unit L x s) = (fst s, record_call x True (snd s))"
    using assms(3) by (auto simp: call_unit_apply split: sum.splits)
  have "qmgr_ok L (fst s, record_call x True (snd s))"
    using assms(1) x by (cases s) (auto simp: fresh_qmgr_def intro: qmgr_ok_record)
  moreover have "live_qmgr (history (snd s) @ [(x, True)]) qm"
    using assms(1,2) x by (fastforce simp: fresh_qmgr_def live_qmgr_def nth_append)
  ultimately show ?thesis
    using assms(1) by (simp add: s connected_qmgr_def fresh_qmgr_def)
qed

text \<open>A connect call that returns has made exactly one call, with the given object.\<close>

lemma connect_call_cases:
  "(\<exists>x. is_connect qm x \<and> connect_call L cfg qm o1 d sc s = call_unit L x s)
   \<or> (\<exists>e. connect_call L cfg qm o1 d sc s = (Raises e, s))"
proof (cases "opt_truthy (ccdt_url cfg)")
  case True
  let ?x = "ConnectWithOptions qm (queue_manager cfg) o1 (username cfg) (password cfg)
      (if truthy (SSLCipherSpec d) \<or> truthy (SSLPeerNamePtr d) then Some d else None) sc"
  have "connect_call L cfg qm o1 d sc s = call_unit L ?x s"
    using True by (simp only: connect_call_def if_True)
  moreover have "is_connect qm ?x" by simp
  ultimately show ?thesis by blast
next
  case False
  let ?d = "\<lambda>v. case v of None \<Rightarrow> d | Some v \<Rightarrow> d\<lparr>DefReconnect := Some v\<rparr>"
  let ?x = "\<lambda>v. ConnectTcpClient qm (queue_manager cfg) (?d v) (the (channel cfg))
      (the (conn_name cfg)) (username cfg) (password cfg) o1 sc"
  have "(\<exists>v. connect_call L cfg qm o1 d sc s = call_unit L (?x v) s)
      \<or> (\<exists>e. connect_call L cfg qm o1 d sc s = (Raises e, s))"
    unfolding connect_call_def
    by (simp add: False bind_apply seq_apply lift_sum_apply assert_that_apply Let_def split: sum.split)
      blast
  moreover have "is_connect qm (?x v)" for v by simp
  ultimately show ?thesis by blast
qed

lemma connect_call_connects:
  assumes "fresh_qmgr L qm s" and "fst (connect_call L cfg qm o1 d sc s) = Returns ()"
  shows "connected_qmgr L qm (snd (connect_call L cfg qm o1 d sc s))"
  using connect_call_cases [of qm L cfg o1 d sc s] assms by (auto dest: call_unit_connects)

definition connecting :: "mqlib \<Rightarrow> nat \<Rightarrow> cst \<Rightarrow> bool" where
  "connecting L q s \<longleftrightarrow> fresh_qmgr L q s \<and> qmgr (fst s) = None"

definition connect_post :: "mqlib \<Rightarrow> nat \<Rightarrow> unit outcome \<Rightarrow> cst \<Rightarrow> bool" where
  "connect_post L q r s \<longleftrightarrow> qmgr_ok L s \<and> consumer_queue (fst s) = None
     \<and> qmgr (fst s) = (if r = Returns () then Some q else None)"

lemma log_stable_connecting [simp]: "log_stable harmless (connecting L q)"
  using log_stable_fresh_qmgr by (auto simp: log_stable_def connecting_def)

lemma tls_blind_connecting [simp]: "tls_blind (connecting L q)"
  using tls_blind_fresh_qmgr by (auto simp: tls_blind_def connecting_def)

lemma log_stable_connect_post [simp]: "log_stable harmless (connect_post L q r)"
  by (auto simp: log_stable_def connect_post_def qmgr_ok_record)

lemma tls_blind_connect_post [simp]: "tls_blind (connect_post L q r)"
  by (auto simp: tls_blind_def connect_post_def qmgr_ok_def)

lemma connecting_post: "connecting L q s \<Longrightarrow> r \<noteq> Returns () \<Longrightarrow> connect_post L q r s"
  by (simp add: connecting_def connect_post_def fresh_qmgr_def)

lemma connect_try:
  "hoare (connecting L qm)
     (seq (bind (getc tls_scope) (\<lambda>scope. when_do (scope \<noteq> None) (set_environ scope)))
     (seq (connect_call L cfg qm o1 d sc) (updc (\<lambda>c. c\<lparr>qmgr := Some qm\<rparr>))))
     (connect_post L qm)"
proof (rule hoare_step_seq)
  show "preserves (connecting L qm)
      (bind (getc tls_scope) (\<lambda>scope. when_do (scope \<noteq> None) (set_environ scope)))"
    by (rule pres_rules | simp)+
  show "hoare (connecting L qm) (seq (connect_call L cfg qm o1 d sc) (updc (\<lambda>c. c\<lparr>qmgr := Some qm\<rparr>)))
      (connect_post L qm)"
  proof (rule hoareI)
    fix s assume s: "connecting L qm s"
    let ?m = "connect_call L cfg qm o1 d sc"
    have keep: "connecting L qm (snd (?m s))"
      by (rule preservesD [where I = "connecting L qm"]) (simp_all add: pres_connect_call s)
    show "connect_post L qm (fst (seq ?m (updc (\<lambda>c. c\<lparr>qmgr := Some qm\<rparr>)) s))
        (snd (seq ?m (updc (\<lambda>c. c\<lparr>qmgr := Some qm\<rparr>)) s))"
    proof (cases "fst (?m s)")
      case (Returns u)
      then have "connected_qmgr L qm (snd (?m s))"
        using s by (intro connect_call_connects) (auto simp: connecting_def)
      with Returns show ?thesis
        by (auto simp: prog_simps connect_post_def connected_qmgr_def qmgr_ok_def)
    qed (use keep in \<open>auto simp: prog_simps intro: connecting_post\<close>)
  qed
qed (auto intro: connecting_post)

lemma connect_post_raise: "connect_post L q (Raises e) s \<longleftrightarrow> connect_post L q (Raises e') s"
  by (simp add: connect_post_def)

lemma hoare_connect_body: "hoare (connecting L qm) (connect_body L cfg qm o1 d sc) (connect_post L qm)"
  unfolding connect_body_def
proof (rule hoare_step_bind)
  fix old
  let ?h = "\<lambda>e. if is_exception e
       then seq (bind (getc prepared_tls) (\<lambda>p. on_world (cleanup_prepared_tls p)))
             (seq (updc (\<lambda>c. c\<lparr>prepared_tls := None\<rparr>)) (throw e))
       else throw e"
  let ?f = "bind (getc tls_scope) (\<lambda>scope. when_do (scope \<noteq> None) (set_environ old))"
  let ?m = "try_except (seq (bind (getc tls_scope) (\<lambda>scope. when_do (scope \<noteq> None) (set_environ scope)))
     (seq (connect_call L cfg qm o1 d sc) (updc (\<lambda>c. c\<lparr>qmgr := Some qm\<rparr>)))) ?h"
  have pf: "preserves (connect_post L qm r) ?f" for r
    by (rule pres_rules | simp)+
  have ph: "preserves (connect_post L qm r) (?h e)" for r e
    by (rule pres_rules | simp)+
  have rh: "fst (?h e s) \<noteq> Returns ()" for e s
    by (simp add: prog_simps split: outcome.split)
  have h: "hoare (connect_post L qm (Raises e)) (?h e) (connect_post L qm)" for e
  proof (rule hoareI)
    fix s assume "connect_post L qm (Raises e) s"
    then have "connect_post L qm (Raises e) (snd (?h e s))"
      by (rule preservesD [where I = "connect_post L qm (Raises e)", OF ph])
    with rh [of e s] show "connect_post L qm (fst (?h e s)) (snd (?h e s))"
      by (simp add: connect_post_def)
  qed
  have f: "fst (?f s) = Returns ()" for s by (simp add: prog_simps)
  show "hoare (connecting L qm) (try_finally ?m ?f) (connect_post L qm)"
  proof (rule hoare_try_finally)
    show "hoare (connecting L qm) ?m (connect_post L qm)"
      by (rule hoare_try_except [OF connect_try h]) auto
    show "hoare (connect_post L qm r) ?f (\<lambda>r' s. case r' of Returns _ \<Rightarrow> connect_post L qm r s
        | Raises e \<Rightarrow> connect_post L qm (Raises e) s | NoFuel \<Rightarrow> connect_post L qm NoFuel s)" for r
      using pf [of r] f by (simp add: hoare_def preserves_def)
  qed
qed (auto intro: pres_rules connecting_post)

definition idle :: "mqlib \<Rightarrow> nat \<Rightarrow> cst \<Rightarrow> bool" where
  "idle L N s \<longleftrightarrow> qmgr_ok L s \<and> consumer_queue (fst s) = None \<and> qmgr (fst s) = None
     \<and> N \<le> length (history (snd s))"

definition reconnected :: "mqlib \<Rightarrow> nat \<Rightarrow> unit outcome \<Rightarrow> cst \<Rightarrow> bool" where
  "reconnected L N r s \<longleftrightarrow> qmgr_ok L s \<and> consumer_queue (fst s) = None
     \<and> (if r = Returns () then \<exists>q \<ge> N. qmgr (fst s) = Some q else qmgr (fst s) = None)"

lemma idle_reconnected: "idle L N s \<Longrightarrow> r \<noteq> Returns () \<Longrightarrow> reconnected L N r s"
  by (simp add: idle_def reconnected_def)

lemma connecting_reconnected: "connecting L q s \<Longrightarrow> r \<noteq> Returns () \<Longrightarrow> reconnected L N r s"
  by (simp add: connecting_def reconnected_def fresh_qmgr_def)

lemma new_qmgr_connecting:
  assumes "idle L N s" and "mq_available L" and "fst (call_object L NewQueueManager s) = Returns q"
  shows "connecting L q (snd (call_object L NewQueueManager s)) \<and> N \<le> q"
proof -
  have q: "q = length (history (snd s))"
    and s: "snd (call_object L NewQueueManager s) = (fst s, record_call NewQueueManager True (snd s))"
    using assms(3) by (auto simp: call_object_apply split: sum.splits)
  have "qmgr_ok L (fst s, record_call NewQueueManager True (snd s))"
    using assms(1) by (cases s) (simp add: idle_def qmgr_ok_record)
  moreover have "(Disconnect q, b) \<notin> set (history (snd s))" for b
    using assms(1) by (auto simp: idle_def qmgr_ok_def history_ok_def q)
  ultimately show ?thesis
    using assms(1,2) by (auto simp: s idle_def connecting_def fresh_qmgr_def q)
qed

lemma hoare_connect_sync:
  "hoare (idle L N) (connect_sync L) (reconnected L N)"
proof (rule hoareI)
  fix s assume s: "idle L N s"
  define rest where "rest qm = bind (getc connection_config) (\<lambda>cfg.
      bind (lift_sum (build_cno L cfg)) (\<lambda>o1.
      bind (build_tls_options L) (\<lambda>(d, sc). connect_body L cfg qm o1 d sc)))" for qm
  have c: "connect_sync L s = seq (load L) (bind (call_object L NewQueueManager) rest) s"
    using s by (simp add: connect_sync_def rest_def [abs_def] bind_apply getc_apply idle_def)
  have rest: "hoare (connecting L q) (rest q) (connect_post L q)" for q
    unfolding rest_def
    by (rule hoare_step_bind pres_rules hoare_connect_body log_stable_connecting tls_blind_connecting
        | (simp add: connecting_post split: prod.split; fail) 
        | clarsimp simp: hoare_connect_body split: prod.split)+
  show "reconnected L N (fst (connect_sync L s)) (snd (connect_sync L s))"
  proof (cases rule: load_ibmmq_cases [of L])
    case 1
    show ?thesis
    proof (cases "fst (call_object L NewQueueManager s)")
      case (Returns q)
      have "connecting L q (snd (call_object L NewQueueManager s))" "N \<le> q"
        using new_qmgr_connecting [OF s 1(1) Returns] by auto
      with hoare_apply [OF rest] Returns 1 show ?thesis
        by (auto simp: c seq_apply bind_apply connect_post_def reconnected_def)
    next
      case (Raises e)
      have "idle L N (snd (call_object L NewQueueManager s))"
        using s by (cases s) (auto simp: call_object_apply idle_def qmgr_ok_record split: sum.splits)
      with Raises 1 show ?thesis
        by (auto simp: c seq_apply bind_apply intro: idle_reconnected)
    next
      case NoFuel
      then show ?thesis by (simp add: call_object_apply split: sum.splits)
    qed
  next
    case (2 m)
    then show ?thesis using s by (simp add: c seq_apply load_apply idle_reconnected)
  qed
qed

section \<open>Closing, opening, recovering\<close>

definition weak_ok :: "mqlib \<Rightarrow> nat \<Rightarrow> cst \<Rightarrow> bool" where
  "weak_ok L N s \<longleftrightarrow> (\<exists>n. conn_ok_named L n s) \<and> N \<le> length (history (snd s))"

definition closed_ok :: "mqlib \<Rightarrow> nat \<Rightarrow> cst \<Rightarrow> bool" where
  "closed_ok L N s \<longleftrightarrow> qmgr_ok L s \<and> consumer_queue (fst s) = None \<and> N \<le> length (history (snd s))"

lemma conn_ok_weak: "conn_ok L s \<Longrightarrow> N \<le> length (history (snd s)) \<Longrightarrow> weak_ok L N s"
  by (auto simp: conn_ok_def weak_ok_def)

lemma closed_ok_conn_ok: "closed_ok L N s \<Longrightarrow> conn_ok L s"
  by (simp add: closed_ok_def conn_ok_defs)

lemma hoare_safe_close_consumer:
  "hoare (weak_ok L N) (safe_close_consumer_sync L) (\<lambda>_. closed_ok L N)"
  by (rule hoareI)
    (auto simp: safe_close_consumer_sync_def weak_ok_def closed_ok_def conn_ok_named_def prog_simps
      qmgr_ok_def split: option.splits sum.splits)

lemma hoare_safe_disconnect:
  "hoare (closed_ok L N) (safe_disconnect_qmgr_sync L) (\<lambda>_. idle L N)"
  by (rule hoareI)
    (auto simp: safe_disconnect_qmgr_sync_def closed_ok_def idle_def prog_simps
      qmgr_ok_def split: option.splits sum.splits)

lemma hoare_start_consumer_once:
  "hoare (weak_ok L N) (start_consumer_once L n) (\<lambda>_. conn_ok L)"
proof (rule hoareI)
  fix s assume s: "weak_ok L N s"
  show "conn_ok L (snd (start_consumer_once L n s))"
  proof (cases rule: load_ibmmq_cases [of L])
    case 1
    let ?t = "snd (safe_close_consumer_sync L s)"
    have t: "closed_ok L N ?t" using hoare_apply [OF hoare_safe_close_consumer s] .
    show ?thesis
    proof (cases "fst (safe_close_consumer_sync L s)")
      case (Returns u)
      with t 1 show ?thesis
        by (cases ?t)
          (auto simp: start_consumer_once_def prog_simps closed_ok_def conn_ok_defs open_input_def
            nth_append live_qmgr_append split: sum.split intro!: live_qmgr_append)
    qed (use t 1 in \<open>auto simp: start_consumer_once_def seq_apply intro: closed_ok_conn_ok\<close>)
  next
    case (2 m)
    then have "consumer_queue (fst s) = None"
      using s by (cases "consumer_queue (fst s)") (auto simp: weak_ok_def conn_ok_named_def qmgr_ok_def)
    then show ?thesis
      using s 2 by (auto simp: start_consumer_once_def seq_apply load_apply weak_ok_def conn_ok_defs)
  qed
qed

text \<open>
  Assertions that survive everything a reconnection does, except perhaps the change of
  the consumer queue's name: facts about the history, in the first place.
\<close>

definition link_stable :: "(cst \<Rightarrow> bool) \<Rightarrow> bool" where
  "link_stable I \<longleftrightarrow> log_stable is_link_call I \<and> tls_blind I
     \<and> (\<forall>c w q i. I (c, w) \<longrightarrow> I (c\<lparr>qmgr := q\<rparr>, w) \<and> I (c\<lparr>consumer_queue := i\<rparr>, w))"

lemma link_stableD [intro]:
  "link_stable I \<Longrightarrow> log_stable is_link_call I" "link_stable I \<Longrightarrow> tls_blind I"
  by (simp_all add: link_stable_def)

lemma pres_set_qmgr [pres_rules]:
  "link_stable I \<Longrightarrow> preserves I (updc (\<lambda>c. c\<lparr>qmgr := q\<rparr>))"
  by (rule pres_updc) (simp add: link_stable_def)

lemma pres_set_consumer [pres_rules]:
  "link_stable I \<Longrightarrow> preserves I (updc (\<lambda>c. c\<lparr>consumer_queue := i\<rparr>))"
  by (rule pres_updc) (simp add: link_stable_def)

lemma is_connect_link [simp]: "is_connect q x \<Longrightarrow> is_link_call x"
  by (cases x) auto

lemma pres_link_cleanup [pres_rules]:
  "link_stable I \<Longrightarrow> preserves I (on_world (cleanup_prepared_tls p))"
  unfolding cleanup_prepared_tls_def
  by (rule pres_rules link_stableD | assumption | simp)+

lemma pres_link_build_tls_options [pres_rules]:
  "link_stable I \<Longrightarrow> preserves I (build_tls_options L)"
  unfolding build_tls_options_def prepare_tls_def prepare_tls_config_def
  by (rule pres_rules link_stableD | assumption | simp)+

lemma pres_link_connect_sync: "link_stable I \<Longrightarrow> preserves I (connect_sync L)"
  unfolding connect_sync_def connect_body_def connect_call_def
  by (rule pres_rules link_stableD | assumption | simp)+

lemma pres_link_safe_close: "link_stable I \<Longrightarrow> preserves I (safe_close_consumer_sync L)"
  unfolding safe_close_consumer_sync_def
  by (rule pres_rules link_stableD | assumption | simp)+

lemma pres_link_safe_disconnect: "link_stable I \<Longrightarrow> preserves I (safe_disconnect_qmgr_sync L)"
  unfolding safe_disconnect_qmgr_sync_def
  by (rule pres_rules link_stableD | assumption | simp)+

lemma pres_set_consumer_and_name:
  "link_stable I \<Longrightarrow> (\<And>c w. I (c, w) \<Longrightarrow> I (c\<lparr>consumer_queue_name := n\<rparr>, w)) \<Longrightarrow>
     preserves I (updc (\<lambda>c. c\<lparr>consumer_queue := i, consumer_queue_name := n\<rparr>))"
  by (rule pres_updc) (simp add: link_stable_def)

lemma pres_link_start_once:
  assumes "link_stable I" and "\<And>c w. I (c, w) \<Longrightarrow> I (c\<lparr>consumer_queue_name := n\<rparr>, w)"
  shows "preserves I (start_consumer_once L n)"
  unfolding start_consumer_once_def
  by (rule pres_rules pres_link_safe_close link_stableD assms(1) pres_set_consumer_and_name
      | assumption | simp add: assms)+

lemma pres_link_recover:
  assumes "link_stable I" and "\<And>c w n. I (c, w) \<Longrightarrow> I (c\<lparr>consumer_queue_name := n\<rparr>, w)"
  shows "preserves I (recover_connection_sync L b)"
  unfolding recover_connection_sync_def
  by (rule pres_rules pres_link_safe_close pres_link_safe_disconnect pres_link_connect_sync
      pres_link_start_once link_stableD assms(1) | assumption | simp add: assms)+

lemma link_stable_name [simp]: "link_stable (\<lambda>s. consumer_queue_name (fst s) = n)"
  by (simp add: link_stable_def log_stable_def tls_blind_def)

lemma link_stable_history:
  "(\<And>h x b. is_link_call x \<Longrightarrow> J h \<Longrightarrow> J (h @ [(x, b)])) \<Longrightarrow> link_stable (\<lambda>s. J (history (snd s)))"
  by (simp add: link_stable_def log_stable_def tls_blind_def)

lemma link_stable_logged [simp]: "link_stable (\<lambda>s. x \<in> set (history (snd s)))"
  by (rule link_stable_history) simp

text \<open>
  What a recovery leaves behind, for a connection that started in a state with \<open>N\<close> calls
  on record: a queue manager created since then, and the consumer queue reopened on it.
\<close>

definition recovered :: "mqlib \<Rightarrow> nat \<Rightarrow> string \<Rightarrow> unit outcome \<Rightarrow> cst \<Rightarrow> bool" where
  "recovered L N n r s \<longleftrightarrow> conn_ok L s \<and>
     (if r = Returns () then
        (\<exists>q \<ge> N. qmgr (fst s) = Some q)
        \<and> (if n = [] then consumer_queue (fst s) = None
           else consumer_queue (fst s) \<noteq> None \<and> consumer_queue_name (fst s) = n)
      else consumer_queue (fst s) = None)"

lemma reconnected_start_once:
  "hoare (reconnected L N (Returns ())) (start_consumer_once L n)
     (\<lambda>r s. conn_ok L s \<and>
        (if r = Returns () then (\<exists>q \<ge> N. qmgr (fst s) = Some q)
           \<and> consumer_queue (fst s) \<noteq> None \<and> consumer_queue_name (fst s) = n
         else consumer_queue (fst s) = None))"
proof (rule hoareI)
  fix s assume s: "reconnected L N (Returns ()) s"
  then obtain q where q: "qmgr (fst s) = Some q" "N \<le> q" "consumer_queue (fst s) = None"
      "mq_available L"
    by (auto simp: reconnected_def qmgr_ok_def)
  have "conn_ok L s" using s by (simp add: reconnected_def conn_ok_defs)
  then have "conn_ok L (snd (start_consumer_once L n s))"
    by (intro hoare_apply [OF hoare_start_consumer_once] conn_ok_weak le0) auto
  then show "conn_ok L (snd (start_consumer_once L n s)) \<and>
        (if fst (start_consumer_once L n s) = Returns ()
         then (\<exists>q \<ge> N. qmgr (fst (snd (start_consumer_once L n s))) = Some q)
           \<and> consumer_queue (fst (snd (start_consumer_once L n s))) \<noteq> None
           \<and> consumer_queue_name (fst (snd (start_consumer_once L n s))) = n
         else consumer_queue (fst (snd (start_consumer_once L n s))) = None)"
    using q by (auto simp: start_consumer_once_def safe_close_consumer_sync_def prog_simps split: sum.splits)
qed

lemma hoare_recover_at:
  "hoare (\<lambda>s. weak_ok L N s \<and> consumer_queue_name (fst s) = n) (recover_connection_sync L b)
     (recovered L N (if b then n else []))"
proof (rule hoareI)
  fix s assume s: "weak_ok L N s \<and> consumer_queue_name (fst s) = n"
  let ?n = "if b then n else []"
  let ?m = "seq (safe_close_consumer_sync L) (seq (safe_disconnect_qmgr_sync L)
      (seq (connect_sync L) (when_do (?n \<noteq> []) (start_consumer_once L ?n))))"
  have m: "recover_connection_sync L b s = ?m s"
    using s by (simp add: recover_connection_sync_def bind_apply getc_apply Let_def)
  have "hoare (weak_ok L N) ?m (recovered L N ?n)"
  proof (rule hoare_seq [OF hoare_safe_close_consumer], rule hoare_seq [OF hoare_safe_disconnect],
      rule hoare_seq [OF hoare_connect_sync])
    show "hoare (reconnected L N (Returns ())) (when_do (?n \<noteq> []) (start_consumer_once L ?n))
        (recovered L N ?n)"
    proof (cases "?n = []")
      case True
      then show ?thesis
        by (auto simp: hoare_def when_do_apply reconnected_def recovered_def conn_ok_defs)
    next
      case False
      define k where "k = ?n"
      then have "k \<noteq> []" using False by simp
      then have "hoare (reconnected L N (Returns ())) (start_consumer_once L k) (recovered L N k)"
        by (intro hoare_post [OF reconnected_start_once]) (simp add: recovered_def)
      with \<open>k \<noteq> []\<close> have
        "hoare (reconnected L N (Returns ())) (when_do (k \<noteq> []) (start_consumer_once L k))
           (recovered L N k)"
        by (simp add: when_do_def)
      then show ?thesis unfolding k_def .
    qed
  qed (auto simp: recovered_def reconnected_def idle_def closed_ok_def conn_ok_defs)
  from hoare_apply [OF this] s
  show "recovered L N ?n (fst (recover_connection_sync L b s)) (snd (recover_connection_sync L b s))"
    unfolding m by blast
qed

lemma hoare_recover: "hoare (weak_ok L N) (recover_connection_sync L b) (\<lambda>_. conn_ok L)"
proof (rule hoareI)
  fix s assume "weak_ok L N s"
  then show "conn_ok L (snd (recover_connection_sync L b s))"
    using hoare_apply [OF hoare_recover_at [of L N "consumer_queue_name (fst s)" b], of s]
    by (simp add: recovered_def)
qed

lemma pres_recover [pres_rules]: "preserves (conn_ok L) (recover_connection_sync L b)"
  unfolding hoare_preserves_iff
  by (rule hoare_strengthen [OF hoare_recover [of L 0]]) (simp add: conn_ok_weak)

text \<open>The retry wrapper, for a function that establishes the invariant from a weaker one.\<close>

lemma pres_pause [pres_rules]: "preserves (conn_ok L) (call_unit L (Sleep pause))"
  by (rule pres_call_unit [OF log_stable_conn_ok]) simp

lemma hoare_run_with_reconnect:
  assumes "hoare I func (\<lambda>_. conn_ok L)" and "preserves (conn_ok L) func"
    and "\<not> mq_available L \<Longrightarrow> hoare I (ret ()) (\<lambda>_. conn_ok L)"
  shows "hoare I (run_with_reconnect_sync L func b) (\<lambda>_. conn_ok L)"
proof (cases rule: load_ibmmq_cases [of L])
  case 1
  have f: "hoare I (try_except (bind func (\<lambda>x. ret (Some x)))
      (\<lambda>e. if reconnectable L e then ret None else throw e)) (\<lambda>_. conn_ok L)"
    by (rule hoare_try_except [where R = "\<lambda>_. conn_ok L"], rule hoare_bind [OF assms(1)])
      (auto intro: hoare_ret hoare_throw)
  have "hoare I (bind (try_except (bind func (\<lambda>x. ret (Some x)))
      (\<lambda>e. if reconnectable L e then ret None else throw e))
       (\<lambda>r. case r of Some x \<Rightarrow> ret x
        | None \<Rightarrow> seq (recover_connection_sync L b) (seq (call_unit L (Sleep pause)) func)))
      (\<lambda>_. conn_ok L)"
    by (rule hoare_bind [OF f])
      (auto intro!: hoare_preserves pres_rules assms(2) split: option.split)
  moreover have "load L s = (Returns (), s)" for s using 1 by simp
  ultimately show ?thesis
    unfolding run_with_reconnect_sync_def hoare_def by (simp add: seq_apply)
next
  case (2 m)
  have l: "load L s = (Raises (ImportError m), s)" for s using 2(2) by (simp add: load_apply)
  from assms(3) 2(1) show ?thesis
    unfolding run_with_reconnect_sync_def by (simp add: hoare_def seq_apply l ret_apply)
qed

lemma pres_run_with_reconnect [pres_rules]:
  "preserves (conn_ok L) func \<Longrightarrow> preserves (conn_ok L) (run_with_reconnect_sync L func b)"
  unfolding hoare_preserves_iff by (rule hoare_run_with_reconnect) (auto simp: hoare_ret hoare_preserves_iff)

section \<open>The messaging operations\<close>

fun is_message_call :: "call \<Rightarrow> bool" where
  "is_message_call (OpenQueue q n opts) = True"
| "is_message_call (OpenDynamicQueue q m d opts) = True"
| "is_message_call (CloseQueue h) = True"
| "is_message_call (Put q b m p) = True"
| "is_message_call (Get q m g) = True"
| "is_message_call (Backout q) = True"
| "is_message_call x = is_handle_call x"

lemma message_calls [simp]:
  "is_handle_call x \<Longrightarrow> is_message_call x" "is_message_call x \<Longrightarrow> harmless x"
  by (cases x; simp)+

lemma log_stable_message [simp]: "log_stable is_message_call I \<Longrightarrow> log_stable is_handle_call I"
  by (auto simp: log_stable_def)

lemma log_stable_harmless [simp]: "log_stable harmless I \<Longrightarrow> log_stable is_message_call I"
  by (auto simp: log_stable_def)

lemma pres_on_qmgr [pres_rules]:
  "log_stable P I \<Longrightarrow> (\<And>q. P (f q)) \<Longrightarrow> preserves I (on_qmgr L f)"
  unfolding on_qmgr_def by (rule pres_rules | assumption | simp)+

lemma pres_mqmi [pres_rules]:
  "(\<And>r n. preserves I (f r n)) \<Longrightarrow> preserves I d \<Longrightarrow>
     preserves I (case e of MQMIError r n \<Rightarrow> f r n | _ \<Rightarrow> d)"
  by (cases e) auto

lemma pres_get_message_once:
  "log_stable is_message_call I \<Longrightarrow> preserves I (get_message_once L fuel t n)"
  unfolding get_message_once_def
  by (assumption | rule pres_rules log_stable_message | simp)+

lemma pres_publish_once:
  "log_stable is_message_call I \<Longrightarrow> preserves I (publish_once L F cmd ser)"
  unfolding publish_once_def
  by (assumption | rule pres_rules log_stable_message | simp)+

lemma pres_request_attempt_body:
  "log_stable is_message_call I \<Longrightarrow> preserves (\<lambda>sl. I (fst sl)) (request_attempt_body L cmd F b hs)"
  unfolding request_attempt_body_def
  by (assumption | rule pres_rules log_stable_message | simp)+

lemma pres_request_attempt_finally:
  "log_stable is_message_call I \<Longrightarrow> preserves (\<lambda>sl. I (fst sl)) (request_attempt_finally L)"
  unfolding request_attempt_finally_def
  by (assumption | rule pres_rules log_stable_message | simp)+

lemma pres_wait_for_reply:
  "log_stable is_message_call I \<Longrightarrow> preserves I (wait_for_reply_sync L fuel rq n mid t)"
  unfolding wait_for_reply_sync_def
  by (assumption | rule pres_rules log_stable_message | simp)+

lemma pres_request_attempt:
  "log_stable is_message_call I \<Longrightarrow> preserves I (recover_connection_sync L False) \<Longrightarrow>
     preserves I (call_unit L (Sleep pause)) \<Longrightarrow> preserves I (request_attempt L cmd F b hs l)"
  unfolding request_attempt_def
  by (assumption | rule pres_rules pres_request_attempt_body pres_request_attempt_finally)+

lemma pres_request_sync:
  "log_stable is_message_call I \<Longrightarrow> preserves I (recover_connection_sync L False) \<Longrightarrow>
     preserves I (call_unit L (Sleep pause)) \<Longrightarrow> preserves I (request_sync L F fuel cmd ser)"
  unfolding request_sync_def publish_request_sync_def
  by (assumption | rule pres_rules pres_request_attempt pres_wait_for_reply | simp)+

section \<open>Reachable states\<close>

lemma pres_started [pres_rules]: "preserves I m \<Longrightarrow> preserves I (started m)"
  unfolding started_def by (intro pres_rules)

lemma pres_message_ok:
  "preserves (conn_ok L) (get_message L fuel t n)"
  "preserves (conn_ok L) (publish L F cmd ser)"
  "preserves (conn_ok L) (request L F fuel cmd ser)"
  unfolding get_message_def get_message_sync_def publish_def publish_sync_def request_def
  by (rule pres_rules pres_get_message_once pres_publish_once pres_request_sync
      log_stable_harmless log_stable_conn_ok)+

lemma pres_settle_ok:
  "preserves (conn_ok L) (commit_once L)" "preserves (conn_ok L) (backout_once L)"
  "preserves (conn_ok L) (ping_once L)"
  unfolding commit_once_def backout_once_def ping_once_def
  by (rule pres_rules log_stable_conn_ok | simp)+

lemma pres_transaction_ok:
  "preserves (conn_ok L) (commit L)" "preserves (conn_ok L) (backout L)" "preserves (conn_ok L) (ping L)"
  unfolding commit_def commit_sync_def backout_def backout_sync_def ping_def ping_sync_def
  by (rule pres_rules pres_settle_ok | simp)+

lemma pres_executor [pres_rules]: "preserves (conn_ok L) (updc (\<lambda>c. c\<lparr>executor := b\<rparr>))"
  by (rule pres_updc) (simp add: conn_ok_defs)

lemma pres_connect_sync_ok: "preserves (conn_ok L) (connect_sync L)"
proof (rule preservesI)
  fix s assume s: "conn_ok L s"
  show "conn_ok L (snd (connect_sync L s))"
  proof (cases "qmgr (fst s)")
    case None
    then have "idle L 0 s" using s by (auto simp: idle_def conn_ok_defs)
    then have "reconnected L 0 (fst (connect_sync L s)) (snd (connect_sync L s))"
      by (rule hoare_apply [OF hoare_connect_sync])
    then show ?thesis by (simp add: reconnected_def conn_ok_defs)
  next
    case (Some q)
    then show ?thesis using s by (simp add: connect_sync_def prog_simps)
  qed
qed

lemma pres_connect_ok: "preserves (conn_ok L) (connect L)"
  unfolding connect_def by (intro pres_rules pres_connect_sync_ok)

lemma hoare_conn_close:
  "hoare (conn_ok L) (safe_close_consumer_sync L) (\<lambda>_. closed_ok L 0)"
  by (rule hoare_strengthen [OF hoare_safe_close_consumer]) (simp add: conn_ok_weak)

text \<open>Whatever way it ends, a disconnection holds no handle it did not hold before.\<close>

lemma pres_disconnect_ok: "preserves (conn_ok L) (disconnect L)"
proof -
  have "preserves (conn_ok L) (disconnect_sync L)"
    unfolding hoare_preserves_iff disconnect_sync_def
  proof (rule hoare_seq [OF hoare_conn_close], rule hoare_seq [OF hoare_safe_disconnect])
    have "preserves (idle L 0) (seq (bind (getc prepared_tls) (\<lambda>p. on_world (cleanup_prepared_tls p)))
        (updc (\<lambda>c. c\<lparr>prepared_tls := None\<rparr>)))"
    proof (intro pres_seq pres_bind pres_getc pres_on_world pres_cleanup_prepared_tls pres_set_prepared)
      show "log_stable harmless (idle L 0)" by (auto simp: log_stable_def idle_def qmgr_ok_record)
      show "tls_blind (idle L 0)" by (simp add: tls_blind_def idle_def qmgr_ok_def)
    qed
    then show "hoare (idle L 0) (seq (bind (getc prepared_tls) (\<lambda>p. on_world (cleanup_prepared_tls p)))
        (updc (\<lambda>c. c\<lparr>prepared_tls := None\<rparr>))) (\<lambda>_. conn_ok L)"
      unfolding hoare_preserves_iff
      by (rule hoare_post) (simp add: idle_def conn_ok_defs)
  qed (auto simp: closed_ok_def idle_def conn_ok_defs)
  then show ?thesis
    unfolding disconnect_def by (intro pres_rules)
qed

lemma pres_start_consumer_ok: "preserves (conn_ok L) (start_consumer L n)"
proof -
  have once: "preserves (conn_ok L) (start_consumer_once L n)"
    unfolding hoare_preserves_iff
    by (rule hoare_strengthen [OF hoare_start_consumer_once [of L 0]]) (simp add: conn_ok_weak)
  have run: "hoare (weak_ok L 0) (run_with_reconnect_sync L (start_consumer_once L n) True)
      (\<lambda>_. conn_ok L)"
  proof (rule hoare_run_with_reconnect [OF hoare_start_consumer_once once])
    show "hoare (weak_ok L 0) (ret ()) (\<lambda>_. conn_ok L)" if "\<not> mq_available L"
      using that by (auto simp: hoare_def prog_simps weak_ok_def conn_ok_defs)
  qed
  have set: "hoare (conn_ok L) (updc (\<lambda>c. c\<lparr>consumer_queue_name := n\<rparr>))
      (\<lambda>r s. r = Returns () \<and> weak_ok L 0 s)"
    by (auto simp: hoare_def prog_simps weak_ok_def conn_ok_defs)
  have "preserves (conn_ok L) (start_consumer_sync L n)"
    unfolding hoare_preserves_iff start_consumer_sync_def
    by (rule hoare_seq [OF set hoare_strengthen [OF run]]) auto
  then show ?thesis
    unfolding start_consumer_def by (rule pres_started)
qed

lemma pres_stop_consumer_ok: "preserves (conn_ok L) (stop_consumer L)"
proof -
  have "preserves (conn_ok L) (stop_consumer_sync L)"
    by (rule preservesI)
      (auto simp: stop_consumer_sync_def prog_simps conn_ok_defs split: option.splits sum.splits)
  then show ?thesis
    unfolding stop_consumer_def by (intro pres_rules)
qed

section \<open>Fuel\<close>

text \<open>Only the loop over message properties needs fuel.\<close>

lemma fuel_free_cst [total_rules]:
  "fuel_free (getc f)" "fuel_free (updc g)" "fuel_free (load L)" "fuel_free (call_unit L x)"
  "fuel_free (call_object L x)" "fuel_free (on_world (call_lib ans y))" "fuel_free (set_environ v)"
  "fuel_free (on_world (gets k))"
  by (simp_all add: fuel_free_def prog_simps split: sum.split)

lemma fuel_free_on_world [total_rules]: "fuel_free m \<Longrightarrow> fuel_free (on_world m)"
  by (simp add: fuel_free_def prog_simps)

lemma fuel_free_call_lib [total_rules]: "fuel_free (call_lib ans x)"
  by (simp add: fuel_free_def prog_simps split: sum.split)

lemma fuel_free_tls [total_rules]:
  "fuel_free (cleanup_prepared_tls p)" "fuel_free (prepare_tls_config L t)"
  unfolding cleanup_prepared_tls_def prepare_tls_config_def Let_def
  by (intro total_rules)+

lemma fuel_free_recover [total_rules]: "fuel_free (recover_connection_sync L b)"
  unfolding recover_connection_sync_def safe_close_consumer_sync_def safe_disconnect_qmgr_sync_def
    connect_sync_def start_consumer_once_def build_tls_options_def prepare_tls_def connect_body_def
    connect_call_def Let_def
  by (intro total_rules)

lemma fuel_free_run [total_rules]:
  "fuel_free op \<Longrightarrow> fuel_free (run_with_reconnect_sync L op b)"
  unfolding run_with_reconnect_sync_def by (intro total_rules)

lemma fuel_free_started [total_rules]: "fuel_free m \<Longrightarrow> fuel_free (started m)"
  unfolding started_def by (intro total_rules)

lemma fuel_free_on_qmgr [total_rules]: "fuel_free (on_qmgr L f)"
  unfolding on_qmgr_def by (intro total_rules)

lemma fuel_free_publish [total_rules]: "fuel_free (publish L F cmd ser)"
  unfolding publish_def publish_sync_def publish_once_def set_properties_def Let_def
  by (intro total_rules)

end
