(* ===== verification/MQ_Connection_Props.thy ===== *)
theory MQ_Connection_Props
  imports MQ_Connection_Inv
begin

text \<open>
  The correctness of \<open>AsyncMQConnection\<close>: the states one connection object can reach
  through its asynchronous operations, what a recovery and a retried settlement do, the
  interface of a retried operation, and the TLS environment variable.
\<close>

section \<open>Reachable connections\<close>

text \<open>
  One step is one asynchronous operation, carried out by the single worker of the
  connection's executor, or something done by the rest of the process: a call on other
  objects, or a change of the environment variable.
\<close>

inductive connection_step :: "mqlib \<Rightarrow> fslib \<Rightarrow> cst \<Rightarrow> cst \<Rightarrow> bool" for L F where
  step_connect: "connection_step L F s (snd (connect L s))"
| step_start: "connection_step L F s (snd (start_consumer L n s))"
| step_stop: "connection_step L F s (snd (stop_consumer L s))"
| step_get: "connection_step L F s (snd (get_message L fuel t n s))"
| step_publish: "connection_step L F s (snd (publish L F cmd ser s))"
| step_request: "connection_step L F s (snd (request L F fuel cmd ser s))"
| step_commit: "connection_step L F s (snd (commit L s))"
| step_backout: "connection_step L F s (snd (backout L s))"
| step_ping: "connection_step L F s (snd (ping L s))"
| step_disconnect: "connection_step L F s (snd (disconnect L s))"
| step_other: "(\<And>q. x = Disconnect q \<Longrightarrow> q < length (history (snd s)) \<and> qmgr (fst s) \<noteq> Some q) \<Longrightarrow>
    connection_step L F s (fst s, record_call x b (snd s))"
| step_environ: "connection_step L F s (fst s, (snd s)\<lparr>AMQ_TLS_ENVIRONMENT_SCOPE := v\<rparr>)"

inductive connection_reachable :: "mqlib \<Rightarrow> fslib \<Rightarrow> cst \<Rightarrow> bool" for L F where
  reach_init: "history_ok (history w) \<Longrightarrow>
    connection_reachable L F (AsyncMQConnection_init i cfg, w)"
| reach_step: "connection_reachable L F s \<Longrightarrow> connection_step L F s t \<Longrightarrow>
    connection_reachable L F t"

lemma conn_ok_init: "history_ok (history w) \<Longrightarrow> conn_ok L (AsyncMQConnection_init i cfg, w)"
  by (simp add: conn_ok_defs AsyncMQConnection_init_def)

lemma conn_ok_step: "connection_step L F s t \<Longrightarrow> conn_ok L s \<Longrightarrow> conn_ok L t"
proof (induction rule: connection_step.induct)
  case (step_other x s b)
  show ?case
  proof (cases x)
    case (Disconnect q)
    with step_other show ?thesis
      by (auto simp: conn_ok_defs intro!: live_qmgr_append)
  qed (use step_other.prems in \<open>cases s; auto simp: conn_ok_def intro: conn_ok_named_record\<close>)+
next
  case (step_environ s v)
  then show ?case by (cases s) (auto simp: conn_ok_defs)
qed (auto intro: preservesD pres_connect_ok pres_start_consumer_ok pres_stop_consumer_ok
    pres_message_ok pres_transaction_ok pres_disconnect_ok)

lemma conn_ok_reachable: "connection_reachable L F s \<Longrightarrow> conn_ok L s"
  by (induction rule: connection_reachable.induct) (auto intro: conn_ok_init conn_ok_step)

text \<open>
  C1. In every reachable state, whatever the library answered and whatever the rest of the
  process did: the queue manager the connection holds was created and connected, and
  nothing tried to disconnect it since; a consumer queue it holds was opened for input on
  that queue manager, under the name the connection remembers.
\<close>

theorem connection_handles_valid:
  assumes "connection_reachable L F s"
  shows "(\<forall>q. qmgr (fst s) = Some q \<longrightarrow> mq_available L \<and> live_qmgr (history (snd s)) q)
    \<and> (\<forall>i. consumer_queue (fst s) = Some i \<longrightarrow>
         (\<exists>q. qmgr (fst s) = Some q
            \<and> open_input L (history (snd s)) q (consumer_queue_name (fst s)) i))"
  using conn_ok_reachable [OF assms] by (simp add: conn_ok_defs)

text \<open>A connection that has been connected and consumes ORDERS.\<close>

definition sample_started :: cst where
  "sample_started =
     (sample_connection\<lparr>executor := True, qmgr := Some 0, consumer_queue := Some 2,
        consumer_queue_name := ''ORDERS''\<rparr>,
      \<lparr>AMQ_TLS_ENVIRONMENT_SCOPE = None,
       history =
         [(NewQueueManager, True),
          (ConnectTcpClient 0 ''QM1'' \<lparr>SSLCipherSpec = PNone, SSLPeerNamePtr = PNone, DefReconnect = Some 3\<rparr>
             ''DEV.APP.SVRCONN'' ''127.0.0.1(1414)'' None None
             \<lparr>cno_Options = 33554432, CCDTUrl = None\<rparr> None, True),
          (OpenQueue 0 ''ORDERS'' 1, True)]\<rparr>)"

lemma sample_started_run:
  "sample_started = snd (start_consumer (sample_lib no_faults) ''ORDERS''
     (snd (connect (sample_lib no_faults) (sample_connection, empty_world))))"
  by code_simp

lemma sample_started_handles:
  "qmgr (fst sample_started) = Some 0" "consumer_queue (fst sample_started) = Some 2"
  by (simp_all add: sample_started_def)

theorem connection_handles_valid_witness:
  "live_qmgr (history (snd sample_started)) 0
   \<and> open_input (sample_lib no_faults) (history (snd sample_started)) 0
       (consumer_queue_name (fst sample_started)) 2"
proof -
  have "connection_reachable (sample_lib no_faults) sample_fslib sample_started"
    unfolding sample_started_run sample_connection_def
    by (intro reach_step [OF reach_step [OF reach_init step_connect] step_start])
      (simp add: history_ok_def empty_world_def)
  from connection_handles_valid [OF this] show ?thesis
    by (simp add: sample_started_handles)
qed

section \<open>Recovery\<close>

lemma hoare_bind_getc: "(\<And>x. hoare I (k x) Q) \<Longrightarrow> hoare I (bind (getc f) k) Q"
  by (simp add: hoare_def prog_simps)

lemma safe_close_raises:
  "fst (safe_close_consumer_sync L s) = Raises e \<Longrightarrow> \<not> is_exception e"
  by (auto simp: safe_close_consumer_sync_def prog_simps split: option.splits sum.splits if_splits)

lemma safe_close_qmgr [simp]: "qmgr (fst (snd (safe_close_consumer_sync L s))) = qmgr (fst s)"
  by (auto simp: safe_close_consumer_sync_def prog_simps split: option.splits sum.splits)

lemma hoare_safe_disconnect_logged:
  "hoare (\<lambda>s. qmgr (fst s) = Some q) (safe_disconnect_qmgr_sync L)
     (\<lambda>_ s. \<exists>d. (Disconnect q, d) \<in> set (history (snd s)))"
  by (auto simp: hoare_def safe_disconnect_qmgr_sync_def prog_simps split: sum.splits)

lemma link_stable_disconnected: "link_stable (\<lambda>s. \<exists>d. (Disconnect q, d) \<in> set (history (snd s)))"
  by (rule link_stable_history) auto

lemma hoare_recover_disconnects:
  "hoare (\<lambda>s. qmgr (fst s) = Some q) (recover_connection_sync L b)
     (\<lambda>r s. (\<exists>e. r = Raises e \<and> \<not> is_exception e) \<or> (\<exists>d. (Disconnect q, d) \<in> set (history (snd s))))"
  unfolding recover_connection_sync_def Let_def
proof (rule hoare_bind_getc)
  fix n :: string
  let ?D = "\<lambda>s. \<exists>d. (Disconnect q, d) \<in> set (history (snd s))"
  let ?k = "if b then n else []"
  have "preserves ?D (seq (connect_sync L) (when_do (?k \<noteq> []) (start_consumer_once L ?k)))"
    by (intro pres_rules pres_link_connect_sync pres_link_start_once link_stable_disconnected) auto
  then have "hoare ?D (seq (connect_sync L) (when_do (?k \<noteq> []) (start_consumer_once L ?k)))
      (\<lambda>r s. (\<exists>e. r = Raises e \<and> \<not> is_exception e) \<or> ?D s)"
    unfolding hoare_preserves_iff by (rule hoare_post) simp
  then have rest: "hoare (\<lambda>s. qmgr (fst s) = Some q) (seq (safe_disconnect_qmgr_sync L)
      (seq (connect_sync L) (when_do (?k \<noteq> []) (start_consumer_once L ?k))))
      (\<lambda>r s. (\<exists>e. r = Raises e \<and> \<not> is_exception e) \<or> ?D s)"
    by (intro hoare_seq [OF hoare_safe_disconnect_logged]) auto
  have close: "hoare (\<lambda>s. qmgr (fst s) = Some q) (safe_close_consumer_sync L)
      (\<lambda>r s. qmgr (fst s) = Some q \<and> r \<noteq> NoFuel \<and> (\<forall>e. r = Raises e \<longrightarrow> \<not> is_exception e))"
    by (auto simp: hoare_def safe_close_consumer_sync_def prog_simps split: option.splits sum.splits if_splits)
  show "hoare (\<lambda>s. qmgr (fst s) = Some q) (seq (safe_close_consumer_sync L)
      (seq (safe_disconnect_qmgr_sync L)
      (seq (connect_sync L) (when_do (?k \<noteq> []) (start_consumer_once L ?k)))))
      (\<lambda>r s. (\<exists>e. r = Raises e \<and> \<not> is_exception e) \<or> ?D s)"
    by (rule hoare_seq [OF close hoare_strengthen [OF rest]]) auto
qed

text \<open>
  C24. A recovery replaces the connection. When it succeeds, the connection holds a queue
  manager that did not exist before, the old one has been disconnected, and the consumer
  queue is open again under its name, on the new queue manager, exactly when reopening was
  asked for and a consumer had been started. When it fails there is no consumer queue,
  and after an ordinary exception the old queue manager is not held any more.
\<close>

theorem recovery_replaces_connection:
  assumes "conn_ok L s" and "recover_connection_sync L b s = (r, t)"
  shows "conn_ok L t \<and>
    (if r = Returns () then
       \<exists>q. qmgr (fst t) = Some q \<and> length (history (snd s)) \<le> q \<and> live_qmgr (history (snd t)) q
         \<and> (\<forall>q0. qmgr (fst s) = Some q0 \<longrightarrow> (\<exists>d. (Disconnect q0, d) \<in> set (history (snd t))))
         \<and> (if b \<and> consumer_queue_name (fst s) \<noteq> []
            then \<exists>i. consumer_queue (fst t) = Some i
              \<and> open_input L (history (snd t)) q (consumer_queue_name (fst s)) i
            else consumer_queue (fst t) = None)
     else consumer_queue (fst t) = None
       \<and> (\<forall>e q0. r = Raises e \<longrightarrow> is_exception e \<longrightarrow> qmgr (fst s) = Some q0 \<longrightarrow>
            qmgr (fst t) \<noteq> Some q0))"
proof -
  let ?n = "consumer_queue_name (fst s)"
  have rec: "recovered L (length (history (snd s))) (if b then ?n else []) r t"
    using hoare_apply [OF hoare_recover_at [of L "length (history (snd s))" ?n b], of s] assms
    by (simp add: conn_ok_weak)
  have logged: "(\<exists>e. r = Raises e \<and> \<not> is_exception e)
      \<or> (\<exists>d. (Disconnect q0, d) \<in> set (history (snd t)))" if "qmgr (fst s) = Some q0" for q0
    using hoare_apply [OF hoare_recover_disconnects [of q0 L b], of s] assms that by simp
  have live: "live_qmgr (history (snd t)) q" if "qmgr (fst t) = Some q" for q
    using rec that by (simp add: recovered_def conn_ok_defs)
  then have gone: "qmgr (fst t) \<noteq> Some q0" if "(Disconnect q0, d) \<in> set (history (snd t))" for q0 d
    using that by (auto simp: live_qmgr_def)
  show ?thesis
    using rec logged live gone
    by (auto simp: recovered_def conn_ok_defs split: if_splits)
qed

lemma conn_ok_sample_started: "conn_ok (sample_lib faults) sample_started"
proof -
  have "conn_ok (sample_lib no_faults) sample_started"
    unfolding sample_started_run
    by (intro preservesD [OF pres_start_consumer_ok] preservesD [OF pres_connect_ok])
      (simp add: sample_connection_def conn_ok_init history_ok_def empty_world_def)
  then show ?thesis by (simp add: conn_ok_defs open_input_def)
qed

theorem recovery_replaces_connection_witness:
  "let t = snd (recover_connection_sync (sample_lib no_faults) True sample_started) in
     \<exists>q \<ge> 3. qmgr (fst t) = Some q \<and> live_qmgr (history (snd t)) q
       \<and> (\<exists>d. (Disconnect 0, d) \<in> set (history (snd t)))
       \<and> (\<exists>i. consumer_queue (fst t) = Some i
            \<and> open_input (sample_lib no_faults) (history (snd t)) q ''ORDERS'' i)"
proof -
  have r: "fst (recover_connection_sync (sample_lib no_faults) True sample_started) = Returns ()"
    and s: "length (history (snd sample_started)) = 3"
      "consumer_queue_name (fst sample_started) = ''ORDERS''"
    by code_simp+
  let ?x = "recover_connection_sync (sample_lib no_faults) True sample_started"
  have x: "?x = (Returns (), snd ?x)" using r by (simp add: prod_eq_iff)
  show ?thesis
    using recovery_replaces_connection [OF conn_ok_sample_started x]
    by (auto simp: s sample_started_handles Let_def simp del: length_greater_0_conv)
qed

section \<open>Settling a unit of work\<close>

lemma run_with_reconnect_apply:
  "mq_available L \<Longrightarrow> run_with_reconnect_sync L op b s = (case fst (op s) of
      Returns x \<Rightarrow> (Returns x, snd (op s))
    | Raises e \<Rightarrow> if reconnectable L e
        then seq (recover_connection_sync L b) (seq (call_unit L (Sleep pause)) op) (snd (op s))
        else (Raises e, snd (op s))
    | NoFuel \<Rightarrow> (NoFuel, snd (op s)))"
  by (simp add: run_with_reconnect_sync_def mq_available_def load_apply seq_apply bind_apply
      try_except_apply ret_apply throw_apply split: outcome.split)

text \<open>The calls a recovery and the pause after it add to the history.\<close>

definition adds :: "(call \<Rightarrow> bool) \<Rightarrow> history \<Rightarrow> cst \<Rightarrow> bool" where
  "adds P h0 s \<longleftrightarrow> (\<exists>h. history (snd s) = h0 @ h \<and> list_all (\<lambda>(x, b). P x) h)"

lemma adds_start: "adds P (history (snd s)) s"
  by (simp add: adds_def)

lemma log_stable_adds: "(\<And>x. Q x \<Longrightarrow> P x) \<Longrightarrow> log_stable Q (adds P h0)"
  by (force simp: log_stable_def adds_def)

lemma link_stable_adds: "(\<And>x. is_link_call x \<Longrightarrow> P x) \<Longrightarrow> link_stable (adds P h0)"
  by (simp add: link_stable_def log_stable_adds tls_blind_def) (simp add: adds_def)

abbreviation retry_call :: "call \<Rightarrow> bool" where
  "retry_call x \<equiv> is_link_call x \<or> x = Sleep pause"

lemma pres_adds_recover: "preserves (adds retry_call h0) (recover_connection_sync L b)"
  by (rule pres_link_recover) (auto simp: adds_def intro: link_stable_adds)

lemma pres_adds_pause: "preserves (adds retry_call h0) (call_unit L (Sleep pause))"
  by (rule pres_call_unit [OF log_stable_adds [of "\<lambda>x. x = Sleep pause"]]) auto

lemma adds_after_retry:
  "adds retry_call (history (snd s)) (snd (seq (recover_connection_sync L b) (call_unit L (Sleep pause)) s))"
  by (rule preservesD [OF pres_seq [OF pres_adds_recover pres_adds_pause] adds_start])

text \<open>
  A call on the queue manager, made through the retry wrapper: when it returns, its last
  attempt is the last call made, on the queue manager the connection holds. A second
  attempt is made on a queue manager that was created after the first one failed.
\<close>

lemma run_on_qmgr_trace:
  assumes ok: "conn_ok L s" and f: "\<And>q. harmless (f q)"
    and run: "run_with_reconnect_sync L (on_qmgr L f) b s = (Returns (), t)"
  shows "\<exists>q. qmgr (fst t) = Some q \<and>
    (qmgr (fst s) = Some q \<and> history (snd t) = history (snd s) @ [(f q, True)]
     \<or> (\<exists>q0 e h. qmgr (fst s) = Some q0 \<and> ans_unit L (snd s) (f q0) = Inl e \<and> reconnectable L e
          \<and> length (history (snd s)) < q
          \<and> history (snd t) = history (snd s) @ [(f q0, False)] @ h @ [(f q, True)]
          \<and> list_all (\<lambda>(x, b). retry_call x) h))"
proof (cases "qmgr (fst s)")
  case None
  have "on_qmgr L f s = (Raises (AssertionError []), s)"
    using None by (simp add: on_qmgr_def prog_simps)
  then have "run_with_reconnect_sync L (on_qmgr L f) b s \<noteq> (Returns (), t)"
    by (auto simp: run_with_reconnect_sync_def prog_simps reconnectable_def split: sum.split)
  with run show ?thesis by simp
next
  case (Some q0)
  then have L: "mq_available L" using ok by (simp add: conn_ok_defs)
  have op: "on_qmgr L f u = call_unit L (f q) u" if "qmgr (fst u) = Some q" for u q
    using that by (simp add: on_qmgr_def prog_simps)
  show ?thesis
  proof (cases "ans_unit L (snd s) (f q0)")
    case (Inr u)
    then have "t = (fst s, record_call (f q0) True (snd s))"
      using run by (simp add: run_with_reconnect_apply [OF L] op [OF Some] call_unit_apply)
    then show ?thesis using Some by simp
  next
    case (Inl e)
    let ?s1 = "(fst s, record_call (f q0) False (snd s))"
    let ?m = "seq (recover_connection_sync L b) (call_unit L (Sleep pause))"
    have e: "reconnectable L e" and run2: "seq ?m (on_qmgr L f) ?s1 = (Returns (), t)"
      using run Inl by (auto simp: run_with_reconnect_apply [OF L] op [OF Some] call_unit_apply
          seq_apply split: if_splits outcome.splits)
    have "conn_ok_named L (consumer_queue_name (fst s)) ?s1"
      using ok f by (cases s) (simp add: conn_ok_def conn_ok_named_record)
    then have "weak_ok L (length (history (snd s)) + 1) ?s1" by (auto simp: weak_ok_def)
    then have rec: "recovered L (length (history (snd s)) + 1) (if b then consumer_queue_name (fst s) else [])
        (fst (recover_connection_sync L b ?s1)) (snd (recover_connection_sync L b ?s1))"
      by (intro hoare_apply [OF hoare_recover_at]) simp
    let ?v = "snd (?m ?s1)"
    have m: "fst (?m ?s1) = Returns ()" and v: "on_qmgr L f ?v = (Returns (), t)"
      using run2 by (auto simp: seq_apply split: outcome.splits)
    have r: "fst (recover_connection_sync L b ?s1) = Returns ()"
      using m by (auto simp: seq_apply split: outcome.splits)
    have "fst ?v = fst (snd (recover_connection_sync L b ?s1))"
      using r by (simp add: seq_apply call_unit_apply split: sum.split)
    with rec r obtain q where q: "qmgr (fst ?v) = Some q" "length (history (snd s)) < q"
      by (auto simp: recovered_def)
    obtain h where h: "history (snd ?v) = history (snd s) @ [(f q0, False)] @ h"
        "list_all (\<lambda>(x, b). retry_call x) h"
      using adds_after_retry [of ?s1 L b] by (auto simp: adds_def)
    have "t = (fst ?v, record_call (f q) True (snd ?v))"
      using v by (auto simp: op [OF q(1)] call_unit_apply split: sum.splits)
    with q h Some Inl e show ?thesis by auto
  qed
qed

text \<open>Counting the calls of a class that returned.\<close>

definition returned_is :: "(call \<Rightarrow> bool) \<Rightarrow> nat \<Rightarrow> cst \<Rightarrow> bool" where
  "returned_is P k s \<longleftrightarrow> returned_where P (history (snd s)) = k"

definition returns :: "'a outcome \<Rightarrow> nat" where
  "returns r = (case r of Returns x \<Rightarrow> 1 | _ \<Rightarrow> 0)"

lemma returns_simps [simp]: "returns (Returns x) = 1" "returns (Raises e) = 0" "returns NoFuel = 0"
  by (simp_all add: returns_def)

lemma log_stable_returned: "(\<And>x. Q x \<Longrightarrow> \<not> P x) \<Longrightarrow> log_stable Q (returned_is P k)"
  by (auto simp: log_stable_def returned_is_def)

lemma pres_returned_recover:
  "(\<And>x. P x \<Longrightarrow> \<not> retry_call x) \<Longrightarrow> preserves (returned_is P k) (recover_connection_sync L b)"
  by (rule pres_link_recover)
    (auto simp: link_stable_def tls_blind_def returned_is_def log_stable_def)

lemma pres_returned_pause:
  "(\<And>x. P x \<Longrightarrow> \<not> retry_call x) \<Longrightarrow> preserves (returned_is P k) (call_unit L (Sleep pause))"
  by (rule pres_call_unit [OF log_stable_returned [of "\<lambda>x. x = Sleep pause"]]) auto

lemma hoare_run_returned:
  assumes op: "\<And>k. hoare (returned_is P k) op (\<lambda>r. returned_is P (k + returns r))"
    and P: "\<And>x. P x \<Longrightarrow> \<not> retry_call x"
  shows "hoare (returned_is P k) (run_with_reconnect_sync L op b) (\<lambda>r. returned_is P (k + returns r))"
proof (rule hoareI)
  fix s assume s: "returned_is P k s"
  show "returned_is P (k + returns (fst (run_with_reconnect_sync L op b s)))
      (snd (run_with_reconnect_sync L op b s))"
  proof (cases rule: load_ibmmq_cases [of L])
    case 1
    have retry: "hoare (returned_is P k)
        (seq (recover_connection_sync L b) (seq (call_unit L (Sleep pause)) op))
        (\<lambda>r. returned_is P (k + returns r))"
      by (rule hoare_step_seq [OF pres_returned_recover [OF P]],
          assumption, rule hoare_step_seq [OF pres_returned_pause [OF P] op]) auto
    have "returned_is P (k + returns (fst (op s))) (snd (op s))"
      by (rule hoare_apply [OF op s])
    then show ?thesis
      using hoare_apply [OF retry, of "snd (op s)"] by (auto simp: run_with_reconnect_apply [OF 1(1)] split: outcome.split)
  next
    case (2 m)
    then show ?thesis using s by (simp add: run_with_reconnect_sync_def seq_apply load_apply)
  qed
qed

lemma hoare_on_qmgr_returned:
  "(\<And>q. P (f q)) \<Longrightarrow> hoare (returned_is P k) (on_qmgr L f) (\<lambda>r. returned_is P (k + returns r))"
  by (auto simp: hoare_def on_qmgr_def prog_simps returned_is_def split: sum.split)

fun is_commit :: "call \<Rightarrow> bool" where
  "is_commit (Commit q) = True"
| "is_commit c = False"

fun is_backout :: "call \<Rightarrow> bool" where
  "is_backout (Backout q) = True"
| "is_backout c = False"

lemma settle_call_not_retry:
  "is_commit x \<Longrightarrow> \<not> retry_call x" "is_backout x \<Longrightarrow> \<not> retry_call x"
  "is_put x \<Longrightarrow> \<not> retry_call x" "is_get x \<Longrightarrow> \<not> retry_call x"
  by (cases x; simp)+

lemma commit_as_started:
  "commit L s = (if executor (fst s)
     then run_with_reconnect_sync L (on_qmgr L Commit) (consumer_queue_name (fst s) \<noteq> []) s
     else (Raises (AssertionError ''Connection is not started yet.''), s))"
  by (simp add: commit_def started_def commit_sync_def commit_once_def prog_simps)

text \<open>
  C4. What \<open>commit\<close> promises. It raises only if no commit call of its own returned. When it
  returns, its last call was a successful commit on the queue manager it now holds. Either
  that was its only call, on the queue manager it held before; or the first commit failed
  with a reconnectable reason, the connection was replaced, and the commit that succeeded
  was made on a queue manager created afterwards, that is on another unit of work.
\<close>

theorem commit_settles:
  assumes "conn_ok L s" and "commit L s = (r, t)"
  shows "case r of
      Returns u \<Rightarrow> (\<exists>q. qmgr (fst t) = Some q \<and> live_qmgr (history (snd t)) q \<and>
        (qmgr (fst s) = Some q \<and> history (snd t) = history (snd s) @ [(Commit q, True)]
         \<or> (\<exists>q0 e h. qmgr (fst s) = Some q0 \<and> ans_unit L (snd s) (Commit q0) = Inl e
              \<and> reconnectable L e \<and> length (history (snd s)) < q
              \<and> history (snd t) = history (snd s) @ [(Commit q0, False)] @ h @ [(Commit q, True)]
              \<and> calls_where is_commit h = 0)))
    | Raises e \<Rightarrow> returned_where is_commit (history (snd t)) = returned_where is_commit (history (snd s))
    | NoFuel \<Rightarrow> False"
proof (cases r)
  case (Returns u)
  then have "run_with_reconnect_sync L (on_qmgr L Commit) (consumer_queue_name (fst s) \<noteq> []) s = (Returns (), t)"
    using assms(2) by (simp add: commit_as_started split: if_splits)
  moreover have "live_qmgr (history (snd t)) q" if "qmgr (fst t) = Some q" for q
    using preservesD [OF pres_transaction_ok(1) assms(1)] assms(2) that by (simp add: conn_ok_defs)
  moreover have "calls_where is_commit h = 0" if "list_all (\<lambda>(x, b). retry_call x) h" for h
    using that by (induction h) (auto simp: calls_where_def dest: settle_call_not_retry)
  ultimately show ?thesis
    using run_on_qmgr_trace [OF assms(1), of Commit] Returns by fastforce
next
  case (Raises e)
  have "hoare (returned_is is_commit k) (run_with_reconnect_sync L (on_qmgr L Commit) b)
      (\<lambda>r. returned_is is_commit (k + returns r))" for k b
    by (rule hoare_run_returned [OF hoare_on_qmgr_returned]) (auto dest: settle_call_not_retry)
  from hoare_apply [OF this [of _ "consumer_queue_name (fst s) \<noteq> []"], of "returned_where is_commit (history (snd s))" s] Raises assms(2)
  show ?thesis by (auto simp: commit_as_started returned_is_def split: if_splits)
next
  case NoFuel
  have "fuel_free (commit L)"
    unfolding commit_def commit_sync_def commit_once_def by (intro total_rules)
  then show ?thesis using assms(2) NoFuel fuel_freeD [of "commit L" s] by simp
qed

definition commit_lost :: "world \<Rightarrow> call \<Rightarrow> exn option" where
  "commit_lost w c = (if c = Commit 0 then Some (MQMIError 2009 0) else None)"

theorem commit_settles_witness:
  "\<exists>q h. length (history (snd sample_started)) < q
     \<and> history (snd (snd (commit (sample_lib commit_lost) sample_started)))
        = history (snd sample_started) @ [(Commit 0, False)] @ h @ [(Commit q, True)]
     \<and> calls_where is_commit h = 0"
proof -
  let ?x = "commit (sample_lib commit_lost) sample_started"
  have r: "fst ?x = Returns ()" and len: "length (history (snd (snd ?x))) = 11"
    and s: "length (history (snd sample_started)) = 3"
    by code_simp+
  have x: "?x = (Returns (), snd ?x)" using r by (simp add: prod_eq_iff)
  show ?thesis
    using commit_settles [OF conn_ok_sample_started x] len s
    by (auto simp: sample_started_handles)
qed

section \<open>The TLS environment variable\<close>

lemma call_unit_frame [simp]:
  "fst (snd (call_unit L x s)) = fst s"
  "AMQ_TLS_ENVIRONMENT_SCOPE (snd (snd (call_unit L x s))) = AMQ_TLS_ENVIRONMENT_SCOPE (snd s)"
  "fst (call_unit L x s) \<noteq> NoFuel"
  by (simp_all add: call_unit_apply split: sum.split)

lemma connect_call_frame:
  "fst (snd (connect_call L cfg qm o1 d sc s)) = fst s
   \<and> AMQ_TLS_ENVIRONMENT_SCOPE (snd (snd (connect_call L cfg qm o1 d sc s))) = AMQ_TLS_ENVIRONMENT_SCOPE (snd s)
   \<and> fst (connect_call L cfg qm o1 d sc s) \<noteq> NoFuel"
  using connect_call_cases [of qm L cfg o1 d sc s] by auto

lemma cleanup_environment [simp]:
  "AMQ_TLS_ENVIRONMENT_SCOPE (snd (cleanup_prepared_tls p w)) = AMQ_TLS_ENVIRONMENT_SCOPE w"
  "fst (cleanup_prepared_tls p w) = Returns ()"
  by (auto simp: cleanup_prepared_tls_def prog_simps split: option.split)

text \<open>
  C25. What a connection attempt does to the environment variable it sets for the TLS scope.
  A successful attempt, and one that ends in a cancellation or an exit, puts the old
  value back. An attempt that fails with an ordinary exception does not: its handler drops
  the prepared configuration, so that the final clause no longer knows that there was a
  scope, and the variable keeps the scope of the failed attempt.
\<close>

theorem connect_environment:
  "AMQ_TLS_ENVIRONMENT_SCOPE (snd (snd (connect_body L cfg qm o1 d sc s))) =
     (case fst (connect_body L cfg qm o1 d sc s) of
        Raises e \<Rightarrow> if is_exception e \<and> tls_scope (fst s) \<noteq> None then tls_scope (fst s)
                    else AMQ_TLS_ENVIRONMENT_SCOPE (snd s)
      | _ \<Rightarrow> AMQ_TLS_ENVIRONMENT_SCOPE (snd s))"
proof -
  let ?s = "if tls_scope (fst s) = None then s
      else (fst s, (snd s)\<lparr>AMQ_TLS_ENVIRONMENT_SCOPE := tls_scope (fst s)\<rparr>)"
  let ?r = "connect_call L cfg qm o1 d sc ?s"
  have scope: "tls_scope (c\<lparr>qmgr := q\<rparr>) = tls_scope c" "tls_scope (c\<lparr>prepared_tls := None\<rparr>) = None" for c q
    by (simp_all add: tls_scope_def)
  have "fst (snd ?r) = fst s" and "AMQ_TLS_ENVIRONMENT_SCOPE (snd (snd ?r)) =
      (if tls_scope (fst s) = None then AMQ_TLS_ENVIRONMENT_SCOPE (snd s) else tls_scope (fst s))"
      and "fst ?r \<noteq> NoFuel"
    using connect_call_frame [of L cfg qm o1 d sc ?s] by auto
  then show ?thesis
    unfolding connect_body_def
    by (cases "fst ?r"; cases "tls_scope (fst s)")
      (auto simp: prog_simps scope split: if_splits)
qed

section \<open>Disconnecting\<close>

text \<open>The calls that release what a connection holds, in order.\<close>

definition tls_release_calls :: "PreparedMQTLSConfig option \<Rightarrow> call list" where
  "tls_release_calls p = (case p of None \<Rightarrow> [] | Some t \<Rightarrow>
     (case pr_tempdir t of None \<Rightarrow> [] | Some d \<Rightarrow> [RmTree d]))"

definition release_calls :: "AsyncMQConnection \<Rightarrow> call list" where
  "release_calls c =
     (case consumer_queue c of None \<Rightarrow> [] | Some h \<Rightarrow> [CloseQueue h])
     @ (case qmgr c of None \<Rightarrow> [] | Some q \<Rightarrow> [Disconnect q])
     @ tls_release_calls (prepared_tls c)"

lemma cleanup_apply:
  "cleanup_prepared_tls p w =
     (Returns (), w\<lparr>history := history w @ map (\<lambda>x. (x, True)) (tls_release_calls p)\<rparr>)"
  by (simp add: cleanup_prepared_tls_def tls_release_calls_def prog_simps record_call_def split: option.split)

lemma close_consumer_cases:
  "(\<exists>h. safe_close_consumer_sync L s = (Returns (), ((fst s)\<lparr>consumer_queue := None\<rparr>, (snd s)\<lparr>history := history (snd s) @ h\<rparr>))
      \<and> map fst h = (case consumer_queue (fst s) of None \<Rightarrow> [] | Some i \<Rightarrow> [CloseQueue i]))
   \<or> (\<exists>e t. safe_close_consumer_sync L s = (Raises e, t) \<and> \<not> is_exception e)"
  by (cases s; cases "fst s"; cases "consumer_queue (fst s)")
    (auto simp: safe_close_consumer_sync_def prog_simps record_call_def split: sum.split)

lemma disconnect_qmgr_cases:
  "(\<exists>h. safe_disconnect_qmgr_sync L s = (Returns (), ((fst s)\<lparr>qmgr := None\<rparr>, (snd s)\<lparr>history := history (snd s) @ h\<rparr>))
      \<and> map fst h = (case qmgr (fst s) of None \<Rightarrow> [] | Some i \<Rightarrow> [Disconnect i]))
   \<or> (\<exists>e t. safe_disconnect_qmgr_sync L s = (Raises e, t) \<and> \<not> is_exception e)"
  by (cases s; cases "fst s"; cases "qmgr (fst s)")
    (auto simp: safe_disconnect_qmgr_sync_def prog_simps record_call_def split: sum.split)

lemma disconnect_sync_cases:
  "case disconnect_sync L s of (r, t) \<Rightarrow> (case r of
       Returns u \<Rightarrow> qmgr (fst t) = None \<and> consumer_queue (fst t) = None \<and> prepared_tls (fst t) = None
         \<and> (\<exists>h. history (snd t) = history (snd s) @ h \<and> map fst h = release_calls (fst s))
     | Raises e \<Rightarrow> \<not> is_exception e
     | NoFuel \<Rightarrow> False)"
  using close_consumer_cases [of L s]
proof (elim disjE exE conjE)
  fix h1
  let ?s1 = "((fst s)\<lparr>consumer_queue := None\<rparr>, (snd s)\<lparr>history := history (snd s) @ h1\<rparr>)"
  assume 1: "safe_close_consumer_sync L s = (Returns (), ?s1)"
    "map fst h1 = (case consumer_queue (fst s) of None \<Rightarrow> [] | Some i \<Rightarrow> [CloseQueue i])"
  show ?thesis
    using disconnect_qmgr_cases [of L ?s1] 1
    by (auto simp: disconnect_sync_def seq_apply bind_apply getc_apply updc_apply on_world_apply
        cleanup_apply release_calls_def comp_def)
qed (auto simp: disconnect_sync_def seq_apply)

lemma disconnect_outcome:
  "if \<not> executor (fst s) then disconnect L s = (Returns (), s)
   else case disconnect L s of (r, t) \<Rightarrow>
     \<not> executor (fst t) \<and> (case r of
       Returns u \<Rightarrow> qmgr (fst t) = None \<and> consumer_queue (fst t) = None \<and> prepared_tls (fst t) = None
         \<and> (\<exists>h. history (snd t) = history (snd s) @ h \<and> map fst h = release_calls (fst s))
     | Raises e \<Rightarrow> \<not> is_exception e
     | NoFuel \<Rightarrow> False)"
proof (cases "executor (fst s)")
  case False
  then show ?thesis by (simp add: disconnect_def prog_simps)
next
  case True
  with disconnect_sync_cases [where L = L and s = s] show ?thesis
    by (auto simp: disconnect_def prog_simps split: prod.split outcome.splits)
qed

text \<open>
  C27. \<open>disconnect\<close> releases everything: it never raises an ordinary exception, whatever the
  library answers; when it returns, the consumer queue, the queue manager and the
  temporary TLS directory have been released in this order, nothing is held any more and
  the executor is gone. On a connection without an executor it does nothing.
\<close>

theorem disconnect_releases:
  "if \<not> executor (fst s) then disconnect L s = (Returns (), s)
   else case disconnect L s of (r, t) \<Rightarrow>
     \<not> executor (fst t) \<and> (case r of
       Returns u \<Rightarrow> qmgr (fst t) = None \<and> consumer_queue (fst t) = None \<and> prepared_tls (fst t) = None
         \<and> (\<exists>h. history (snd t) = history (snd s) @ h \<and> map fst h = release_calls (fst s))
     | Raises e \<Rightarrow> \<not> is_exception e
     | NoFuel \<Rightarrow> False)"
  by (rule disconnect_outcome)

end
