(* ===== verification/MQ_Messaging_Props.thy ===== *)
theory MQ_Messaging_Props
  imports MQ_Connection_Props
begin

text \<open>
  The correctness of the messaging operations: the interface every retried operation of
  the connection satisfies and its instances, what a publication puts on the wire, the
  single put of a request, and what a successful get has done.
\<close>

unbundle bit_operations_syntax

section \<open>Retried operations\<close>

definition at_most :: "(call \<Rightarrow> bool) \<Rightarrow> nat \<Rightarrow> cst \<Rightarrow> bool" where
  "at_most P k s \<longleftrightarrow> calls_where P (history (snd s)) \<le> k"

lemma log_stable_at_most: "(\<And>x. Q x \<Longrightarrow> \<not> P x) \<Longrightarrow> log_stable Q (at_most P k)"
  by (auto simp: log_stable_def at_most_def)

lemma pres_at_most_recover:
  "(\<And>x. P x \<Longrightarrow> \<not> retry_call x) \<Longrightarrow> preserves (at_most P k) (recover_connection_sync L b)"
  by (rule pres_link_recover)
    (auto simp: link_stable_def tls_blind_def at_most_def log_stable_def)

lemma pres_at_most_pause:
  "(\<And>x. P x \<Longrightarrow> \<not> retry_call x) \<Longrightarrow> preserves (at_most P k) (call_unit L (Sleep pause))"
  by (rule pres_call_unit [OF log_stable_at_most [of "\<lambda>x. x = Sleep pause"]]) auto

text \<open>
  What the retry wrapper relies on: the operation keeps the connection invariant, and it
  makes at most one call of the class \<open>P\<close> that carries its effect, which is not a call of
  the recovery itself.
\<close>

locale retried_operation =
  fixes L :: mqlib and op :: "(cst, 'a) prog" and P :: "call \<Rightarrow> bool"
  assumes keeps: "preserves (conn_ok L) op"
    and own: "P x \<Longrightarrow> \<not> retry_call x"
    and once: "hoare (at_most P k) op (\<lambda>_. at_most P (k + 1))"
    and grows: "preserves (adds (\<lambda>_. True) h0) op"
begin

lemma run_keeps: "preserves (conn_ok L) (run_with_reconnect_sync L op b)"
  by (rule pres_run_with_reconnect [OF keeps])

lemma run_at_most_twice: "hoare (at_most P k) (run_with_reconnect_sync L op b) (\<lambda>_. at_most P (k + 2))"
proof (rule hoareI)
  fix s assume s: "at_most P k s"
  show "at_most P (k + 2) (snd (run_with_reconnect_sync L op b s))"
  proof (cases rule: load_ibmmq_cases [of L])
    case 1
    have "hoare (at_most P (k + 1)) (seq (recover_connection_sync L b) (seq (call_unit L (Sleep pause)) op))
        (\<lambda>_. at_most P (k + 1 + 1))"
      by (rule hoare_step_seq [OF pres_at_most_recover [OF own]], assumption,
          rule hoare_step_seq [OF pres_at_most_pause [OF own] once]) (auto simp: at_most_def)
    from hoare_apply [OF this] hoare_apply [OF once s]
    show ?thesis
      by (auto simp: run_with_reconnect_apply [OF 1(1)] at_most_def split: outcome.split)
  next
    case (2 m)
    then show ?thesis using s by (simp add: run_with_reconnect_sync_def seq_apply load_apply at_most_def)
  qed
qed

end

text \<open>An operation that has had its effect whenever it returns.\<close>

locale effective_operation = retried_operation +
  assumes effective: "fst (op s) = Returns x \<Longrightarrow>
    returned_where P (history (snd s)) < returned_where P (history (snd (snd (op s))))"
begin

lemma recovery_keeps_count:
  "returned_where P (history (snd (snd (seq (recover_connection_sync L b) (call_unit L (Sleep pause)) s))))
   = returned_where P (history (snd s))"
proof -
  have "preserves (returned_is P k) (seq (recover_connection_sync L b) (call_unit L (Sleep pause)))" for k
    by (intro pres_seq pres_returned_recover pres_returned_pause own)
  from preservesD [OF this, of "returned_where P (history (snd s))" s]
  show ?thesis by (simp add: returned_is_def)
qed

lemma count_mono_op:
  "returned_where P (history (snd s)) \<le> returned_where P (history (snd (snd (op s))))"
  using preservesD [OF grows adds_start, of s] by (auto simp: adds_def)

lemma run_effective:
  assumes "mq_available L" and "fst (run_with_reconnect_sync L op b s) = Returns x"
  shows "returned_where P (history (snd s))
    < returned_where P (history (snd (snd (run_with_reconnect_sync L op b s))))"
proof (cases "fst (op s)")
  case (Returns y)
  then show ?thesis
    using effective assms by (simp add: run_with_reconnect_apply)
next
  case (Raises e)
  let ?m = "seq (recover_connection_sync L b) (call_unit L (Sleep pause))"
  have run: "run_with_reconnect_sync L op b s = seq ?m op (snd (op s))"
    using assms(1,2) Raises
    by (auto simp: run_with_reconnect_apply seq_apply split: if_splits outcome.split)
  then obtain u where u: "fst (?m (snd (op s))) = Returns u"
    using assms(2) by (auto simp: seq_apply [of ?m] split: outcome.splits)
  then show ?thesis
    using effective [of "snd (?m (snd (op s)))" x] assms(2) count_mono_op [of s] recovery_keeps_count [of b "snd (op s)"]
    by (simp add: run seq_apply [of ?m])
next
  case NoFuel
  then show ?thesis using assms by (simp add: run_with_reconnect_apply)
qed

end

subsection \<open>The operations of the connection\<close>

lemma spends_call:
  "spends (at_most P k) (at_most P (k + 1)) (on_world (call_lib ans x))"
  by (rule spendsI) (auto simp: prog_simps at_most_def split: sum.split)

lemma spends_hoare: "spends I J m \<Longrightarrow> hoare I m (\<lambda>_. J)"
  by (simp add: spends_def)

lemma at_most_Suc: "at_most P k s \<Longrightarrow> at_most P (k + 1) s"
  by (simp add: at_most_def)

lemma log_stable_adds_all [simp]: "log_stable Q (adds (\<lambda>_. True) h0)"
  by (rule log_stable_adds) simp

lemma on_qmgr_operation:
  assumes "\<And>q. P (f q)" and "\<And>q. harmless (f q)" and "\<And>x. P x \<Longrightarrow> \<not> retry_call x"
  shows "effective_operation L (on_qmgr L f) P"
proof
  show "preserves (conn_ok L) (on_qmgr L f)" by (rule pres_on_qmgr [OF log_stable_conn_ok assms(2)])
  show "\<not> retry_call x" if "P x" for x using assms(3) that .
  show "hoare (at_most P k) (on_qmgr L f) (\<lambda>_. at_most P (k + 1))" for k
    by (auto simp: hoare_def on_qmgr_def prog_simps at_most_def split: sum.split)
  show "preserves (adds (\<lambda>_. True) h0) (on_qmgr L f)" for h0
    by (rule pres_on_qmgr [of "\<lambda>_. True"]) simp_all
  show "returned_where P (history (snd s)) < returned_where P (history (snd (snd (on_qmgr L f s))))"
    if "fst (on_qmgr L f s) = Returns x" for s x
    using that assms(1) by (auto simp: on_qmgr_def prog_simps split: sum.splits if_splits)
qed

interpretation commit_op: effective_operation L "commit_once L" is_commit for L
  unfolding commit_once_def by (rule on_qmgr_operation) (auto dest: settle_call_not_retry)

interpretation backout_op: effective_operation L "backout_once L" is_backout for L
  unfolding backout_once_def by (rule on_qmgr_operation) (auto dest: settle_call_not_retry)

text \<open>Before the put no call counts, after it none is left.\<close>

lemma message_call_stable:
  "log_stable is_handle_call (at_most is_put k)" "log_stable is_handle_call (at_most is_get k)"
  "log_stable (\<lambda>x. \<not> P x) (at_most P k)"
  by (rule log_stable_at_most; auto elim: is_put.elims is_get.elims)+

lemma spends_publish_once:
  "spends (at_most is_put k) (at_most is_put (k + 1)) (publish_once L F cmd ser)"
  unfolding publish_once_def
  by (intro spends_later spends_try_finally spends_outside spends_seq_now spends_call;
      (rule pres_rules message_call_stable | simp)+)

lemma spends_get_message_once:
  "spends (at_most is_get k) (at_most is_get (k + 1)) (get_message_once L fuel t n)"
  unfolding get_message_once_def
  apply (rule spends_seq_later, rule pres_rules)
  apply (rule spends_bind_later, rule pres_rules, rule spends_seq_later, rule pres_rules)
  apply (rule spends_bind_later, rule pres_rules, rule spends_seq_later, rule pres_rules)
  apply (rule spends_bind_later, rule pres_rules, rule spends_bind_later,
      rule pres_rules, rule message_call_stable(3), simp)
  apply (rule spends_bind_now, intro spends_try_except spends_bind_now spends_call)
  apply (rule pres_rules message_call_stable(3) message_call_stable(1,2) | simp)+
  done

section \<open>What a publication puts on the wire\<close>

definition property_call :: "fslib \<Rightarrow> nat \<Rightarrow> string \<times> pyval \<Rightarrow> call" where
  "property_call F h p = SetProperty h (property_name_from_header (fst p))
     (projr (normalize_property_value F (snd p)))"

text \<open>
  The calls of one publication that returns, when \<open>n\<close> calls are on record before it: the
  queue opened is object \<open>n\<close>, the message handle, if any, object \<open>n + 1\<close>.
\<close>

definition publish_calls ::
  "mqlib \<Rightarrow> fslib \<Rightarrow> mq_publish_command \<Rightarrow> nat \<Rightarrow> nat \<Rightarrow> bytes \<Rightarrow> headers \<Rightarrow> md \<Rightarrow> call list" where
  "publish_calls L F cmd q n b hs m =
     (let opts = (if syncpoint cmd then new_pmo_Options L OR MQPMO_SYNCPOINT (CMQC L)
                  else new_pmo_Options L)
      in if hs = [] then
        [OpenQueue q (destination cmd) (MQOO_OUTPUT (CMQC L)),
         Put n b m \<lparr>pmo_Options = opts, pmo_OriginalMsgHandle = None\<rparr>, CloseQueue n]
      else
        [OpenQueue q (destination cmd) (MQOO_OUTPUT (CMQC L)), NewMessageHandle q]
        @ map (property_call F (n + 1)) hs
        @ [Put n b m \<lparr>pmo_Options = opts, pmo_OriginalMsgHandle = Some (n + 1)\<rparr>,
           CloseQueue n, DeleteHandle (n + 1)])"

definition record_all :: "call list \<Rightarrow> world \<Rightarrow> world" where
  "record_all xs w = w\<lparr>history := history w @ map (\<lambda>x. (x, True)) xs\<rparr>"

lemma record_all_simps [simp]:
  "record_all [] w = w" "record_call x True (record_all xs w) = record_all (xs @ [x]) w"
  "history (record_all xs w) = history w @ map (\<lambda>x. (x, True)) xs"
  "record_all xs (record_call y True w) = record_all (y # xs) w"
  by (simp_all add: record_all_def record_call_def)

lemma set_properties_run:
  "set_properties L F h hs s = (Returns u, t) \<Longrightarrow>
     t = (fst s, record_all (map (property_call F h) hs) (snd s))"
proof (induction hs arbitrary: s)
  case Nil
  then show ?case by (simp add: set_properties_def run_simps)
next
  case (Cons p hs)
  then have "set_properties L F h hs (fst s, record_call (property_call F h p) True (snd s)) = (Returns u, t)"
    by (cases p) (auto simp: set_properties_def run_simps property_call_def)
  from Cons.IH [OF this] show ?case by simp
qed

lemma publish_once_run:
  assumes "publish_once L F cmd ser s = (Returns u, t)"
  shows "\<exists>q b ct m. qmgr (fst s) = Some q \<and> encode_message F (body cmd) ser = Inr (b, ct)
    \<and> publish_md L cmd = Inr m
    \<and> t = (fst s,
        record_all (publish_calls L F cmd q (length (history (snd s))) b (headers_to_publish cmd ct) m) (snd s))"
proof (cases "\<exists>b ct. encode_message F (body cmd) ser = Inr (b, ct) \<and> headers_to_publish cmd ct = []")
  case True
  with assms show ?thesis
    by (auto simp: publish_once_def run_simps Let_def publish_calls_def
        simp flip: record_all_simps(1) simp: record_all_def record_call_def)
next
  case False
  with assms show ?thesis
    by (auto simp: publish_once_def run_simps Let_def publish_calls_def dest!: set_properties_run)
qed

lemma publish_calls_put [simp]:
  "returned_where is_put (map (\<lambda>x. (x, True)) (publish_calls L F cmd q n b hs m)) = 1"
proof -
  have "returned_where is_put (map ((\<lambda>x. (x, True)) \<circ> property_call F k) hs) = 0" for k
    by (induction hs) (auto simp: returned_where_def property_call_def)
  moreover have "returned_where is_put ((x, b) # h) = (if is_put x \<and> b then 1 else 0) + returned_where is_put h"
    for x b h by (simp add: returned_where_def)
  ultimately show ?thesis by (simp add: publish_calls_def Let_def)
qed

interpretation publish_op: effective_operation L "publish_once L F cmd ser" is_put for L F cmd ser
proof
  show "preserves (conn_ok L) (publish_once L F cmd ser)"
    by (rule pres_publish_once) simp
  show "\<not> retry_call x" if "is_put x" for x using settle_call_not_retry(3) that .
  show "hoare (at_most is_put k) (publish_once L F cmd ser) (\<lambda>_. at_most is_put (k + 1))" for k
    by (rule spends_hoare [OF spends_publish_once])
  show "preserves (adds (\<lambda>_. True) h0) (publish_once L F cmd ser)" for h0
    by (rule pres_publish_once) simp
  show "returned_where is_put (history (snd s))
      < returned_where is_put (history (snd (snd (publish_once L F cmd ser s))))"
    if "fst (publish_once L F cmd ser s) = Returns x" for s x
  proof -
    have "publish_once L F cmd ser s = (Returns x, snd (publish_once L F cmd ser s))"
      using that by (simp add: prod_eq_iff)
    from publish_once_run [OF this] show ?thesis by auto
  qed
qed

interpretation get_op: retried_operation L "get_message_once L fuel t n" is_get for L fuel t n
proof
  show "preserves (conn_ok L) (get_message_once L fuel t n)"
    by (rule pres_get_message_once) simp
  show "\<not> retry_call x" if "is_get x" for x using settle_call_not_retry(4) that .
  show "hoare (at_most is_get k) (get_message_once L fuel t n) (\<lambda>_. at_most is_get (k + 1))" for k
    by (rule spends_hoare [OF spends_get_message_once])
  show "preserves (adds (\<lambda>_. True) h0) (get_message_once L fuel t n)" for h0
    by (rule pres_get_message_once) simp
qed

text \<open>A run of the retry wrapper that returns, attempt by attempt.\<close>

lemma run_with_reconnect_run:
  assumes "run_with_reconnect_sync L op b s = (Returns x, t)"
  shows "mq_available L \<and> (op s = (Returns x, t) \<or>
    (\<exists>e s1 s2 s3. op s = (Raises e, s1) \<and> reconnectable L e
       \<and> recover_connection_sync L b s1 = (Returns (), s2)
       \<and> call_unit L (Sleep pause) s2 = (Returns (), s3) \<and> op s3 = (Returns x, t)))"
proof -
  have L: "mq_available L" using assms by (auto simp: run_with_reconnect_sync_def run_simps)
  show ?thesis
    using assms L
    by (cases "op s"; cases "fst (op s)")
      (auto simp: run_with_reconnect_apply seq_run split: if_splits)
qed

lemma recovered_attempt:
  assumes "conn_ok L s1" and "recover_connection_sync L b s1 = (Returns (), s2)"
    and "call_unit L (Sleep pause) s2 = (Returns (), s3)"
  shows "conn_ok L s3 \<and> (\<exists>q \<ge> length (history (snd s1)). qmgr (fst s3) = Some q)
    \<and> (\<exists>h. history (snd s3) = history (snd s1) @ h \<and> list_all (\<lambda>(x, b). retry_call x) h)"
proof -
  have "conn_ok L s2 \<and> (\<exists>q \<ge> length (history (snd s1)). qmgr (fst s2) = Some q)"
    using hoare_apply [OF hoare_recover_at [of L "length (history (snd s1))"
        "consumer_queue_name (fst s1)" b], of s1] assms(1,2)
    by (simp add: conn_ok_weak recovered_def)
  moreover have "conn_ok L s3" if "conn_ok L s2"
    using preservesD [OF pres_pause that] assms(3) by simp
  moreover have "fst s3 = fst s2" using assms(3) by (simp add: call_unit_run)
  moreover have "adds retry_call (history (snd s1)) s3"
    using adds_after_retry [of s1 L b] assms(2,3) by (simp add: seq_apply)
  ultimately show ?thesis by (auto simp: adds_def)
qed

lemma retry_calls_count:
  "list_all (\<lambda>(x, b). retry_call x) h \<Longrightarrow> (\<And>x. P x \<Longrightarrow> \<not> retry_call x) \<Longrightarrow> calls_where P h = 0"
  by (induction h) (auto simp: calls_where_def)

text \<open>
  C12. What \<open>publish\<close> promises when it returns: the message was encoded and its descriptor
  built, and the last calls are exactly those of one publication in which every call
  succeeded, on the queue manager the connection now holds: the destination opened for
  output, the headers set as properties of a new handle, one put of the body under that
  descriptor and handle, the handles closed. Before them there is nothing, or a failed
  attempt with at most one more put and the recovery to a new queue manager.
\<close>

theorem publish_delivers:
  assumes "conn_ok L s" and "publish L F cmd ser s = (Returns u, t)"
  shows "\<exists>h q b ct m. encode_message F (body cmd) ser = Inr (b, ct) \<and> publish_md L cmd = Inr m
    \<and> qmgr (fst t) = Some q \<and> live_qmgr (history (snd t)) q
    \<and> history (snd t) = history (snd s) @ h @ map (\<lambda>x. (x, True))
        (publish_calls L F cmd q (length (history (snd s) @ h)) b (headers_to_publish cmd ct) m)
    \<and> (h = [] \<and> qmgr (fst s) = Some q
       \<or> calls_where is_put h \<le> 1 \<and> length (history (snd s)) \<le> q)"
proof -
  let ?op = "publish_once L F cmd ser"
  have keeps: "preserves (conn_ok L) ?op" by (rule publish_op.keeps)
  have live: "live_qmgr (history (snd t)) q" if "qmgr (fst t) = Some q" for q
    using preservesD [OF pres_message_ok(2) [of L F cmd ser] assms(1)] assms(2) that by (simp add: conn_ok_defs)
  obtain r where "run_with_reconnect_sync L ?op r s = (Returns u, t)"
    using assms(2) by (auto simp: publish_def started_def publish_sync_def run_simps)
  from run_with_reconnect_run [OF this] have "?op s = (Returns u, t) \<or> (\<exists>e s1 s2 s3. ?op s = (Raises e, s1)
      \<and> recover_connection_sync L r s1 = (Returns (), s2)
      \<and> call_unit L (Sleep pause) s2 = (Returns (), s3) \<and> ?op s3 = (Returns u, t))"
    by blast
  then show ?thesis
  proof (elim disjE exE conjE)
    assume "?op s = (Returns u, t)"
    from publish_once_run [OF this] live show ?thesis
      by (auto intro!: exI [of _ "[]"])
  next
    fix e s1 s2 s3
    assume op: "?op s = (Raises e, s1)" and rec: "recover_connection_sync L r s1 = (Returns (), s2)"
      and pause: "call_unit L (Sleep pause) s2 = (Returns (), s3)" and op3: "?op s3 = (Returns u, t)"
    have ok1: "conn_ok L s1" using preservesD [OF keeps assms(1)] op by simp
    obtain q h2 where q: "length (history (snd s1)) \<le> q" "qmgr (fst s3) = Some q"
      and h2: "history (snd s3) = history (snd s1) @ h2" "list_all (\<lambda>(x, b). retry_call x) h2"
      using recovered_attempt [OF ok1 rec pause] by blast
    obtain h1 where h1: "history (snd s1) = history (snd s) @ h1"
      using preservesD [OF publish_op.grows adds_start, of s L F cmd ser] op by (auto simp: adds_def)
    have "at_most is_put (calls_where is_put (history (snd s)) + 1) s1"
      using spendsD [OF spends_publish_once [of "calls_where is_put (history (snd s))" L F cmd ser], of s] op
      by (simp add: at_most_def)
    then have "calls_where is_put (h1 @ h2) \<le> 1"
      using retry_calls_count [OF h2(2), of is_put] h1 by (simp add: at_most_def settle_call_not_retry)
    then show ?thesis
      using publish_once_run [OF op3] live q h1 h2(1)
      by (intro exI [of _ "h1 @ h2"]) auto
  qed
qed

definition sample_cmd :: mq_publish_command where
  "sample_cmd =
     \<lparr>body = PStr ''hi'', destination = ''ORDERS.OUT'', headers_of = [(''x-id'', PInt 7)],
      correlation_id = None, reply_to = [], publish_type = PUBLISH, message_id = None,
      reply_to_qmgr = [], priority = Some 4, persistence = Some True, expiry = None,
      message_type = None, timeout = Fin 5 0, native_correlation_id = None, syncpoint = False\<rparr>"

definition lost_at :: "nat \<Rightarrow> world \<Rightarrow> call \<Rightarrow> exn option" where
  "lost_at n w c = (if length (history w) = n then Some (MQMIError 2009 0) else None)"

theorem publish_delivers_witness:
  "\<exists>h q b ct m. encode_message sample_fslib (body sample_cmd) None = Inr (b, ct)
     \<and> publish_md (sample_lib (lost_at 3)) sample_cmd = Inr m
     \<and> history (snd (snd (publish (sample_lib (lost_at 3)) sample_fslib sample_cmd None sample_started)))
       = history (snd sample_started) @ h @ map (\<lambda>x. (x, True))
          (publish_calls (sample_lib (lost_at 3)) sample_fslib sample_cmd q
            (length (history (snd sample_started) @ h)) b (headers_to_publish sample_cmd ct) m)"
proof -
  let ?x = "publish (sample_lib (lost_at 3)) sample_fslib sample_cmd None sample_started"
  have r: "fst ?x = Returns ()" by code_simp
  have x: "?x = (Returns (), snd ?x)" using r by (simp add: prod_eq_iff)
  show ?thesis
    using publish_delivers [OF conn_ok_sample_started x] by blast
qed


section \<open>A request is sent once\<close>

text \<open>The outcomes of the puts on record, in order.\<close>

definition put_results :: "history \<Rightarrow> bool list" where
  "put_results h = map snd (filter (\<lambda>(x, _). is_put x) h)"

definition put_log :: "bool list \<Rightarrow> cst \<Rightarrow> bool" where
  "put_log ps s \<longleftrightarrow> put_results (history (snd s)) = ps"

lemma put_results_append [simp]: "put_results (h @ k) = put_results h @ put_results k"
  by (simp add: put_results_def)

lemma put_results_single [simp]: "put_results [(x, b)] = (if is_put x then [b] else [])"
  by (simp add: put_results_def)

lemma log_stable_put_log: "(\<And>x. Q x \<Longrightarrow> \<not> is_put x) \<Longrightarrow> log_stable Q (put_log ps)"
  by (auto simp: log_stable_def put_log_def)

lemma put_log_stable:
  "log_stable (\<lambda>x. \<not> is_put x) (put_log ps)" "log_stable is_handle_call (put_log ps)"
  by (rule log_stable_put_log; auto elim: is_put.elims)+

lemma pres_put_log_recover: "preserves (put_log ps) (recover_connection_sync L b)"
  by (rule pres_link_recover)
    (auto simp: link_stable_def tls_blind_def log_stable_def put_log_def dest: settle_call_not_retry)

lemma pres_put_log_pause: "preserves (put_log ps) (call_unit L (Sleep pause))"
  by (rule pres_call_unit [OF put_log_stable(1)]) simp

text \<open>At most one put since the log \<open>ps\<close>, and, if \<open>clean\<close>, none that succeeded.\<close>

definition one_put :: "bool list \<Rightarrow> bool \<Rightarrow> cst \<Rightarrow> bool" where
  "one_put ps clean s \<longleftrightarrow> (\<exists>ps'. put_log (ps @ ps') s \<and> length ps' \<le> 1 \<and> (clean \<longrightarrow> True \<notin> set ps'))"

lemma one_put_start: "put_log ps s \<Longrightarrow> one_put ps b s"
  by (auto simp: one_put_def intro: exI [of _ "[]"])

lemma one_put_weaken: "one_put ps b s \<Longrightarrow> (c \<Longrightarrow> b) \<Longrightarrow> one_put ps c s"
  by (auto simp: one_put_def)

lemma pres_one_put: "(\<And>qs. preserves (put_log qs) m) \<Longrightarrow> preserves (one_put ps b) m"
  unfolding preserves_def one_put_def by blast

definition reconnectable_error :: "mqlib \<Rightarrow> 'a outcome \<Rightarrow> bool" where
  "reconnectable_error L r \<longleftrightarrow> (\<exists>e. r = Raises e \<and> reconnectable L e)"

lemma hoare_put_and_read:
  "hoare (\<lambda>sl. put_log ps (fst sl))
     (bind (outside (on_world (call_lib ans (Put q b m p))))
        (\<lambda>mid. seq (assert_that (mid \<noteq> PNone) [])
          (bind (lift_sum (py_bytes mid)) (\<lambda>request_message_id.
           seq (local (\<lambda>f. f\<lparr>request_published := True\<rparr>)) (ret (g request_message_id))))))
     (\<lambda>r sl. one_put ps (reconnectable_error L r) (fst sl))"
  unfolding hoare_def one_put_def put_log_def reconnectable_error_def
  by (auto simp: prog_simps py_bytes_def reconnectable_def split: sum.splits outcome.splits if_splits pyval.splits)

lemma put_later_bind:
  "preserves (\<lambda>sl. put_log ps (fst sl)) m \<Longrightarrow>
   (\<And>x. hoare (\<lambda>sl. put_log ps (fst sl)) (k x) (\<lambda>r sl. one_put ps (reconnectable_error L r) (fst sl))) \<Longrightarrow>
   hoare (\<lambda>sl. put_log ps (fst sl)) (bind m k) (\<lambda>r sl. one_put ps (reconnectable_error L r) (fst sl))"
  by (rule hoare_step_bind) (auto intro: one_put_start)

lemma put_later_seq:
  "preserves (\<lambda>sl. put_log ps (fst sl)) m \<Longrightarrow>
   hoare (\<lambda>sl. put_log ps (fst sl)) k (\<lambda>r sl. one_put ps (reconnectable_error L r) (fst sl)) \<Longrightarrow>
   hoare (\<lambda>sl. put_log ps (fst sl)) (seq m k) (\<lambda>r sl. one_put ps (reconnectable_error L r) (fst sl))"
  by (rule hoare_step_seq) (auto intro: one_put_start)

lemma hoare_case_prod: "(\<And>x y. hoare P (f x y) Q) \<Longrightarrow> hoare P (case p of (x, y) \<Rightarrow> f x y) Q"
  by (cases p) auto

lemma hoare_request_body:
  "hoare (\<lambda>sl. put_log ps (fst sl)) (request_attempt_body L cmd F b hs)
     (\<lambda>r sl. one_put ps (reconnectable_error L r) (fst sl))"
  unfolding request_attempt_body_def
  by (rule hoare_put_and_read | rule put_later_bind put_later_seq hoare_case_prod
      | rule pres_rules put_log_stable(1) put_log_stable(2) | simp)+

lemma pres_put_log_finally:
  "preserves (\<lambda>sl. put_log ps (fst sl)) (request_attempt_finally L)"
  unfolding request_attempt_finally_def
  by (rule pres_rules put_log_stable(1) | simp)+

lemma hoare_request_attempt:
  "hoare (put_log ps) (request_attempt L cmd F b hs last_attempt) (\<lambda>r. one_put ps (r = Returns None))"
proof -
  let ?h = "\<lambda>e. if \<not> reconnectable L e \<or> last_attempt then throw e
      else seq (outside (recover_connection_sync L False)) (seq (outside (call_unit L (Sleep pause))) (ret None))"
  have h: "preserves (\<lambda>sl. one_put ps c (fst sl)) (outside (recover_connection_sync L False))"
      "preserves (\<lambda>sl. one_put ps c (fst sl)) (outside (call_unit L (Sleep pause)))" for c
    by (intro pres_outside pres_one_put pres_put_log_recover pres_put_log_pause)+
  have body: "hoare (\<lambda>sl. put_log ps (fst sl)) (bind (request_attempt_body L cmd F b hs) (\<lambda>r. ret (Some r)))
      (\<lambda>r sl. r \<noteq> Returns None \<and> one_put ps (reconnectable_error L r) (fst sl))"
    by (rule hoare_bind [OF hoare_request_body])
      (auto simp: reconnectable_error_def intro!: hoare_ret)
  have handler: "hoare (\<lambda>sl. one_put ps (reconnectable_error L (Raises e :: 'x outcome)) (fst sl)) (?h e)
      (\<lambda>r sl. one_put ps (r = Returns None) (fst sl))" for e
  proof (cases "\<not> reconnectable L e \<or> last_attempt")
    case True
    then show ?thesis by (auto intro!: hoare_throw intro: one_put_weaken)
  next
    case False
    then have c: "reconnectable_error L (Raises e :: 'x outcome)" by (auto simp: reconnectable_error_def)
    from False show ?thesis
      by (auto simp: c intro!: hoare_step_seq h hoare_ret intro: one_put_weaken)
  qed
  have fin: "preserves (\<lambda>sl. one_put ps c (fst sl)) (request_attempt_finally L)" for c
    using pres_put_log_finally unfolding preserves_def one_put_def by blast
  have "hoare (\<lambda>sl. put_log ps (fst sl))
      (try_finally (try_except (bind (request_attempt_body L cmd F b hs) (\<lambda>r. ret (Some r))) ?h)
         (request_attempt_finally L)) (\<lambda>r sl. one_put ps (r = Returns None) (fst sl))"
  proof (rule hoare_try_finally)
    show "hoare (\<lambda>sl. put_log ps (fst sl))
        (try_except (bind (request_attempt_body L cmd F b hs) (\<lambda>r. ret (Some r))) ?h)
        (\<lambda>r sl. one_put ps (r = Returns None) (fst sl))"
    proof (rule hoare_try_except [OF body])
      show "hoare (\<lambda>sl. Raises e \<noteq> Returns None \<and> one_put ps (reconnectable_error L (Raises e)) (fst sl))
          (?h e) (\<lambda>r sl. one_put ps (r = Returns None) (fst sl))" for e
        by (rule hoare_strengthen [OF handler]) (simp add: reconnectable_error_def)
    qed (auto intro: one_put_weaken)
    show "hoare (\<lambda>sl. one_put ps (r = Returns None) (fst sl)) (request_attempt_finally L)
        (\<lambda>r' s. case r' of Returns _ \<Rightarrow> one_put ps (r = Returns None) (fst s)
          | Raises e \<Rightarrow> one_put ps (Raises e = Returns None) (fst s)
          | NoFuel \<Rightarrow> one_put ps (NoFuel = Returns None) (fst s))" for r
      using fin unfolding hoare_preserves_iff
      by (rule hoare_post) (auto split: outcome.split intro: one_put_weaken)
  qed
  then show ?thesis
    unfolding request_attempt_def by (simp add: hoare_def prog_simps)
qed


lemma one_put_spent: "one_put ps True s \<Longrightarrow> \<exists>qs. put_log (ps @ qs) s \<and> length qs \<le> 1 \<and> True \<notin> set qs"
  by (auto simp: one_put_def)

text \<open>The put results a request may leave: at most two puts, and only the last succeeded.\<close>

definition request_puts :: "bool list \<Rightarrow> cst \<Rightarrow> bool" where
  "request_puts ps s \<longleftrightarrow> (\<exists>qs. put_log (ps @ qs) s \<and> length qs \<le> 2 \<and> True \<notin> set (butlast qs))"

lemma one_put_request_puts: "one_put ps b s \<Longrightarrow> request_puts ps s"
  unfolding one_put_def request_puts_def
  by (metis append_Nil butlast.simps(1) butlast_append le_SucI length_0_conv length_butlast
      numeral_2_eq_2 diff_is_0_eq' list.set(1) empty_iff One_nat_def)

lemma one_put_twice:
  assumes "put_log (ps @ qs) u" and "length qs \<le> 1" and "True \<notin> set qs" and "one_put (ps @ qs) b s"
  shows "request_puts ps s"
proof -
  obtain rs where rs: "put_log (ps @ qs @ rs) s" "length rs \<le> 1"
    using assms(4) by (auto simp: one_put_def)
  have "True \<notin> set (butlast (qs @ rs))"
    using assms(3) rs(2) by (cases rs) (auto simp: butlast_append dest: in_set_butlastD)
  then show ?thesis
    using rs assms(2) unfolding request_puts_def by (intro exI [of _ "qs @ rs"]) auto
qed

lemma pres_request_puts: "(\<And>qs. preserves (put_log qs) m) \<Longrightarrow> preserves (request_puts ps) m"
  unfolding preserves_def request_puts_def by blast

lemma hoare_second_attempt:
  "hoare (one_put ps True) (request_attempt L cmd F b hs True) (\<lambda>_. request_puts ps)"
proof (rule hoareI)
  fix s assume "one_put ps True s"
  then obtain qs where qs: "put_log (ps @ qs) s" "length qs \<le> 1" "True \<notin> set qs"
    using one_put_spent by blast
  have "one_put (ps @ qs) (fst (request_attempt L cmd F b hs True s) = Returns None)
      (snd (request_attempt L cmd F b hs True s))"
    by (rule hoare_apply [OF hoare_request_attempt qs(1)])
  then show "request_puts ps (snd (request_attempt L cmd F b hs True s))"
    using one_put_twice qs by blast
qed

lemma hoare_publish_request:
  "hoare (put_log ps) (publish_request_sync L F cmd ser) (\<lambda>_. request_puts ps)"
proof -
  have start: "put_log ps s \<Longrightarrow> request_puts ps s" for s
    by (rule one_put_request_puts [OF one_put_start])
  have loop: "hoare (put_log ps)
      (bind (request_attempt L cmd F b hs False) (\<lambda>r. case r of Some x \<Rightarrow> ret x
        | None \<Rightarrow> bind (request_attempt L cmd F b hs True) (\<lambda>r. case r of Some x \<Rightarrow> ret x
          | None \<Rightarrow> throw (RuntimeError ''IBM MQ request publish retry exhausted.''))))
      (\<lambda>_. request_puts ps)" for b hs
  proof (rule hoare_bind [OF hoare_request_attempt])
    fix r
    have tail: "hoare (request_puts ps) (case r of Some x \<Rightarrow> ret x
          | None \<Rightarrow> throw (RuntimeError ''IBM MQ request publish retry exhausted.'')) (\<lambda>_. request_puts ps)"
      for r :: "(nat \<times> string \<times> bytes) option"
      by (cases r) (auto intro: hoare_ret hoare_throw)
    show "hoare (one_put ps (Returns r = Returns None)) (case r of Some x \<Rightarrow> ret x
        | None \<Rightarrow> bind (request_attempt L cmd F b hs True) (\<lambda>r. case r of Some x \<Rightarrow> ret x
          | None \<Rightarrow> throw (RuntimeError ''IBM MQ request publish retry exhausted.''))) (\<lambda>_. request_puts ps)"
    proof (cases r)
      case None
      then show ?thesis
        by simp (rule hoare_bind [OF hoare_second_attempt tail]; simp)
    next
      case (Some x)
      then show ?thesis by (simp add: hoare_ret one_put_request_puts)
    qed
  qed (auto intro: one_put_request_puts)
  show ?thesis
    unfolding publish_request_sync_def Let_def
    by (rule hoare_step_seq hoare_step_bind hoare_case_prod loop pres_load pres_lift_sum | erule start)+
qed

lemma pres_wait_put_log: "preserves (put_log ps) (wait_for_reply_sync L fuel rq n mid t)"
  unfolding wait_for_reply_sync_def
  by (rule pres_rules put_log_stable(1,2) | simp)+

lemma log_stable_request_puts: "log_stable (\<lambda>x. \<not> is_put x) (request_puts ps)"
  using put_log_stable(1) unfolding log_stable_def request_puts_def by blast

lemma spends_request_sync: "spends (put_log ps) (request_puts ps) (request_sync L F fuel cmd ser)"
proof -
  have pub: "spends (put_log ps) (request_puts ps) (publish_request_sync L F cmd ser)"
    using hoare_publish_request by (auto simp: spends_def intro: one_put_request_puts one_put_start)
  have wait: "preserves (request_puts ps) (wait_for_reply_sync L fuel rq n mid t)" for rq n mid t
    by (rule pres_request_puts) (rule pres_wait_put_log)
  have rec: "preserves (request_puts ps) (recover_connection_sync L False)"
    by (rule pres_request_puts) (rule pres_put_log_recover)
  show ?thesis
    unfolding request_sync_def
    by (intro spends_seq_later spends_frame spends_try_finally spends_try_except spends_bind_now
        spends_outside pub; (assumption | rule pres_rules wait rec log_stable_request_puts | simp)+)
qed

text \<open>
  C3. A request is never sent twice, whatever fails: one request makes at most two puts,
  and none after a put that succeeded. The connection is recovered, and the put repeated,
  only while no put has succeeded.
\<close>

theorem request_put_once:
  "\<exists>qs. put_results (history (snd (snd (request L F fuel cmd ser s))))
      = put_results (history (snd s)) @ qs
    \<and> length qs \<le> 2 \<and> True \<notin> set (butlast qs)"
proof -
  let ?ps = "put_results (history (snd s))"
  have "spends (put_log ?ps) (request_puts ?ps) (request L F fuel cmd ser)"
    unfolding request_def started_def
    by (intro spends_bind_later spends_seq_later spends_request_sync) (rule pres_rules)+
  from spendsD [OF this, of s] show ?thesis
    by (auto simp: request_puts_def put_log_def)
qed


section \<open>The reply belongs to the request\<close>

text \<open>
  The calls of an attempt up to its put, when \<open>n\<close> calls are on record before it: object
  \<open>n\<close> is the temporary reply queue, \<open>n + 1\<close> the destination, \<open>n + 2\<close> the message handle.
\<close>

definition reply_open :: "mqlib \<Rightarrow> MQConnectionConfig \<Rightarrow> nat \<Rightarrow> call" where
  "reply_open L cfg q =
     OpenDynamicQueue q (reply_model_queue cfg) ''FASTSTREAM.REPLY.*'' (MQOO_INPUT_EXCLUSIVE (CMQC L))"

definition request_opens ::
  "mqlib \<Rightarrow> fslib \<Rightarrow> MQConnectionConfig \<Rightarrow> mq_publish_command \<Rightarrow> nat \<Rightarrow> nat \<Rightarrow> headers \<Rightarrow> call list" where
  "request_opens L F cfg cmd q n hs =
     [reply_open L cfg q, OpenQueue q (destination cmd) (MQOO_OUTPUT (CMQC L))]
     @ (if hs = [] then [] else NewMessageHandle q # map (property_call F (n + 2)) hs)"

definition request_put :: "mqlib \<Rightarrow> nat \<Rightarrow> bytes \<Rightarrow> headers \<Rightarrow> md \<Rightarrow> call" where
  "request_put L n b hs m = Put (n + 1) b m
     \<lparr>pmo_Options = new_pmo_Options L,
      pmo_OriginalMsgHandle = (if hs = [] then None else Some (n + 2))\<rparr>"

definition request_sent ::
  "mqlib \<Rightarrow> fslib \<Rightarrow> MQConnectionConfig \<Rightarrow> mq_publish_command \<Rightarrow> nat \<Rightarrow> bytes \<Rightarrow> headers \<Rightarrow>
   string \<Rightarrow> md \<Rightarrow> bytes \<Rightarrow> world \<Rightarrow> world \<Rightarrow> bool" where
  "request_sent L F cfg cmd q b hs reply_name m mid w w' \<longleftrightarrow>
     (let n = length (history w); opens = request_opens L F cfg cmd q n hs; put = request_put L n b hs m in
        (\<exists>nm. ans_dynamic L w (reply_open L cfg q) = Inr nm \<and> mq_str nm = Inr reply_name)
        \<and> request_md L cfg cmd reply_name = Inr m
        \<and> (\<exists>v. ans_put L (record_all opens w) put = Inr v \<and> py_bytes v = Inr mid)
        \<and> w' = record_all (opens @ [put]) w)"

lemma world_extend_record [simp]:
  "w\<lparr>history := history w @ [(x, True)]\<rparr> = record_all [x] w"
  "record_call x True w = record_all [x] w"
  "record_all ys (record_all xs w) = record_all (xs @ ys) w"
  by (simp_all add: record_all_def record_call_def)

lemma log_stable_fst: "log_stable (\<lambda>_. True) (\<lambda>s. fst s = c)"
  by (simp add: log_stable_def)

lemma request_body_run:
  assumes "request_attempt_body L cmd F b hs sl = (Returns (rq, reply_name, mid), z)"
    and "put_handle (snd sl) = None"
  shows "\<exists>q m. qmgr (fst (fst sl)) = Some q \<and> rq = length (history (snd (fst sl)))
    \<and> fst (fst z) = fst (fst sl)
    \<and> request_sent L F (connection_config (fst (fst sl))) cmd q b hs reply_name m mid
        (snd (fst sl)) (snd (fst z))"
proof (cases "hs = []")
  case True
  with assms show ?thesis
    by (cases sl) (auto simp: request_attempt_body_def run_simps request_sent_def request_opens_def
        request_put_def reply_open_def Let_def)
next
  case False
  with assms show ?thesis
    by (cases sl) (auto simp: request_attempt_body_def run_simps request_sent_def request_opens_def
        request_put_def reply_open_def Let_def dest!: set_properties_run)
qed

text \<open>An attempt that returns its \<open>Some\<close> sent the request; closing handles comes after.\<close>

lemma request_attempt_run:
  assumes "request_attempt L cmd F b hs l s = (Returns (Some (rq, reply_name, mid)), t)"
  shows "\<exists>q m w' h. qmgr (fst s) = Some q \<and> rq = length (history (snd s)) \<and> fst t = fst s
    \<and> request_sent L F (connection_config (fst s)) cmd q b hs reply_name m mid (snd s) w'
    \<and> history (snd t) = history w' @ h"
proof -
  let ?f = "\<lparr>reply_queue = None, out_queue = None, put_handle = None, request_published = False\<rparr>"
  obtain z l' where body: "request_attempt_body L cmd F b hs (s, ?f) = (Returns (rq, reply_name, mid), z)"
    and fin: "request_attempt_finally L z = (Returns (), (t, l'))"
    using assms by (auto simp: request_attempt_def run_simps split: if_splits)
  have log: "preserves (\<lambda>sl. adds (\<lambda>_. True) (history (snd (fst z))) (fst sl)) (request_attempt_finally L)"
    by (rule pres_request_attempt_finally) simp
  have "adds (\<lambda>_. True) (history (snd (fst z))) (fst (snd (request_attempt_finally L z)))"
    by (rule preservesD [OF log, of z]) (simp add: adds_start)
  with fin obtain h where h: "history (snd t) = history (snd (fst z)) @ h"
    by (auto simp: adds_def)
  have "preserves (\<lambda>sl. fst (fst sl) = fst (fst z)) (request_attempt_finally L)"
    unfolding request_attempt_finally_def
    by (rule pres_rules log_stable_fst | simp)+
  then have "fst t = fst (fst z)" using fin by (auto dest: preservesD [of _ _ z])
  with request_body_run [OF body] h show ?thesis by auto
qed

lemma pres_config_recover:
  "preserves (\<lambda>s. connection_config (fst s) = c) (recover_connection_sync L b)"
  by (rule pres_link_recover) (simp_all add: link_stable_def log_stable_def tls_blind_def)

lemma request_attempt_none:
  assumes "request_attempt L cmd F b hs l s = (Returns None, t)"
  shows "connection_config (fst t) = connection_config (fst s)
    \<and> (\<exists>h. history (snd t) = history (snd s) @ h)"
proof -
  have c: "preserves (\<lambda>s. connection_config (fst s) = connection_config (fst s')) (request_attempt L cmd F b hs l)"
    for s' :: cst
    by (rule pres_request_attempt [OF _ pres_config_recover])
      (simp_all add: log_stable_def preserves_def call_unit_apply split: sum.split)
  have "preserves (adds (\<lambda>_. True) h0) (recover_connection_sync L b)" for h0 b
    by (rule pres_link_recover) (auto simp: adds_def intro: link_stable_adds)
  then have "preserves (adds (\<lambda>_. True) h0) (request_attempt L cmd F b hs l)" for h0
    by (rule pres_request_attempt [rotated]) (auto intro: pres_call_unit [of "\<lambda>_. True"])
  from preservesD [OF this adds_start, of s] preservesD [OF c [of s], of s] assms
  show ?thesis by (auto simp: adds_def)
qed

lemma publish_request_run:
  assumes "publish_request_sync L F cmd ser s = (Returns (rq, reply_name, mid), t)"
  shows "\<exists>b ct q m h w w' h'. encode_message F (body cmd) ser = Inr (b, ct)
    \<and> history w = history (snd s) @ h \<and> rq = length (history w)
    \<and> request_sent L F (connection_config (fst s)) cmd q b (headers_to_publish cmd ct) reply_name m mid w w'
    \<and> history (snd t) = history w' @ h'"
proof -
  obtain b ct where enc: "encode_message F (body cmd) ser = Inr (b, ct)"
    and att: "request_attempt L cmd F b (headers_to_publish cmd ct) False s = (Returns (Some (rq, reply_name, mid)), t)
      \<or> (\<exists>u. request_attempt L cmd F b (headers_to_publish cmd ct) False s = (Returns None, u)
          \<and> request_attempt L cmd F b (headers_to_publish cmd ct) True u = (Returns (Some (rq, reply_name, mid)), t))"
  proof -
    obtain b ct x u where "encode_message F (body cmd) ser = Inr (b, ct)"
      and "request_attempt L cmd F b (headers_to_publish cmd ct) False s = (Returns x, u)"
      and "(case x of Some y \<Rightarrow> ret y
          | None \<Rightarrow> bind (request_attempt L cmd F b (headers_to_publish cmd ct) True) (\<lambda>r. case r of
              Some y \<Rightarrow> ret y
            | None \<Rightarrow> throw (RuntimeError ''IBM MQ request publish retry exhausted.''))) u
        = (Returns (rq, reply_name, mid), t)"
      using assms by (auto simp: publish_request_sync_def run_simps Let_def)
    then show thesis
      by (cases x) (auto simp: run_simps intro!: that split: option.splits)
  qed
  from att show ?thesis
  proof (elim disjE exE conjE)
    assume "request_attempt L cmd F b (headers_to_publish cmd ct) False s = (Returns (Some (rq, reply_name, mid)), t)"
    from request_attempt_run [OF this] enc show ?thesis
      by (metis append_Nil2)
  next
    fix u
    assume "request_attempt L cmd F b (headers_to_publish cmd ct) False s = (Returns None, u)"
      and "request_attempt L cmd F b (headers_to_publish cmd ct) True u = (Returns (Some (rq, reply_name, mid)), t)"
    from request_attempt_none [OF this(1)] request_attempt_run [OF this(2)] enc show ?thesis
      by metis
  qed
qed

lemma case_mqmi_run [run_simps]:
  "(case e of MQMIError r n \<Rightarrow> f r n | _ \<Rightarrow> d) s = (Returns y, t) \<longleftrightarrow>
     (\<exists>r n. e = MQMIError r n \<and> f r n s = (Returns y, t))
     \<or> ((\<forall>r n. e \<noteq> MQMIError r n) \<and> d s = (Returns y, t))"
  by (cases e) auto

text \<open>
  The two kinds of get, by what the documentation of MQGET calls for: wait, with the
  properties in a handle, inside the unit of work and for any message, or outside of it
  and only for the reply with a given correlation identifier.
\<close>

definition unit_of_work_get :: "mqlib \<Rightarrow> int \<Rightarrow> nat \<Rightarrow> gmo" where
  "unit_of_work_get L wi h =
     \<lparr>gmo_Options = MQGMO_WAIT (CMQC L) OR MQGMO_SYNCPOINT (CMQC L) OR MQGMO_PROPERTIES_IN_HANDLE (CMQC L),
      gmo_MatchOptions = None, gmo_WaitInterval = wi, gmo_MsgHandle = h\<rparr>"

definition correlated_get :: "mqlib \<Rightarrow> int \<Rightarrow> nat \<Rightarrow> gmo" where
  "correlated_get L wi h =
     \<lparr>gmo_Options = MQGMO_WAIT (CMQC L) OR MQGMO_NO_SYNCPOINT (CMQC L) OR MQGMO_PROPERTIES_IN_HANDLE (CMQC L),
      gmo_MatchOptions = Some (MQMO_MATCH_CORREL_ID (CMQC L)), gmo_WaitInterval = wi, gmo_MsgHandle = h\<rparr>"

lemma get_options_spec: "get_options L wi h = unit_of_work_get L wi h"
  by (simp add: get_options_def unit_of_work_get_def)

lemma reply_options_spec: "reply_options L wi h = correlated_get L wi h"
  by (simp add: reply_options_def correlated_get_def)

lemma wait_for_reply_run:
  assumes "wait_for_reply_sync L fuel rq n mid tm s = (Returns msg, t)"
  shows "\<exists>wi g h h'. to_wait_interval tm = Inr wi
    \<and> history (snd t) = history (snd s) @ h
        @ [(Get rq ((new_md L)\<lparr>CorrelId := PBytes mid\<rparr>) (correlated_get L wi g), True)] @ h'
    \<and> raw_queue msg = n \<and> connection msg = None"
proof -
  define get where "get wi g = Get rq ((new_md L)\<lparr>CorrelId := PBytes mid\<rparr>) (reply_options L wi g)" for wi g
  obtain wi q g s1 b m s2 hs where wi: "to_wait_interval tm = Inr wi"
    and s1: "call_object L (NewMessageHandle q) s = (Returns g, s1)"
    and got: "try_except (on_world (call_lib (ans_get L) (get wi g)))
             (\<lambda>e. case e of
                MQMIError r len \<Rightarrow>
                  if r = MQRC_NO_MSG_AVAILABLE (CMQC L)
                  then seq (call_unit L (DeleteHandle g)) (throw TimeoutError)
                  else seq (call_unit L (DeleteHandle g)) (throw e)
              | _ \<Rightarrow> throw e) s1 = (Returns (b, m), s2)"
    and hs: "try_finally (read_headers L fuel g 64) (call_unit L (DeleteHandle g)) s2 = (Returns hs, t)"
    and msg: "build_raw_message L b m hs n None = Inr msg"
    using assms unfolding wait_for_reply_sync_def get_def
    by (simp only: seq_run bind_run load_run lift_sum_run getc_run) (fastforce simp: bind_run lift_sum_run)
  have s2: "s2 = (fst s1, record_call (get wi g) True (snd s1))"
    using got by (auto simp: run_simps split: if_splits)
  have "preserves (adds (\<lambda>_. True) h0) (try_finally (read_headers L fuel g 64) (call_unit L (DeleteHandle g)))" for h0
    by (rule pres_rules log_stable_adds_all | simp)+
  from preservesD [OF this adds_start, of s2] hs
  obtain h' where h': "history (snd t) = history (snd s2) @ h'" by (auto simp: adds_def)
  have "history (snd s1) = history (snd s) @ [(NewMessageHandle q, True)]"
    using s1 by (simp add: run_simps)
  moreover have "raw_queue msg = n \<and> connection msg = None"
    using msg by (auto simp: build_raw_message_def Let_def split: sum.splits)
  ultimately show ?thesis
    using wi h' s2 unfolding get_def reply_options_spec
    by (intro exI [of _ wi] exI [of _ g] exI [of _ "[(NewMessageHandle q, True)]"] exI [of _ h']) auto
qed

lemma request_md_reply:
  "request_md L cfg cmd n = Inr m \<Longrightarrow> ReplyToQ m = PStr n \<and> ReplyToQMgr m = PStr (queue_manager cfg)"
  by (auto simp: request_md_def md_options_def md_correlation_def Let_def split: option.splits sum.splits)

text \<open>
  C15. The reply a request returns is the one to its message. A temporary reply queue was
  opened from the model queue; one put sent the encoded body, with that queue and the
  connection's queue manager as the reply address, and was given the identifier \<open>mid\<close> by
  the queue manager; afterwards a get on that same queue, matching correlation identifiers
  and asking for \<open>mid\<close>, succeeded, and the message returned comes from that queue and is
  bound to no connection, so that nothing settles it.
\<close>

theorem request_reply_matches:
  assumes "request L F fuel cmd ser s = (Returns msg, t)"
  shows "\<exists>b ct q m mid n h0 w w' h1 wi g h2.
    encode_message F (body cmd) ser = Inr (b, ct) \<and> to_wait_interval (timeout cmd) = Inr wi
    \<and> history w = history (snd s) @ h0
    \<and> request_sent L F (connection_config (fst s)) cmd q b (headers_to_publish cmd ct) n m mid w w'
    \<and> ReplyToQ m = PStr n \<and> ReplyToQMgr m = PStr (queue_manager (connection_config (fst s)))
    \<and> history (snd t) = history w' @ h1
        @ [(Get (length (history w)) ((new_md L)\<lparr>CorrelId := PBytes mid\<rparr>) (correlated_get L wi g), True)] @ h2
    \<and> raw_queue msg = n \<and> connection msg = None"
proof -
  obtain rq n mid s1 s2 h where pub: "publish_request_sync L F cmd ser s = (Returns (rq, n, mid), s1)"
    and wait: "wait_for_reply_sync L fuel rq n mid (timeout cmd) s1 = (Returns msg, s2)"
    and h: "history (snd t) = history (snd s2) @ h"
  proof -
    obtain rq n mid s1 s2 where pub: "publish_request_sync L F cmd ser s = (Returns (rq, n, mid), s1)"
      and wait: "wait_for_reply_sync L fuel rq n mid (timeout cmd) s1 = (Returns msg, s2)"
      and fin: "ignore_exception (call_unit L (CloseQueue rq)) s2 = (Returns (), t)"
      using assms by (auto simp: request_def started_def request_sync_def run_simps)
    have "preserves (adds (\<lambda>_. True) h0) (ignore_exception (call_unit L (CloseQueue rq)))" for h0
      by (rule pres_rules log_stable_adds_all | simp)+
    from preservesD [OF this adds_start, of s2] fin
    obtain h where "history (snd t) = history (snd s2) @ h" by (auto simp: adds_def)
    with pub wait show thesis by (rule that)
  qed
  obtain b ct q m h0 w w' h1 where p: "encode_message F (body cmd) ser = Inr (b, ct)"
      "history w = history (snd s) @ h0" "rq = length (history w)"
      "request_sent L F (connection_config (fst s)) cmd q b (headers_to_publish cmd ct) n m mid w w'"
      "history (snd s1) = history w' @ h1"
    using publish_request_run [OF pub] by blast
  obtain wi g h2 h3 where wr: "to_wait_interval (timeout cmd) = Inr wi"
      "history (snd s2) = history (snd s1) @ h2
        @ [(Get rq ((new_md L)\<lparr>CorrelId := PBytes mid\<rparr>) (correlated_get L wi g), True)] @ h3"
      "raw_queue msg = n \<and> connection msg = None"
    using wait_for_reply_run [OF wait] by blast
  have "request_md L (connection_config (fst s)) cmd n = Inr m"
    using p(4) by (simp add: request_sent_def Let_def)
  from request_md_reply [OF this] p wr h show ?thesis
    by (intro exI [of _ b] exI [of _ ct] exI [of _ q] exI [of _ m] exI [of _ mid] exI [of _ n]
        exI [of _ h0] exI [of _ w] exI [of _ w'] exI [of _ "h1 @ h2"] exI [of _ wi] exI [of _ g]
        exI [of _ "h3 @ h"]) simp
qed

theorem request_reply_matches_witness:
  "\<exists>msg t q m wi g mid. request (sample_lib no_faults) sample_fslib 2 sample_cmd None sample_started = (Returns msg, t)
     \<and> (Get q (m\<lparr>CorrelId := PBytes mid\<rparr>) (correlated_get (sample_lib no_faults) wi g), True) \<in> set (history (snd t))
     \<and> connection msg = None"
proof -
  have "is_returns (fst (request (sample_lib no_faults) sample_fslib 2 sample_cmd None sample_started))"
    by code_simp
  then obtain msg t where run:
    "request (sample_lib no_faults) sample_fslib 2 sample_cmd None sample_started = (Returns msg, t)"
    using is_returns_pair by blast
  from request_reply_matches [OF run] show ?thesis
    unfolding run by fastforce
qed

section \<open>Getting a message\<close>

fun is_get_property :: "nat \<Rightarrow> call \<Rightarrow> bool" where
  "is_get_property h (GetProperty h' n v) \<longleftrightarrow> h' = h"
| "is_get_property h x \<longleftrightarrow> False"

lemma log_stable_adds_property: "log_stable (is_get_property h) (adds (is_get_property h) h0)"
  by (rule log_stable_adds) simp

lemma pres_adds_read_loop:
  "preserves (adds (is_get_property h) h0) (read_headers_loop L fuel h n opts hs)"
proof (induction fuel arbitrary: opts hs)
  case 0
  show ?case unfolding read_headers_loop.simps by (intro pres_rules)
next
  case (Suc fuel)
  show ?case unfolding read_headers_loop.simps next_property_def get_property_def
    by (rule pres_bind pres_try_except pres_lift_sum pres_case_option pres_case_prod Suc pres_ret pres_throw
        pres_if pres_mqmi pres_call log_stable_adds_property | simp)+
qed

lemma pres_adds_read_headers: "preserves (adds (is_get_property h) h0) (read_headers L fuel h n)"
  unfolding read_headers_def by (intro pres_rules pres_adds_read_loop)

lemma read_headers_frame: "fst (snd (read_headers L fuel h n s)) = fst s"
proof -
  have "preserves (\<lambda>t. fst t = fst s) (read_headers L fuel h n)"
    by (rule pres_read_headers) (simp add: log_stable_def)
  from preservesD [OF this, of s] show ?thesis by simp
qed

text \<open>
  One successful get: a new message handle, a get of the open consumer queue under the
  unit of work, the properties of that handle read, the handle deleted.
\<close>

definition message_got ::
  "mqlib \<Rightarrow> int \<Rightarrow> nat \<Rightarrow> nat \<Rightarrow> bytes \<Rightarrow> md \<Rightarrow> world \<Rightarrow> history \<Rightarrow> bool" where
  "message_got L wi q cq b m w h' \<longleftrightarrow>
     (let n = length (history w); opened = record_call (NewMessageHandle q) True w;
          get = Get cq (new_md L) (unit_of_work_get L wi n) in
        ans_get L opened get = Inr (b, m)
        \<and> (\<exists>ps. h' = history w @ [(NewMessageHandle q, True), (get, True)] @ ps @ [(DeleteHandle n, True)]
            \<and> list_all (\<lambda>(x, b). is_get_property n x) ps))"

definition no_message ::
  "mqlib \<Rightarrow> int \<Rightarrow> nat \<Rightarrow> nat \<Rightarrow> world \<Rightarrow> history \<Rightarrow> bool" where
  "no_message L wi q cq w h' \<longleftrightarrow>
     (let n = length (history w); opened = record_call (NewMessageHandle q) True w;
          get = Get cq (new_md L) (unit_of_work_get L wi n) in
        (\<exists>len. ans_get L opened get = Inl (MQMIError (MQRC_NO_MSG_AVAILABLE (CMQC L)) len))
        \<and> h' = history w @ [(NewMessageHandle q, True), (get, False), (DeleteHandle n, True)])"

lemma get_message_once_run:
  assumes "get_message_once L fuel tm hl s = (Returns x, t)"
  shows "\<exists>q cq wi. qmgr (fst s) = Some q \<and> consumer_queue (fst s) = Some cq \<and> fst t = fst s
    \<and> to_wait_interval tm = Inr wi
    \<and> (case x of
         None \<Rightarrow> no_message L wi q cq (snd s) (history (snd t))
       | Some msg \<Rightarrow> \<exists>b m hs. message_got L wi q cq b m (snd s) (history (snd t))
           \<and> build_raw_message L b m hs (consumer_queue_name (fst s)) (Some (self_id (fst s))) = Inr msg)"
proof -
  define get where "get cq wi = Get cq (new_md L) (get_options L wi (length (history (snd s))))" for cq wi
  let ?h = "length (history (snd s))"
  obtain q cq wi g s2 where q: "qmgr (fst s) = Some q" and cq: "consumer_queue (fst s) = Some cq"
    and wi: "to_wait_interval tm = Inr wi"
    and got: "try_except (bind (on_world (call_lib (ans_get L) (get cq wi))) (\<lambda>x. ret (Some x)))
             (\<lambda>e. case e of
                MQMIError r len \<Rightarrow>
                  if r = MQRC_NO_MSG_AVAILABLE (CMQC L)
                  then seq (call_unit L (DeleteHandle ?h)) (ret None)
                  else seq (call_unit L (DeleteHandle ?h)) (throw e)
              | _ \<Rightarrow> throw e) (fst s, record_call (NewMessageHandle q) True (snd s)) = (Returns g, s2)"
    and rest: "(case g of None \<Rightarrow> ret None
        | Some (b, m) \<Rightarrow>
            bind (try_finally
                   (try_except (read_headers L fuel ?h hl)
                      (\<lambda>e. if is_exception e then seq (on_qmgr L Backout) (throw e) else throw e))
                   (call_unit L (DeleteHandle ?h)))
              (\<lambda>hs. bind (getc consumer_queue_name) (\<lambda>qn. bind (getc self_id) (\<lambda>i.
                 bind (lift_sum (build_raw_message L b m hs qn (Some i))) (\<lambda>msg.
                 ret (Some msg)))))) s2 = (Returns x, t)"
    using assms unfolding get_message_once_def get_def
    by (simp only: seq_run bind_run load_run lift_sum_run getc_run assert_that_run call_object_run) fastforce
  show ?thesis
  proof (cases g)
    case None
    then have "\<exists>len. ans_get L (record_call (NewMessageHandle q) True (snd s)) (get cq wi)
          = Inl (MQMIError (MQRC_NO_MSG_AVAILABLE (CMQC L)) len)"
      and "s2 = (fst s, record_call (DeleteHandle ?h) True
            (record_call (get cq wi) False (record_call (NewMessageHandle q) True (snd s))))"
      using got by (auto simp: run_simps call_lib_apply on_world_apply bind_apply ret_apply
          split: if_splits sum.splits)
    with None rest q cq wi show ?thesis
      by (auto simp: run_simps no_message_def get_def get_options_spec)
  next
    case (Some bm)
    obtain b m where bm: "bm = (b, m)" by (cases bm)
    have ans: "ans_get L (record_call (NewMessageHandle q) True (snd s)) (get cq wi) = Inr (b, m)"
      and s2: "s2 = (fst s, record_call (get cq wi) True (record_call (NewMessageHandle q) True (snd s)))"
      using got Some bm by (auto simp: run_simps split: if_splits)
    obtain hs s3 where read: "read_headers L fuel ?h hl s2 = (Returns hs, s3)"
      and del: "call_unit L (DeleteHandle ?h) s3 = (Returns (), t)"
      and msg: "\<exists>m'. build_raw_message L b m hs (consumer_queue_name (fst t)) (Some (self_id (fst t))) = Inr m' \<and> x = Some m'"
      using rest Some bm by (auto simp: run_simps split: if_splits)
    have s3: "fst s3 = fst s" using read_headers_frame [of L fuel ?h hl s2] read s2 by simp
    obtain ps where "history (snd s3) = history (snd s2) @ ps" "list_all (\<lambda>(x, b). is_get_property ?h x) ps"
      using preservesD [OF pres_adds_read_headers [of ?h "history (snd s2)" L fuel hl] adds_start] read by (auto simp: adds_def)
    then have "message_got L wi q cq b m (snd s) (history (snd t))"
      using ans s2 del by (auto simp: message_got_def get_def get_options_spec call_unit_run Let_def)
    with msg q cq wi s3 del show ?thesis by (fastforce simp: call_unit_run)
  qed
qed

lemma get_message_result:
  assumes "conn_ok L s" and "get_message L fuel tm hl s = (Returns x, t)"
  shows "\<exists>u h q cq wi. conn_ok L u \<and> fst t = fst u \<and> history (snd u) = history (snd s) @ h
    \<and> (u = s \<or> calls_where is_get h \<le> 1 \<and> length (history (snd s)) \<le> q)
    \<and> qmgr (fst u) = Some q \<and> consumer_queue (fst u) = Some cq
    \<and> open_input L (history (snd u)) q (consumer_queue_name (fst u)) cq
    \<and> to_wait_interval tm = Inr wi
    \<and> (case x of
         None \<Rightarrow> no_message L wi q cq (snd u) (history (snd t))
       | Some msg \<Rightarrow> \<exists>b m hs. message_got L wi q cq b m (snd u) (history (snd t))
           \<and> build_raw_message L b m hs (consumer_queue_name (fst u)) (Some (self_id (fst u))) = Inr msg
           \<and> connection msg = Some (self_id (fst u)) \<and> raw_body msg = b)"
proof -
  let ?op = "get_message_once L fuel tm hl"
  have fin: ?thesis if op: "?op u = (Returns x, t)" and ok: "conn_ok L u"
      and h: "history (snd u) = history (snd s) @ h"
      and new: "u = s \<or> calls_where is_get h \<le> 1 \<and> (\<forall>q. qmgr (fst u) = Some q \<longrightarrow> length (history (snd s)) \<le> q)" for u h
  proof -
    obtain q cq wi where r: "qmgr (fst u) = Some q" "consumer_queue (fst u) = Some cq" "fst t = fst u"
      "to_wait_interval tm = Inr wi" "case x of
         None \<Rightarrow> no_message L wi q cq (snd u) (history (snd t))
       | Some msg \<Rightarrow> \<exists>b m hs. message_got L wi q cq b m (snd u) (history (snd t))
           \<and> build_raw_message L b m hs (consumer_queue_name (fst u)) (Some (self_id (fst u))) = Inr msg"
      using get_message_once_run [OF op] by blast
    have built: "connection msg = c \<and> raw_body msg = b" if "build_raw_message L b m hs n c = Inr msg" for b m hs n c msg
      using that by (auto simp: build_raw_message_def Let_def split: sum.splits)
    have "open_input L (history (snd u)) q (consumer_queue_name (fst u)) cq"
      using ok r by (auto simp: conn_ok_defs)
    with r ok h new show ?thesis
      by (intro exI [of _ u] exI [of _ h] exI [of _ q] exI [of _ cq] exI [of _ wi])
        (auto split: option.splits dest: built)
  qed
  have "run_with_reconnect_sync L ?op True s = (Returns x, t)"
    using assms(2) by (auto simp: get_message_def started_def get_message_sync_def run_simps)
  from run_with_reconnect_run [OF this] show ?thesis
  proof (elim conjE disjE exE)
    assume "?op s = (Returns x, t)"
    then show ?thesis by (rule fin [OF _ assms(1), of "[]"]) auto
  next
    fix e s1 s2 s3
    assume op: "?op s = (Raises e, s1)" and rec: "recover_connection_sync L True s1 = (Returns (), s2)"
      and pause: "call_unit L (Sleep pause) s2 = (Returns (), s3)" and op3: "?op s3 = (Returns x, t)"
    have ok1: "conn_ok L s1" using preservesD [OF get_op.keeps [of L fuel tm hl] assms(1)] op by simp
    obtain q h2 where q: "length (history (snd s1)) \<le> q" "qmgr (fst s3) = Some q"
      and h2: "history (snd s3) = history (snd s1) @ h2" "list_all (\<lambda>(x, b). retry_call x) h2"
      and ok3: "conn_ok L s3"
      using recovered_attempt [OF ok1 rec pause] by blast
    obtain h1 where h1: "history (snd s1) = history (snd s) @ h1"
      using preservesD [OF get_op.grows adds_start, of s L fuel tm hl] op by (auto simp: adds_def)
    have "at_most is_get (calls_where is_get (history (snd s)) + 1) s1"
      using spendsD [OF spends_get_message_once [of "calls_where is_get (history (snd s))" L fuel tm hl], of s] op
      by (simp add: at_most_def)
    then have "calls_where is_get (h1 @ h2) \<le> 1"
      using retry_calls_count [OF h2(2), of is_get] h1 by (simp add: at_most_def settle_call_not_retry)
    then show ?thesis
      using h1 h2(1) q by (intro fin [OF op3 ok3, of "h1 @ h2"]) auto
  qed
qed

text \<open>
  C13. What \<open>get_message\<close> returns. The last attempt worked on a connection in order, whose
  consumer queue is open on its queue manager under the remembered name. It returned
  \<open>None\<close> exactly because the get failed for want of a message. It returned a message only
  after a get of that queue inside the unit of work succeeded; the message is built from
  what the get and the handle gave, is bound to this connection for settlement, and the
  message handle has been deleted. Before that attempt there was nothing, or one failed
  attempt and the recovery.
\<close>

theorem get_message_returns:
  assumes "conn_ok L s" and "get_message L fuel tm hl s = (Returns x, t)"
  shows "\<exists>u h q cq wi. conn_ok L u \<and> fst t = fst u \<and> history (snd u) = history (snd s) @ h
    \<and> (u = s \<or> calls_where is_get h \<le> 1 \<and> length (history (snd s)) \<le> q)
    \<and> qmgr (fst u) = Some q \<and> consumer_queue (fst u) = Some cq
    \<and> open_input L (history (snd u)) q (consumer_queue_name (fst u)) cq
    \<and> to_wait_interval tm = Inr wi
    \<and> (case x of
         None \<Rightarrow> no_message L wi q cq (snd u) (history (snd t))
       | Some msg \<Rightarrow> \<exists>b m hs. message_got L wi q cq b m (snd u) (history (snd t))
           \<and> build_raw_message L b m hs (consumer_queue_name (fst u)) (Some (self_id (fst u))) = Inr msg
           \<and> connection msg = Some (self_id (fst u)) \<and> raw_body msg = b)"
  using assms by (rule get_message_result)

theorem get_message_returns_witness:
  "\<exists>msg t h q cq. get_message (sample_lib no_faults) 2 (Fin 1 0) 64 sample_started = (Returns (Some msg), t)
     \<and> open_input (sample_lib no_faults) h q ''ORDERS'' cq
     \<and> connection msg = Some 1 \<and> raw_body msg = [1, 2, 3]"
proof -
  let ?x = "get_message (sample_lib no_faults) 2 (Fin 1 0) 64 sample_started"
  have v: "case ?x of (r, t) \<Rightarrow> fst t = fst sample_started
      \<and> (case r of Returns (Some m) \<Rightarrow> raw_body m = [1, 2, 3] | _ \<Rightarrow> False)"
    by code_simp
  obtain r t where x: "?x = (r, t)" by (cases ?x)
  with v obtain msg where r: "r = Returns (Some msg)" and b: "raw_body msg = [1, 2, 3]"
    and t: "fst t = fst sample_started"
    by (auto split: outcome.splits option.splits)
  have c: "consumer_queue_name (fst sample_started) = ''ORDERS''" "self_id (fst sample_started) = 1"
    by code_simp+
  show ?thesis
    using get_message_returns [OF conn_ok_sample_started x [unfolded r]] x r b t c by fastforce
qed

end
