(* ===== verification/MQ_Settlement_Props.thy ===== *)
theory MQ_Settlement_Props
  imports MQ_Settlement MQ_Messaging_Props
begin

text \<open>
  A message is settled at most once, whatever is called on it and however often: proved
  against the contract of the \<open>MQAcknowledger\<close> protocol, and then for the connection.
\<close>

section \<open>What a settlement leaves in the store\<close>

text \<open>A message marked as settled, and one whose waiters alone are let go.\<close>

definition settled_store :: "nat \<Rightarrow> AckStatus option \<Rightarrow> mqstate \<Rightarrow> mqstate" where
  "settled_store a st S = S\<lparr>raw_messages := (raw_messages S)(a := (raw_messages S a)\<lparr>settled := st, settled_event := True\<rparr>)\<rparr>"

definition released_store :: "nat \<Rightarrow> mqstate \<Rightarrow> mqstate" where
  "released_store a S = S\<lparr>raw_messages := (raw_messages S)(a := (raw_messages S a)\<lparr>settled_event := True\<rparr>)\<rparr>"

lemma settle_with_state:
  "fst (snd (settle_with i op base (S, m))) =
     (if committed m = None then (case connection (raw_messages S (raw_message m)) of
        None \<Rightarrow> settled_store (raw_message m) (base None) S
      | Some k \<Rightarrow> (case wait_for_broker_settle i (op k) S of (r, T) \<Rightarrow> case r of
          Returns u \<Rightarrow> settled_store (raw_message m) (base None) T
        | Raises e \<Rightarrow> released_store (raw_message m) T
        | NoFuel \<Rightarrow> T))
      else settled_store (raw_message m) (base (committed m)) S)"
  by (simp add: settle_with_def needs_settle_def settled_store_def released_store_def prog_simps
      split: option.split prod.split outcome.split)

section \<open>The contract of an acknowledger\<close>

locale settlement_provider =
  fixes A :: acknowledger
    and commits backouts :: "mqstate \<Rightarrow> nat"
  assumes commit_effect:
      "commits (snd (ack_commit A c S)) = commits S + returns (fst (ack_commit A c S))"
      "backouts (snd (ack_commit A c S)) = backouts S"
    and backout_effect:
      "backouts (snd (ack_backout A c S)) = backouts S + returns (fst (ack_backout A c S))"
      "commits (snd (ack_backout A c S)) = commits S"
    and store_unchanged:
      "raw_messages (snd (ack_commit A c S)) = raw_messages S"
      "raw_messages (snd (ack_backout A c S)) = raw_messages S"
    and effects_of_store:
      "commits (S\<lparr>raw_messages := r\<rparr>) = commits S" "backouts (S\<lparr>raw_messages := r\<rparr>) = backouts S"

datatype settlement = Ack | Nack | Reject

definition settle_step ::
  "fslib \<Rightarrow> acknowledger \<Rightarrow> settlement \<times> interrupt \<Rightarrow> mqstate \<times> MQMessage \<Rightarrow> mqstate \<times> MQMessage" where
  "settle_step F A k p = snd ((case fst k of
      Ack \<Rightarrow> ack F A (snd k) | Nack \<Rightarrow> nack F A (snd k) | Reject \<Rightarrow> reject F A (snd k)) p)"

text \<open>An operation cancelled twice may take effect after its caller has given up.\<close>

fun observed :: "settlement \<times> interrupt \<Rightarrow> bool" where
  "observed (k, CancelledTwice begun) = (\<not> begun)"
| "observed k = True"

text \<open>The status on the message is the effect at the queue manager.\<close>

definition settled_as ::
  "(mqstate \<Rightarrow> nat) \<Rightarrow> (mqstate \<Rightarrow> nat) \<Rightarrow> nat \<Rightarrow> nat \<Rightarrow> mqstate \<times> MQMessage \<Rightarrow> bool" where
  "settled_as commits backouts c b p \<longleftrightarrow> connection (raw_messages (fst p) (raw_message (snd p))) \<noteq> None \<and>
     (case committed (snd p) of
        None \<Rightarrow> commits (fst p) = c \<and> backouts (fst p) = b
      | Some ACKED \<Rightarrow> commits (fst p) = c + 1 \<and> backouts (fst p) = b
      | Some NACKED \<Rightarrow> commits (fst p) = c \<and> backouts (fst p) = b + 1
      | Some REJECTED \<Rightarrow> False)"

context settlement_provider begin

lemma settle_with_commit:
  assumes "acks_as_documented F" and "settled_as commits backouts c b p"
    and "\<And>begun. i = CancelledTwice begun \<Longrightarrow> \<not> begun"
  shows "settled_as commits backouts c b (snd (settle_with i (ack_commit A) (base_ack F) p))"
proof -
  obtain S m where p: "p = (S, m)" by (cases p)
  obtain conn where conn: "connection (raw_messages S (raw_message m)) = Some conn"
    using assms(2) by (auto simp: settled_as_def p)
  show ?thesis
    using assms conn commit_effect [of conn S] store_unchanged [of conn S]
    by (cases "committed m"; cases i; cases "fst (ack_commit A conn S)")
      (auto simp: p settle_with_def needs_settle_def wait_for_broker_settle_def prog_simps
        settled_as_def acks_as_documented_def effects_of_store split: AckStatus.splits)
qed

lemma settle_with_backout:
  assumes "acks_as_documented F" and "settled_as commits backouts c b p"
    and "\<And>begun. i = CancelledTwice begun \<Longrightarrow> \<not> begun"
  shows "settled_as commits backouts c b (snd (settle_with i (ack_backout A) (base_nack F) p))"
proof -
  obtain S m where p: "p = (S, m)" by (cases p)
  obtain conn where conn: "connection (raw_messages S (raw_message m)) = Some conn"
    using assms(2) by (auto simp: settled_as_def p)
  show ?thesis
    using assms conn backout_effect [of conn S] store_unchanged [of conn S]
    by (cases "committed m"; cases i; cases "fst (ack_backout A conn S)")
      (auto simp: p settle_with_def needs_settle_def wait_for_broker_settle_def prog_simps
        settled_as_def acks_as_documented_def effects_of_store split: AckStatus.splits)
qed

lemma settle_step_settled_as:
  assumes "acks_as_documented F" and "settled_as commits backouts c b p" and "observed k"
  shows "settled_as commits backouts c b (settle_step F A k p)"
proof -
  obtain o' i where k: "k = (o', i)" by (cases k)
  have "\<not> begun" if "i = CancelledTwice begun" for begun using assms(3) that by (simp add: k)
  then show ?thesis
    using settle_with_commit [OF assms(1,2)] settle_with_backout [OF assms(1,2)]
    by (cases o') (auto simp: settle_step_def k ack_def nack_def reject_def)
qed

lemma settle_steps_settled_as:
  assumes "acks_as_documented F" and "settled_as commits backouts c b p" and "list_all observed ks"
  shows "settled_as commits backouts c b (fold (settle_step F A) ks p)"
  using assms(2,3)
  by (induction ks arbitrary: p) (simp_all add: settle_step_settled_as [OF assms(1)])

end

section \<open>The connection provides it\<close>

lemma settle_counts_own:
  assumes "\<And>q. P (f q)" and "\<And>x. P x \<Longrightarrow> \<not> retry_call x"
  shows "returned_where P (history (snd (snd (started (run_with_reconnect_sync L (on_qmgr L f) b) s))))
    = returned_where P (history (snd s)) + returns (fst (started (run_with_reconnect_sync L (on_qmgr L f) b) s))"
proof (cases "executor (fst s)")
  case True
  have "returned_is P (returned_where P (history (snd s)) + returns (fst (run_with_reconnect_sync L (on_qmgr L f) b s)))
      (snd (run_with_reconnect_sync L (on_qmgr L f) b s))"
    by (rule hoare_apply [OF hoare_run_returned [OF hoare_on_qmgr_returned]])
      (use assms in \<open>auto simp: returned_is_def\<close>)
  then show ?thesis using True by (simp add: started_def prog_simps returned_is_def)
qed (simp add: started_def prog_simps)

lemma settle_counts_other:
  assumes "\<And>q. \<not> P (f q)" and "\<And>x. P x \<Longrightarrow> \<not> retry_call x"
  shows "returned_where P (history (snd (snd (started (run_with_reconnect_sync L (on_qmgr L f) b) s))))
    = returned_where P (history (snd s))"
proof -
  have "preserves (returned_is P k) (started (run_with_reconnect_sync L (on_qmgr L f) b))" for k
    unfolding run_with_reconnect_sync_def
    by (rule pres_rules pres_started pres_returned_recover pres_returned_pause
        pres_on_qmgr [of "\<lambda>x. \<not> P x"] log_stable_returned | simp add: assms)+
  from preservesD [OF this, of "returned_where P (history (snd s))" s]
  show ?thesis by (simp add: returned_is_def)
qed

lemma settle_as_run:
  "commit L s = started (run_with_reconnect_sync L (on_qmgr L Commit) (consumer_queue_name (fst s) \<noteq> [])) s"
  "backout L s = started (run_with_reconnect_sync L (on_qmgr L Backout) (consumer_queue_name (fst s) \<noteq> [])) s"
  by (simp_all add: commit_def commit_sync_def commit_once_def backout_def backout_sync_def
      backout_once_def started_def prog_simps)

interpretation conn: settlement_provider "connection_acknowledger L"
  "\<lambda>S. returned_where is_commit (history (the_world S))"
  "\<lambda>S. returned_where is_backout (history (the_world S))" for L
proof
qed (simp_all add: connection_acknowledger_def on_connection_apply settle_as_run
    settle_counts_own settle_counts_other settle_call_not_retry)

abbreviation commits_of :: "mqstate \<Rightarrow> nat" where
  "commits_of S \<equiv> returned_where is_commit (history (the_world S))"

abbreviation backouts_of :: "mqstate \<Rightarrow> nat" where
  "backouts_of S \<equiv> returned_where is_backout (history (the_world S))"

text \<open>
  C5. A message is settled at most once. Whatever sequence of \<open>ack\<close>, \<open>nack\<close> and \<open>reject\<close> is
  called on a message fresh from the parser, with whatever failures of the queue manager
  and however often the awaits are cancelled, as long as no operation was left running
  after its caller gave up: the status on the message is what happened at the queue
  manager. Without a status nothing was committed or backed out; after ACKED exactly one
  commit succeeded and no backout, after NACKED exactly one backout and no commit.
\<close>

theorem settled_at_most_once:
  assumes "acks_as_documented F" and "connection (raw_messages S a) = Some conn"
    and "list_all observed ks"
    and "fold (settle_step F (connection_acknowledger L)) ks (S, parse_message a (raw_messages S a)) = (S', m')"
  shows "case committed m' of
      None \<Rightarrow> commits_of S' = commits_of S \<and> backouts_of S' = backouts_of S
    | Some ACKED \<Rightarrow> commits_of S' = commits_of S + 1 \<and> backouts_of S' = backouts_of S
    | Some NACKED \<Rightarrow> commits_of S' = commits_of S \<and> backouts_of S' = backouts_of S + 1
    | Some REJECTED \<Rightarrow> False"
proof -
  have "settled_as commits_of backouts_of (commits_of S) (backouts_of S) (S, parse_message a (raw_messages S a))"
    using assms(2) by (simp add: settled_as_def parse_message_def)
  from conn.settle_steps_settled_as [OF assms(1) this assms(3), of L]
  show ?thesis unfolding assms(4) by (auto simp: settled_as_def split: option.splits AckStatus.splits)
qed

definition sample_raw :: MQRawMessage where
  "sample_raw =
     \<lparr>raw_body = [1, 2, 3], raw_queue = ''ORDERS'', raw_headers = [], raw_reply_to = [],
      raw_reply_to_qmgr = [], raw_content_type = PNone, raw_correlation_id = None,
      raw_message_id = None, native_message_id = None, raw_native_correlation_id = None,
      raw_priority = PNone, raw_persistence = None, raw_expiry = PNone, metadata = empty_md,
      connection = Some 1, settled = None, settled_event = False\<rparr>"

definition sample_state :: mqstate where
  "sample_state =
     \<lparr>connections = (\<lambda>_. fst sample_started), next_connection = 2,
      raw_messages = (\<lambda>_. sample_raw), next_message = 1, the_world = snd sample_started\<rparr>"

theorem settled_at_most_once_witness:
  "\<exists>S' m'. fold (settle_step sample_fslib (connection_acknowledger (sample_lib no_faults)))
       [(Nack, CancelledTwice False), (Ack, CancelledOnce), (Nack, Uninterrupted)]
       (sample_state, parse_message 0 (raw_messages sample_state 0)) = (S', m')
     \<and> committed m' = Some ACKED
     \<and> commits_of S' = commits_of sample_state + 1 \<and> backouts_of S' = backouts_of sample_state"
proof -
  let ?ks = "[(Nack, CancelledTwice False), (Ack, CancelledOnce), (Nack, Uninterrupted)]"
  let ?x = "fold (settle_step sample_fslib (connection_acknowledger (sample_lib no_faults))) ?ks
    (sample_state, parse_message 0 (raw_messages sample_state 0))"
  have c: "committed (snd ?x) = Some ACKED" by code_simp
  obtain S' m' where x: "?x = (S', m')" by (cases ?x)
  have "connection (raw_messages sample_state 0) = Some 1" "list_all observed ?ks"
    by (simp_all add: sample_state_def sample_raw_def)
  from settled_at_most_once [OF sample_fslib_acks this x] show ?thesis
    using c unfolding x by simp
qed

lemma settle_unresolved_cases:
  "case settle_unresolved_message (connection_acknowledger L) policy cancelled a e S of (r, S') \<Rightarrow>
     if connection (raw_messages S a) \<noteq> None \<and> settled (raw_messages S a) = None
     then (if should_commit policy e then backouts_of S' = backouts_of S else commits_of S' = commits_of S)
       \<and> (case r of
           Returns u \<Rightarrow> settled_event (raw_messages S' a)
             \<and> (case settled (raw_messages S' a) of
                 None \<Rightarrow> cancelled \<or> (commits_of S' = commits_of S \<and> backouts_of S' = backouts_of S)
               | Some st \<Rightarrow> st = (if should_commit policy e then ACKED else NACKED)
                   \<and> commits_of S' + backouts_of S' = commits_of S + backouts_of S + 1)
         | Raises err \<Rightarrow> \<not> is_exception err \<and> err \<noteq> CancelledError \<and> settled (raw_messages S' a) = None
         | NoFuel \<Rightarrow> False)
     else r = Returns () \<and> S' = S"
proof (cases "connection (raw_messages S a) = None \<or> settled (raw_messages S a) \<noteq> None")
  case True
  then show ?thesis
    by (auto simp: settle_unresolved_message_def prog_simps split: option.split)
next
  case False
  then obtain conn where c: "connection (raw_messages S a) = Some conn" "settled (raw_messages S a) = None"
    by auto
  let ?A = "connection_acknowledger L"
  have free: "fst (ack_commit ?A conn S) \<noteq> NoFuel" "fst (ack_backout ?A conn S) \<noteq> NoFuel"
    by (simp_all add: connection_acknowledger_def on_connection_apply settle_as_run fuel_freeD total_rules)
  note facts = conn.commit_effect [of L conn S] conn.backout_effect [of L conn S]
    conn.store_unchanged [of L conn S] free c
  show ?thesis
  proof (cases "should_commit policy e")
    case True
    then show ?thesis using facts
      by (cases "fst (ack_commit ?A conn S)"; cases cancelled)
        (auto simp: settle_unresolved_message_def prog_simps shield_def)
  next
    case False
    then show ?thesis using facts
      by (cases "fst (ack_backout ?A conn S)"; cases cancelled)
        (auto simp: settle_unresolved_message_def prog_simps shield_def)
  qed
qed


end
