(* ===== verification/MQ_Producer_Props.thy ===== *)
theory MQ_Producer_Props
  imports MQ_Producer MQ_Settlement_Props
begin

text \<open>
  Producers: publications and requests never share a connection, a publication that
  returns was put, and what a failed first request does to later ones.
\<close>

section \<open>Operations of one connection, seen from outside\<close>

text \<open>
  Assertions that every step of every operation keeps: those that survive harmless calls,
  the connection's own bookkeeping, and the two steps that change its queue manager.
\<close>

definition op_stable :: "mqlib \<Rightarrow> (cst \<Rightarrow> bool) \<Rightarrow> bool" where
  "op_stable L I \<longleftrightarrow> log_stable harmless I \<and> tls_blind I
     \<and> preserves I (safe_disconnect_qmgr_sync L) \<and> preserves I (connect_sync L)
     \<and> (\<forall>c w b i n. I (c, w) \<longrightarrow> I (c\<lparr>executor := b\<rparr>, w) \<and> I (c\<lparr>consumer_queue := i\<rparr>, w)
          \<and> I (c\<lparr>consumer_queue_name := n\<rparr>, w))"

lemma op_stableD:
  assumes "op_stable L I"
  shows "log_stable harmless I" "tls_blind I" "preserves I (safe_disconnect_qmgr_sync L)"
    "preserves I (connect_sync L)"
    "preserves I (updc (\<lambda>c. c\<lparr>executor := b\<rparr>))"
    "preserves I (updc (\<lambda>c. c\<lparr>consumer_queue := i\<rparr>))"
    "preserves I (updc (\<lambda>c. c\<lparr>consumer_queue_name := n\<rparr>))"
    "preserves I (updc (\<lambda>c. c\<lparr>consumer_queue := i, consumer_queue_name := n\<rparr>))"
  using assms unfolding op_stable_def by (auto intro: pres_updc)

lemma op_stable_small:
  assumes "op_stable L I"
  shows "preserves I (safe_close_consumer_sync L)" "preserves I (start_consumer_once L n)"
    "preserves I (stop_consumer_sync L)"
  unfolding start_consumer_once_def stop_consumer_sync_def safe_close_consumer_sync_def
  by (rule pres_rules op_stableD [OF assms] | simp)+

lemma op_stable_recover:
  assumes "op_stable L I"
  shows "preserves I (recover_connection_sync L b)" "preserves I (call_unit L (Sleep pause))"
  unfolding recover_connection_sync_def
  by (rule pres_rules op_stable_small [OF assms] op_stableD [OF assms] | simp)+

lemma op_stable_run:
  assumes "op_stable L I" and "preserves I op"
  shows "preserves I (run_with_reconnect_sync L op b)"
  unfolding run_with_reconnect_sync_def
  by (rule pres_bind pres_seq pres_try_except pres_if pres_ret pres_throw pres_case_option pres_load
      op_stable_recover [OF assms(1)] assms(2))+

lemma op_stable_operations:
  assumes "op_stable L I"
  shows "preserves I (connect L)" "preserves I (disconnect L)" "preserves I (start_consumer L n)"
    "preserves I (stop_consumer L)" "preserves I (commit L)" "preserves I (backout L)"
    "preserves I (ping L)" "preserves I (publish L F cmd ser)" "preserves I (get_message L fuel t k)"
    "preserves I (request L F fuel cmd ser)"
proof -
  note D = op_stableD [OF assms] and small = op_stable_small [OF assms] and run = op_stable_run [OF assms]
  have msg: "log_stable is_message_call I" by (rule log_stable_harmless [OF D(1)])
  show "preserves I (connect L)" unfolding connect_def by (intro pres_rules D)
  show "preserves I (disconnect L)" unfolding disconnect_def disconnect_sync_def
    by (rule D small | rule pres_rules D(1))+
  show "preserves I (start_consumer L n)" unfolding start_consumer_def start_consumer_sync_def
    by (intro pres_started pres_seq D run small)
  show "preserves I (stop_consumer L)" unfolding stop_consumer_def
    by (intro pres_rules small)
  show "preserves I (commit L)" "preserves I (backout L)"
    unfolding commit_def commit_sync_def commit_once_def backout_def backout_sync_def backout_once_def
    by (rule pres_started pres_bind pres_getc run pres_on_qmgr D(1) | simp)+
  show "preserves I (ping L)"
    unfolding ping_def ping_sync_def ping_once_def
    by (rule pres_bind pres_getc pres_if pres_ret pres_throw pres_try_except run pres_seq pres_on_qmgr D(1) | simp)+
  show "preserves I (publish L F cmd ser)"
    unfolding publish_def publish_sync_def by (intro pres_started pres_bind pres_getc run pres_publish_once msg)
  show "preserves I (get_message L fuel t k)"
    unfolding get_message_def get_message_sync_def by (intro pres_started run pres_get_message_once msg)
  show "preserves I (request L F fuel cmd ser)"
    unfolding request_def by (intro pres_started pres_request_sync msg op_stable_recover [OF assms])
qed

text \<open>Connecting sets the queue manager to a newly created one.\<close>

lemma pres_connect_new:
  assumes log: "log_stable harmless I" and tls: "tls_blind I"
    and new: "\<And>s. I s \<Longrightarrow> New (length (history (snd s)))"
    and set: "\<And>c w q. I (c, w) \<Longrightarrow> New q \<Longrightarrow> I (c\<lparr>qmgr := Some q\<rparr>, w)"
  shows "preserves I (connect_sync L)"
proof -
  have body: "preserves I (connect_body L cfg qm o1 d sc)" if "New qm" for qm cfg o1 d sc
  proof -
    have "preserves I (updc (\<lambda>c. c\<lparr>qmgr := Some qm\<rparr>))"
      by (rule pres_updc) (use that set in auto)
    note upd = this
    show ?thesis unfolding connect_body_def
      by (rule upd | rule pres_rules pres_connect_call tls log)+
  qed
  define rest where "rest qm = bind (getc connection_config) (\<lambda>cfg.
      bind (lift_sum (build_cno L cfg)) (\<lambda>o1.
      bind (build_tls_options L) (\<lambda>(d, sc). connect_body L cfg qm o1 d sc)))" for qm
  have rest: "preserves I (rest qm)" if "New qm" for qm
    unfolding rest_def by (rule body [OF that] pres_rules tls log)+
  show ?thesis
  proof (rule preservesI)
    fix s assume s: "I s"
    have rec: "I (fst s, record_call NewQueueManager b (snd s))" for b
      using s log by (cases s) (auto simp: log_stable_def)
    have c: "connect_sync L s = (if qmgr (fst s) \<noteq> None then (Returns (), s)
        else seq (load L) (bind (call_object L NewQueueManager) rest) s)"
      by (simp add: connect_sync_def rest_def [abs_def] bind_apply getc_apply ret_apply)
    show "I (snd (connect_sync L s))"
      using s rec [of False] preservesD [OF rest [OF new [OF s]] rec [of True]]
      by (auto simp: c bind_apply seq_apply load_apply call_object_apply split: sum.split)
  qed
qed

text \<open>A queue manager that belongs to another connection stays as it is.\<close>

definition foreign_qmgr :: "mqlib \<Rightarrow> nat \<Rightarrow> cst \<Rightarrow> bool" where
  "foreign_qmgr L q s \<longleftrightarrow> live_qmgr (history (snd s)) q \<and> qmgr (fst s) \<noteq> Some q"

lemma foreign_record: "foreign_qmgr L q (c, w) \<Longrightarrow> harmless x \<Longrightarrow> foreign_qmgr L q (c, record_call x b w)"
  by (auto simp: foreign_qmgr_def intro!: live_qmgr_append)

lemma op_stable_foreign: "op_stable L (foreign_qmgr L q)"
proof -
  let ?I = "foreign_qmgr L q"
  have log: "log_stable harmless ?I" by (simp add: log_stable_def foreign_record)
  have tls: "tls_blind ?I" by (simp add: tls_blind_def foreign_qmgr_def)
  have dis: "preserves ?I (safe_disconnect_qmgr_sync L)"
    by (rule preservesI)
      (auto simp: safe_disconnect_qmgr_sync_def prog_simps foreign_qmgr_def intro!: live_qmgr_append
        split: option.split sum.split)
  have "preserves ?I (connect_sync L)"
    by (rule pres_connect_new [OF log tls, where New = "\<lambda>qm. qm \<noteq> q"])
      (auto simp: foreign_qmgr_def dest: live_qmgr_less)
  with log tls dis show ?thesis
    by (auto simp: op_stable_def foreign_qmgr_def)
qed

lemma op_stable_adds: "op_stable L (adds (\<lambda>_. True) h0)"
proof -
  have "link_stable (adds (\<lambda>_. True) h0)" by (rule link_stable_adds) simp
  then show ?thesis
    unfolding op_stable_def
    by (auto intro: pres_link_safe_disconnect pres_link_connect_sync simp: adds_def)
qed

section \<open>The store of connections\<close>

text \<open>
  Every connection of the store satisfies the invariant of connections, and no two hold
  the same queue manager object.
\<close>

definition store_ok :: "mqlib \<Rightarrow> mqstate \<Rightarrow> bool" where
  "store_ok L S \<longleftrightarrow> (\<forall>i. conn_ok L (connections S i, the_world S))
     \<and> (\<forall>i j q. i \<noteq> j \<longrightarrow> qmgr (connections S i) = Some q \<longrightarrow> qmgr (connections S j) \<noteq> Some q)"

lemma store_ok_on_connection:
  assumes own: "preserves (conn_ok L) op" and foreign: "\<And>q. preserves (foreign_qmgr L q) op"
    and grows: "\<And>h0. preserves (adds (\<lambda>_. True) h0) op"
  shows "preserves (store_ok L) (on_connection i op)"
proof (rule preservesI)
  fix S assume S: "store_ok L S"
  let ?s = "(connections S i, the_world S)"
  obtain r c w where m: "op ?s = (r, c, w)" by (cases "op ?s") auto
  have ok: "conn_ok L (c, w)"
    using preservesD [OF own, of ?s] S m by (simp add: store_ok_def)
  obtain h where h: "history w = history (the_world S) @ h"
    using preservesD [OF grows adds_start, of ?s] m by (auto simp: adds_def)
  have other: "foreign_qmgr L q (c, w)" if "qmgr (connections S j) = Some q" "j \<noteq> i" for j q
  proof -
    have "foreign_qmgr L q ?s"
      using S that by (auto simp: store_ok_def conn_ok_defs foreign_qmgr_def)
    from preservesD [OF foreign this] m show ?thesis by simp
  qed
  have "conn_ok L (connections S j, w)" if "j \<noteq> i" for j
    using S that ok h other [OF _ that]
    by (fastforce simp: store_ok_def conn_ok_defs foreign_qmgr_def)
  then show "store_ok L (snd (on_connection i op S))"
    using S ok other m by (auto simp: store_ok_def on_connection_apply foreign_qmgr_def)
qed

lemma store_ok_operation:
  "preserves (conn_ok L) op \<Longrightarrow> (\<And>I. op_stable L I \<Longrightarrow> preserves I op) \<Longrightarrow>
     preserves (store_ok L) (on_connection i op)"
  by (rule store_ok_on_connection) (auto intro: op_stable_foreign op_stable_adds)

lemmas connection_operations_ok = pres_connect_ok pres_disconnect_ok pres_start_consumer_ok
  pres_stop_consumer_ok pres_message_ok pres_transaction_ok

lemma store_ok_operations:
  "preserves (store_ok L) (on_connection i (connect L))"
  "preserves (store_ok L) (on_connection i (disconnect L))"
  "preserves (store_ok L) (on_connection i (start_consumer L n))"
  "preserves (store_ok L) (on_connection i (stop_consumer L))"
  "preserves (store_ok L) (on_connection i (commit L))"
  "preserves (store_ok L) (on_connection i (backout L))"
  "preserves (store_ok L) (on_connection i (ping L))"
  "preserves (store_ok L) (on_connection i (publish L F cmd ser))"
  "preserves (store_ok L) (on_connection i (get_message L fuel t k))"
  "preserves (store_ok L) (on_connection i (request L F fuel cmd ser))"
  by (rule store_ok_operation; auto intro: connection_operations_ok op_stable_operations)+

lemma store_ok_new_connection: "preserves (store_ok L) (new_connection cfg)"
  by (rule preservesI)
    (auto simp: new_connection_apply store_ok_def AsyncMQConnection_init_def conn_ok_defs)

section \<open>The producer\<close>

definition producer_ok :: "mqlib \<Rightarrow> mqstate \<times> MQProducer \<Rightarrow> bool" where
  "producer_ok L z \<longleftrightarrow> store_ok L (fst z)
     \<and> (\<forall>c. publish_connection (snd z) = Some c \<longrightarrow> c < next_connection (fst z))
     \<and> (\<forall>c. request_connection (snd z) = Some c \<longrightarrow> c < next_connection (fst z))
     \<and> (\<forall>c. publish_connection (snd z) = Some c \<longrightarrow> request_connection (snd z) \<noteq> Some c)"

inductive producer_step :: "mqlib \<Rightarrow> fslib \<Rightarrow> mqstate \<times> MQProducer \<Rightarrow> mqstate \<times> MQProducer \<Rightarrow> bool"
  for L F where
  producer_connects: "producer_step L F z (snd (producer_connect L cfg ser z))"
| producer_disconnects: "producer_step L F z (snd (producer_disconnect L z))"
| producer_pings: "producer_step L F z (snd (producer_ping L z))"
| producer_publishes: "producer_step L F z (snd (producer_publish L F cmd z))"
| producer_requests: "producer_step L F z (snd (producer_request L F fuel cmd z))"
| other_connection: "(\<And>I. op_stable L I \<Longrightarrow> preserves I (op :: (cst, unit) prog)) \<Longrightarrow>
    preserves (conn_ok L) op \<Longrightarrow> producer_step L F z (snd (on_connection i op (fst z)), snd z)"
| other_new: "producer_step L F z (snd (new_connection cfg (fst z)), snd z)"

inductive producer_reachable :: "mqlib \<Rightarrow> fslib \<Rightarrow> mqstate \<times> MQProducer \<Rightarrow> bool" for L F where
  producer_init: "store_ok L S \<Longrightarrow> producer_reachable L F (S, AsyncMQFastProducerImpl_init)"
| producer_next: "producer_reachable L F z \<Longrightarrow> producer_step L F z z' \<Longrightarrow> producer_reachable L F z'"

lemma pres_producer_on_connection:
  "preserves (store_ok L) (on_connection i op) \<Longrightarrow> preserves (producer_ok L) (outside (on_connection i op))"
  unfolding preserves_def producer_ok_def by (auto simp: outside_apply) (auto simp: on_connection_apply)

lemma pres_producer_local:
  assumes "\<And>p. publish_connection (f p) = publish_connection p" "\<And>p. request_connection (f p) = request_connection p"
  shows "preserves (producer_ok L) (local f)"
  using assms by (auto simp: preserves_def producer_ok_def local_apply)

text \<open>A new connection is not yet one of the producer's.\<close>

lemma hoare_new_connection:
  "hoare (producer_ok L) (outside (new_connection cfg))
     (\<lambda>r z. producer_ok L z \<and> (\<forall>c. r = Returns c \<longrightarrow> c < next_connection (fst z)
        \<and> publish_connection (snd z) \<noteq> Some c \<and> request_connection (snd z) \<noteq> Some c))"
proof (rule hoareI)
  fix z assume z: "producer_ok L z"
  have "store_ok L (snd (new_connection cfg (fst z)))"
    by (rule preservesD [OF store_ok_new_connection]) (use z in \<open>simp add: producer_ok_def\<close>)
  with z show "producer_ok L (snd (outside (new_connection cfg) z)) \<and>
      (\<forall>c. fst (outside (new_connection cfg) z) = Returns c \<longrightarrow>
        c < next_connection (fst (snd (outside (new_connection cfg) z)))
        \<and> publish_connection (snd (snd (outside (new_connection cfg) z))) \<noteq> Some c
        \<and> request_connection (snd (snd (outside (new_connection cfg) z))) \<noteq> Some c)"
    by (auto simp: producer_ok_def outside_apply new_connection_apply less_Suc_eq)
qed

lemma pres_producer_connect: "preserves (producer_ok L) (producer_connect L cfg ser)"
  unfolding producer_connect_def
proof (rule pres_seq)
  show "preserves (producer_ok L) (local (\<lambda>p. p\<lparr>producer_serializer := ser, producer_config := Some cfg\<rparr>))"
    by (rule pres_producer_local) simp_all
  have set: "hoare (\<lambda>z. producer_ok L z \<and> c < next_connection (fst z)
        \<and> publish_connection (snd z) \<noteq> Some c \<and> request_connection (snd z) \<noteq> Some c)
      (local (\<lambda>p. p\<lparr>publish_connection := Some c, request_connection := None\<rparr>)) (\<lambda>_. producer_ok L)" for c
    by (auto simp: hoare_def local_apply producer_ok_def)
  have conn: "preserves (producer_ok L) (outside (on_connection c (connect L)))" for c
    by (rule pres_producer_on_connection [OF store_ok_operations(1)])
  show "preserves (producer_ok L) (bind (outside (new_connection cfg)) (\<lambda>c.
      seq (local (\<lambda>p. p\<lparr>publish_connection := Some c, request_connection := None\<rparr>))
      (outside (on_connection c (connect L)))))"
    unfolding hoare_preserves_iff
  proof (rule hoare_bind [OF hoare_new_connection])
    fix c
    have "hoare (\<lambda>z. producer_ok L z \<and> c < next_connection (fst z)
        \<and> publish_connection (snd z) \<noteq> Some c \<and> request_connection (snd z) \<noteq> Some c)
      (seq (local (\<lambda>p. p\<lparr>publish_connection := Some c, request_connection := None\<rparr>))
        (outside (on_connection c (connect L)))) (\<lambda>_. producer_ok L)"
      by (rule hoare_seq [OF set]) (use conn in \<open>auto simp: hoare_preserves_iff\<close>)
    then show "hoare (\<lambda>z. producer_ok L z \<and> (\<forall>c'. Returns c = Returns c' \<longrightarrow> c' < next_connection (fst z)
        \<and> publish_connection (snd z) \<noteq> Some c' \<and> request_connection (snd z) \<noteq> Some c'))
      (seq (local (\<lambda>p. p\<lparr>publish_connection := Some c, request_connection := None\<rparr>))
        (outside (on_connection c (connect L)))) (\<lambda>_. producer_ok L)"
      by simp
  qed auto
qed

lemma pres_get_request_connection: "preserves (producer_ok L) (get_request_connection L)"
proof -
  have set: "hoare (\<lambda>z. producer_ok L z \<and> (\<forall>c'. Returns c = Returns c' \<longrightarrow> c' < next_connection (fst z)
        \<and> publish_connection (snd z) \<noteq> Some c' \<and> request_connection (snd z) \<noteq> Some c'))
      (local (\<lambda>p. p\<lparr>request_connection := Some c\<rparr>)) (\<lambda>_. producer_ok L)" for c
    by (auto simp: hoare_def local_apply producer_ok_def)
  have conn: "preserves (producer_ok L) (seq (outside (on_connection c (connect L))) (ret c))" for c
    by (intro pres_seq pres_ret pres_producer_on_connection store_ok_operations)
  have "preserves (producer_ok L) (bind (outside (new_connection cfg)) (\<lambda>c.
           seq (local (\<lambda>p. p\<lparr>request_connection := Some c\<rparr>))
           (seq (outside (on_connection c (connect L))) (ret c))))" for cfg
    unfolding hoare_preserves_iff
    by (rule hoare_bind [OF hoare_new_connection], rule hoare_seq [OF set])
      (use conn in \<open>auto simp: hoare_preserves_iff\<close>)
  note new = this
  show ?thesis
    unfolding get_request_connection_def
    by (rule new | rule pres_bind pres_get_local pres_case_option pres_ret pres_seq pres_assert_that)+
qed

lemma pres_disconnect_if:
  "preserves (store_ok L) (disconnect_if L c)"
  "preserves (\<lambda>S. next_connection S = n) (disconnect_if L c)"
  unfolding disconnect_if_def
  by (intro pres_case_option pres_ret store_ok_operations; simp add: preserves_def on_connection_apply)+

lemma pres_gather: "preserves I m \<Longrightarrow> preserves I k \<Longrightarrow> preserves I (gather m k)"
  by (auto simp: preserves_def gather_def split: prod.split)

lemma pres_producer_disconnect: "preserves (producer_ok L) (producer_disconnect L)"
  unfolding producer_disconnect_def
proof (intro pres_bind pres_get_local pres_seq)
  fix p r
  have g: "preserves (store_ok L) (gather (disconnect_if L p) (disconnect_if L r))"
    "preserves (\<lambda>S. next_connection S = n) (gather (disconnect_if L p) (disconnect_if L r))" for n
    by (intro pres_gather pres_disconnect_if)+
  show "preserves (producer_ok L) (outside (gather (disconnect_if L p) (disconnect_if L r)))"
    using g(1) g(2) unfolding preserves_def producer_ok_def by (auto simp: outside_apply)
  show "preserves (producer_ok L) (local (\<lambda>f. f\<lparr>publish_connection := None, request_connection := None,
      producer_config := None\<rparr>))"
    by (auto simp: preserves_def local_apply producer_ok_def)
qed

lemma pres_producer_operations:
  "preserves (producer_ok L) (producer_ping L)"
  "preserves (producer_ok L) (producer_publish L F cmd)"
  "preserves (producer_ok L) (producer_request L F fuel cmd)"
  unfolding producer_ping_def producer_publish_def producer_request_def
  by (intro pres_bind pres_get_local pres_case_option pres_ret pres_seq pres_assert_that
      pres_producer_on_connection store_ok_operations pres_get_request_connection)+

lemma producer_ok_step: "producer_step L F z z' \<Longrightarrow> producer_ok L z \<Longrightarrow> producer_ok L z'"
proof (induction rule: producer_step.induct)
  case (other_connection op z i)
  have "preserves (producer_ok L) (outside (on_connection i op))"
    by (rule pres_producer_on_connection [OF store_ok_operation [OF other_connection(2,1)]])
  from preservesD [OF this other_connection(3)] show ?case by (simp add: outside_apply)
next
  case (other_new z cfg)
  from hoare_apply [OF hoare_new_connection this] show ?case by (simp add: outside_apply)
qed (auto intro: preservesD pres_producer_connect pres_producer_disconnect pres_producer_operations)

lemma producer_ok_init: "store_ok L S \<Longrightarrow> producer_ok L (S, AsyncMQFastProducerImpl_init)"
  by (simp add: producer_ok_def AsyncMQFastProducerImpl_init_def)

lemma producer_ok_reachable: "producer_reachable L F z \<Longrightarrow> producer_ok L z"
  by (induction rule: producer_reachable.induct)
    (auto simp: producer_ok_init intro: producer_ok_step)

text \<open>
  C22. Connections are isolated. However producers, subscribers and messages use the
  connections of a process: every connection keeps its invariant, no two connections hold
  the same queue manager object, and the producer's connection for publications is never
  the one for requests, so that no commit, backout or disconnection of one ends the unit
  of work of another.
\<close>

theorem connections_isolated:
  assumes "producer_reachable L F (S, p)"
  shows "(\<forall>i. conn_ok L (connections S i, the_world S))
    \<and> (\<forall>i j q. qmgr (connections S i) = Some q \<and> qmgr (connections S j) = Some q \<longrightarrow> i = j)
    \<and> (\<forall>c. publish_connection p = Some c \<longrightarrow> request_connection p \<noteq> Some c)"
  using producer_ok_reachable [OF assms] by (auto simp: producer_ok_def store_ok_def)

definition empty_state :: mqstate where
  "empty_state =
     \<lparr>connections = (\<lambda>i. AsyncMQConnection_init i sample_config), next_connection = 0,
      raw_messages = (\<lambda>_. sample_raw), next_message = 0, the_world = empty_world\<rparr>"

lemma empty_state_ok: "store_ok L empty_state"
  by (simp add: store_ok_def empty_state_def AsyncMQConnection_init_def conn_ok_defs history_ok_def
      empty_world_def)

text \<open>A producer after its first request.\<close>

theorem connections_isolated_witness:
  "case snd (producer_request (sample_lib no_faults) sample_fslib 2 sample_cmd
       (snd (producer_connect (sample_lib no_faults) sample_config None
         (empty_state, AsyncMQFastProducerImpl_init)))) of (S, p) \<Rightarrow>
     publish_connection p = Some 0 \<and> request_connection p = Some 1
     \<and> conn_ok (sample_lib no_faults) (connections S 0, the_world S)
     \<and> qmgr (connections S 0) \<noteq> qmgr (connections S 1)"
proof -
  let ?z = "snd (producer_request (sample_lib no_faults) sample_fslib 2 sample_cmd
       (snd (producer_connect (sample_lib no_faults) sample_config None
         (empty_state, AsyncMQFastProducerImpl_init))))"
  obtain S p where z: "?z = (S, p)" by (cases ?z)
  have reach: "producer_reachable (sample_lib no_faults) sample_fslib ?z"
    by (rule producer_next [OF producer_next [OF producer_init [OF empty_state_ok] producer_connects]
        producer_requests])
  have "case ?z of (S, p) \<Rightarrow> publish_connection p = Some 0 \<and> request_connection p = Some 1
      \<and> qmgr (connections S 0) \<noteq> None"
    by code_simp
  then show ?thesis
    using connections_isolated [OF reach [unfolded z]] by (auto simp: z) (metis nat.distinct(1))
qed

section \<open>A request connection that was never made\<close>

lemma connect_raises:
  assumes "conn_ok L (AsyncMQConnection_init i cfg, w)"
    and "connect L (AsyncMQConnection_init i cfg, w) = (Raises e, (c, w'))"
  shows "qmgr c = None \<and> executor c"
proof
  let ?s = "((AsyncMQConnection_init i cfg)\<lparr>executor := True\<rparr>, w)"
  have run: "connect_sync L ?s = (Raises e, (c, w'))"
    using assms(2) by (simp add: connect_def prog_simps)
  have "idle L 0 ?s"
    using assms(1) by (simp add: idle_def conn_ok_defs AsyncMQConnection_init_def)
  from hoareD [OF hoare_connect_sync this run] show "qmgr c = None"
    by (simp add: reconnected_def)
  have "preserves (\<lambda>s. executor (fst s)) (connect_sync L)"
    by (rule pres_link_connect_sync)
      (auto simp: link_stable_def tls_blind_def log_stable_def record_call_def)
  from preservesD [OF this, of ?s] show "executor c" by (simp add: run)
qed

lemma load_available_ok: "mq_available L \<Longrightarrow> load_ibmmq L = Inr ()"
  by (cases rule: load_ibmmq_cases [of L]) auto

lemma request_unconnected:
  assumes "mq_available L" and "executor c" and "qmgr c = None"
    and "encode_message F (body cmd) ser = Inr x"
  shows "request L F fuel cmd ser (c, w) = (Raises (AssertionError []), (c, w))"
  using assms by (cases x)
    (simp add: request_def started_def request_sync_def publish_request_sync_def request_attempt_def
      request_attempt_body_def request_attempt_finally_def reconnectable_def Let_def
      load_available_ok prog_simps)

text \<open>
  C26. The request connection is stored before it is connected. When that first connection
  attempt fails, for whatever reason, no later request of the producer can succeed, also
  when the queue manager is reachable again: every request raises an \<open>AssertionError\<close> from
  the connection that has no queue manager, makes no call to IBM MQ, and leaves the
  producer as it was, so that the next one fails in the same way.
\<close>

theorem request_connection_poisoned:
  assumes "producer_reachable L F (S, p)" and "request_connection p = None" and "producer_config p \<noteq> None"
    and "get_request_connection L (S, p) = (Raises e, z)"
    and "mq_available L" and "encode_message F (body cmd) (producer_serializer p) = Inr x"
  shows "producer_request L F fuel cmd z = (Raises (AssertionError []), z)"
proof -
  obtain cfg where cfg: "producer_config p = Some cfg" using assms(3) by auto
  let ?i = "next_connection S"
  have ok: "conn_ok L (AsyncMQConnection_init ?i cfg, the_world S)"
    using producer_ok_reachable [OF assms(1)]
    by (auto simp: producer_ok_def store_ok_def conn_ok_defs AsyncMQConnection_init_def)
  obtain r c w where run: "connect L (AsyncMQConnection_init ?i cfg, the_world S) = (r, (c, w))"
    by (metis prod.exhaust)
  let ?S = "S\<lparr>connections := (connections S)(?i := AsyncMQConnection_init ?i cfg), next_connection := ?i + 1\<rparr>"
  have on: "on_connection ?i (connect L) ?S =
      (r, S\<lparr>connections := (connections S)(?i := c), next_connection := ?i + 1, the_world := w\<rparr>)"
    by (simp add: on_connection_apply run)
  have "get_request_connection L (S, p) = (case r of Returns _ \<Rightarrow> Returns ?i | Raises e \<Rightarrow> Raises e | NoFuel \<Rightarrow> NoFuel,
      (S\<lparr>connections := (connections S)(?i := c), next_connection := ?i + 1, the_world := w\<rparr>,
       p\<lparr>request_connection := Some ?i\<rparr>))"
    using on assms(2)
    by (simp add: get_request_connection_def cfg bind_apply seq_apply outside_apply local_apply get_local_apply
        assert_that_apply ret_apply new_connection_apply split: outcome.split)
  then have r: "r = Raises e" and z: "z = (S\<lparr>connections := (connections S)(?i := c), next_connection := ?i + 1,
      the_world := w\<rparr>, p\<lparr>request_connection := Some ?i\<rparr>)"
    using assms(4) by (auto split: outcome.splits)
  have "qmgr c = None \<and> executor c"
    using connect_raises [OF ok] run by (simp add: r)
  with request_unconnected [OF assms(5) _ _ assms(6), of c] show ?thesis
    by (simp add: z producer_request_def get_request_connection_def prog_simps)
qed

definition sample_connected :: "mqstate \<times> MQProducer" where
  "sample_connected = snd (producer_connect (sample_lib (lost_at 3)) sample_config None
     (empty_state, AsyncMQFastProducerImpl_init))"

theorem request_connection_poisoned_witness:
  "fst (get_request_connection (sample_lib (lost_at 3)) sample_connected) = Raises (MQMIError 2009 0)
   \<and> (let z = snd (get_request_connection (sample_lib (lost_at 3)) sample_connected) in
        producer_request (sample_lib (lost_at 3)) sample_fslib 2 sample_cmd z = (Raises (AssertionError []), z))"
proof
  let ?L = "sample_lib (lost_at 3)"
  have run: "fst (get_request_connection ?L sample_connected) = Raises (MQMIError 2009 0)"
    by code_simp
  then show "fst (get_request_connection ?L sample_connected) = Raises (MQMIError 2009 0)" .
  obtain S p where c: "sample_connected = (S, p)" by (cases sample_connected)
  have "request_connection (snd sample_connected) = None" "producer_config (snd sample_connected) = Some sample_config"
    by code_simp+
  then have p: "request_connection p = None" "producer_config p \<noteq> None" by (auto simp: c)
  have reach: "producer_reachable ?L sample_fslib (S, p)"
    unfolding c [symmetric] sample_connected_def
    by (rule producer_next [OF producer_init [OF empty_state_ok] producer_connects])
  obtain x where enc: "encode_message sample_fslib (body sample_cmd) (producer_serializer p) = Inr x"
    by (simp add: sample_fslib_def sample_cmd_def)
  show "let z = snd (get_request_connection ?L sample_connected) in
      producer_request ?L sample_fslib 2 sample_cmd z = (Raises (AssertionError []), z)"
    unfolding Let_def
    by (rule request_connection_poisoned [OF reach p _ _ enc])
      (use run in \<open>simp_all add: c prod_eq_iff\<close>)
qed

end
