(* ===== verification/MQ_Subscriber_Props.thy ===== *)
theory MQ_Subscriber_Props
  imports MQ_Subscriber MQ_Startup MQ_Settlement_Props MQ_Producer_Props
begin

text \<open>
  Properties of the subscriber: its start-up ends and leaves it reading from its queue, a
  stop releases its connection, handlers' failures settle the message, and under manual
  settlement no message is fetched while another one is open.
\<close>

section \<open>Programs on the store\<close>

lemma fuel_free_store [total_rules]:
  "fuel_free m \<Longrightarrow> fuel_free (on_connection i m)"
  "fuel_free w \<Longrightarrow> fuel_free (call_on_world w)"
  "fuel_free (get_raw a f)" "fuel_free (set_raw a g)" "fuel_free (new_message r)" "fuel_free (new_connection cfg)"
  by (simp_all add: fuel_free_def prog_simps)

lemma fuel_free_link [total_rules]:
  "fuel_free (connect L)" "fuel_free (start_consumer L n)" "fuel_free (stop_consumer L)" "fuel_free (disconnect L)"
  unfolding connect_def connect_sync_def build_tls_options_def prepare_tls_def connect_body_def
    connect_call_def start_consumer_def start_consumer_sync_def start_consumer_once_def
    stop_consumer_def stop_consumer_sync_def disconnect_def disconnect_sync_def
    safe_close_consumer_sync_def safe_disconnect_qmgr_sync_def Let_def
  by (intro total_rules)+

lemma fuel_free_on_consumer [total_rules]: "fuel_free m \<Longrightarrow> fuel_free (on_consumer m)"
  unfolding on_consumer_def by (intro total_rules)

lemma fuel_free_clock [total_rules]: "fuel_free (sub_clock L)" "fuel_free (sub_sleep L t)"
  unfolding sub_clock_def sub_sleep_def by (intro total_rules)+

section \<open>Starting\<close>

definition clock_readings :: "mqstate \<Rightarrow> nat" where
  "clock_readings S = calls_where (\<lambda>c. c = Monotonic) (history (the_world S))"

lemma readings_on_consumer:
  assumes "\<And>I. op_stable L I \<Longrightarrow> preserves I op"
  shows "preserves (\<lambda>z. k \<le> clock_readings (fst z)) (on_consumer op)"
proof (rule preservesI)
  fix z :: "mqstate \<times> MQSubscriber"
  obtain S p where z: "z = (S, p)" by (cases z)
  assume k: "k \<le> clock_readings (fst z)"
  have "adds (\<lambda>_. True) (history (the_world S)) (snd (op (connections S i, the_world S)))" for i
    by (rule preservesD [OF assms [OF op_stable_adds]]) (simp add: adds_def)
  then have "clock_readings S \<le> calls_where (\<lambda>c. c = Monotonic)
      (history (snd (snd (op (connections S i, the_world S)))))" for i
    by (auto simp: adds_def clock_readings_def) (metis le_add1 calls_where_append)
  with k show "k \<le> clock_readings (fst (snd (on_consumer op z)))"
    by (auto simp: z on_consumer_def prog_simps clock_readings_def split: option.split intro: le_trans)
qed

lemma readings_connect_attempt:
  "preserves (\<lambda>z. k \<le> clock_readings (fst z)) (connect_attempt L)"
  unfolding connect_attempt_def
  by (intro pres_seq pres_bind pres_get_local readings_on_consumer [of L]; rule op_stable_operations; assumption)

lemma readings_again:
  "preserves (\<lambda>z. k \<le> clock_readings (fst z)) (seq (on_consumer (disconnect L)) (sub_sleep L t))"
proof (rule pres_seq)
  show "preserves (\<lambda>z. k \<le> clock_readings (fst z)) (on_consumer (disconnect L))"
    by (rule readings_on_consumer [of L]) (rule op_stable_operations)
  show "preserves (\<lambda>z. k \<le> clock_readings (fst z)) (sub_sleep L t)"
    by (auto simp: preserves_def sub_sleep_def prog_simps clock_readings_def split: sum.split)
qed

lemma seq_seq: "seq m (seq k h) = seq (seq m k) h"
  by (simp add: seq_def bind_assoc)

interpretation subscriber_startup: startup_retry "connect_attempt L"
  "seq (on_consumer (disconnect L)) (sub_sleep L interval)" "sub_clock L"
  "is_retryable_mq_exception L" limit "\<lambda>n. startup_attempts L n limit interval"
  "\<lambda>z. clock_readings (fst z)" for L interval limit
proof
  show "fuel_free (connect_attempt L)" "fuel_free (seq (on_consumer (disconnect L)) (sub_sleep L interval))"
    "fuel_free (sub_clock L)"
    unfolding connect_attempt_def by (intro total_rules)+
  show "clock_readings (fst (snd (sub_clock L s))) = Suc (clock_readings (fst s))" for s
    by (simp add: sub_clock_def prog_simps clock_readings_def split: sum.split)
  show "clock_readings (fst s) \<le> clock_readings (fst (snd (connect_attempt L s)))" for s
    by (rule preservesD [OF readings_connect_attempt]) simp
  show "clock_readings (fst s) \<le> clock_readings (fst (snd (seq (on_consumer (disconnect L)) (sub_sleep L interval) s)))" for s
    by (rule preservesD [OF readings_again]) simp
qed (simp_all only: startup_attempts.simps seq_seq)

text \<open>
  C16. Starting a subscriber ends. Once the monotonic clock has passed the deadline of the
  start-up after some number of readings, \<open>_startup_connect_consumer\<close> returns or raises,
  whatever IBM MQ answers and however long it stays unreachable: a budget of one more
  attempt than there are readings up to that moment is enough.
\<close>

theorem startup_terminates:
  assumes "ans_clock L (the_world S) Monotonic = Inr now"
    and "\<And>w t. N \<le> calls_where (\<lambda>c. c = Monotonic) (history w) \<Longrightarrow>
           ans_clock L w Monotonic = Inr t \<Longrightarrow> now + startup_retry_timeout (broker_connection_config (outer_config p)) \<le> t"
    and "N < n"
  shows "fst (startup_connect_consumer L n (S, p)) \<noteq> NoFuel"
proof -
  let ?limit = "startup_retry_timeout (broker_connection_config (outer_config p))"
  have "subscriber_startup.passes L N (now + ?limit)"
    unfolding subscriber_startup.passes_def
    using assms(2) by (auto simp: sub_clock_def prog_simps clock_readings_def split: sum.splits)
  note ends = subscriber_startup.attempts_total [OF this, of _ n]
  show ?thesis
    using assms(1,3) ends
    by (simp add: startup_connect_consumer_def sub_clock_def prog_simps)
qed

definition clocked :: "mqlib \<Rightarrow> mqlib" where
  "clocked L = L\<lparr>ans_clock := (\<lambda>w c. Inr (Fin (100 * int (calls_where (\<lambda>c. c = Monotonic) (history w))) 0))\<rparr>"

text \<open>A queue manager that cannot be reached, and one that can at the second attempt.\<close>

fun unreachable :: "world \<Rightarrow> call \<Rightarrow> exn option" where
  "unreachable w (ConnectTcpClient q n d ch cn u p o1 sc) = Some (MQMIError 2059 0)"
| "unreachable w c = None"

definition unreachable_once :: "world \<Rightarrow> call \<Rightarrow> exn option" where
  "unreachable_once w c = (if length (history w) < 4 then unreachable w c else None)"

definition sample_broker_config :: MQBrokerConfig where
  "sample_broker_config = \<lparr>broker_connection_config = sample_config, broker_prefix = [],
     is_test_producer = False, fd_serializer = None\<rparr>"

definition sample_subscriber :: MQSubscriber where
  "sample_subscriber =
     \<lparr>sub_queue = \<lparr>name = ''ORDERS''\<rparr>, sub_wait_interval = Fin 1 0, sub_header_max = 64,
      sub_ack_policy = MANUAL, outer_config = sample_broker_config, calls = [1], running = False,
      tasks = 0, consumer = Some 0, test_messages = None, direct_message = None\<rparr>"

theorem startup_terminates_witness:
  "fst (startup_connect_consumer (clocked (sample_lib unreachable)) 2 (empty_state, sample_subscriber)) \<noteq> NoFuel"
proof (rule startup_terminates [where N = 1 and now = "Fin 0 0"])
  show "ans_clock (clocked (sample_lib unreachable)) (the_world empty_state) Monotonic = Inr (Fin 0 0)"
    by code_simp
  fix w t
  assume "1 \<le> calls_where (\<lambda>c. c = Monotonic) (history w)"
    and "ans_clock (clocked (sample_lib unreachable)) w Monotonic = Inr t"
  then show "Fin 0 0 + startup_retry_timeout (broker_connection_config (outer_config sample_subscriber)) \<le> t"
    by (auto simp: clocked_def sample_subscriber_def sample_broker_config_def sample_config_def
        round_53_exact align_def)
qed simp

lemma start_once_returns:
  assumes "start_consumer_once L n s = (Returns (), t)"
  shows "consumer_queue (fst t) \<noteq> None \<and> consumer_queue_name (fst t) = n"
  using assms by (auto simp: start_consumer_once_def run_simps)

lemma start_consumer_returns:
  assumes "start_consumer L n s = (Returns (), t)"
  shows "consumer_queue (fst t) \<noteq> None \<and> consumer_queue_name (fst t) = n"
  using assms
  by (auto simp: start_consumer_def started_def start_consumer_sync_def run_with_reconnect_sync_def run_simps
      split: option.splits if_splits dest: start_once_returns)

definition same_consumer :: "mqlib \<Rightarrow> nat \<Rightarrow> string \<Rightarrow> mqstate \<times> MQSubscriber \<Rightarrow> bool" where
  "same_consumer L c q z \<longleftrightarrow> store_ok L (fst z) \<and> consumer (snd z) = Some c \<and> sub_routing (snd z) = q"

lemma pres_same_consumer:
  "preserves (store_ok L) (on_connection c m) \<Longrightarrow> preserves (same_consumer L c q) (on_consumer m)"
  by (auto simp: preserves_def same_consumer_def on_consumer_def prog_simps split: option.splits)

lemma pres_same_consumer_world:
  "preserves (store_ok L) (call_on_world m) \<Longrightarrow> preserves (same_consumer L c q) (outside (call_on_world m))"
  by (auto simp: preserves_def same_consumer_def prog_simps)

lemma store_ok_call:
  assumes "harmless x"
  shows "preserves (store_ok L) (call_on_world (call_lib ans x))"
proof -
  have "conn_ok L (c, record_call x b w)" if "conn_ok L (c, w)" for c w b
    using log_stable_conn_ok [of L] assms that by (simp add: log_stable_def)
  then show ?thesis
    by (simp add: preserves_def store_ok_def call_on_world_apply call_lib_apply del: world_extend_record split: sum.split)
qed

lemma hoare_connect_attempt:
  "hoare (same_consumer L c q) (connect_attempt L)
     (\<lambda>r z. same_consumer L c q z \<and> (r = Returns () \<longrightarrow>
        consumer_queue (connections (fst z) c) \<noteq> None \<and> consumer_queue_name (connections (fst z) c) = q))"
  unfolding connect_attempt_def
proof (rule hoare_step_seq)
  show "preserves (same_consumer L c q) (on_consumer (connect L))"
    by (rule pres_same_consumer [OF store_ok_operations(1)])
  show "hoare (same_consumer L c q) (bind (get_local sub_routing) (\<lambda>q. on_consumer (start_consumer L q)))
     (\<lambda>r z. same_consumer L c q z \<and> (r = Returns () \<longrightarrow>
        consumer_queue (connections (fst z) c) \<noteq> None \<and> consumer_queue_name (connections (fst z) c) = q))"
  proof (rule hoareI)
    fix z :: "mqstate \<times> MQSubscriber"
    assume z: "same_consumer L c q z"
    have keep: "same_consumer L c q (snd (on_consumer (start_consumer L q) z))"
      by (rule preservesD [OF pres_same_consumer [OF store_ok_operations(3)] z])
    moreover have "consumer_queue (connections (fst (snd (on_consumer (start_consumer L q) z))) c) \<noteq> None
        \<and> consumer_queue_name (connections (fst (snd (on_consumer (start_consumer L q) z))) c) = q"
      if "fst (on_consumer (start_consumer L q) z) = Returns ()"
      using that z start_consumer_returns [of L q "(connections (fst z) c, the_world (fst z))"]
      by (auto simp: on_consumer_def prog_simps same_consumer_def prod_eq_iff)
    ultimately show "same_consumer L c q (snd (bind (get_local sub_routing) (\<lambda>q. on_consumer (start_consumer L q)) z))
      \<and> (fst (bind (get_local sub_routing) (\<lambda>q. on_consumer (start_consumer L q)) z) = Returns () \<longrightarrow>
        consumer_queue (connections (fst (snd (bind (get_local sub_routing) (\<lambda>q. on_consumer (start_consumer L q)) z))) c) \<noteq> None \<and>
        consumer_queue_name (connections (fst (snd (bind (get_local sub_routing) (\<lambda>q. on_consumer (start_consumer L q)) z))) c) = q)"
      using z by (simp add: bind_apply get_local_apply same_consumer_def)
  qed
qed auto

lemma startup_returns:
  assumes "same_consumer L c q z" and "startup_connect_consumer L n z = (Returns (), z')"
  shows "same_consumer L c q z' \<and> consumer_queue (connections (fst z') c) \<noteq> None
    \<and> consumer_queue_name (connections (fst z') c) = q"
proof -
  let ?cfg = "broker_connection_config (outer_config (snd z))"
  let ?ready = "\<lambda>z. same_consumer L c q z \<and> consumer_queue (connections (fst z) c) \<noteq> None
    \<and> consumer_queue_name (connections (fst z) c) = q"
  have clock: "preserves (same_consumer L c q) (sub_clock L)"
    unfolding sub_clock_def by (rule pres_same_consumer_world [OF store_ok_call]) simp
  have sleep: "preserves (same_consumer L c q) (sub_sleep L t)" for t
    unfolding sub_sleep_def by (rule pres_same_consumer_world [OF store_ok_call]) simp
  have again: "preserves (same_consumer L c q) (seq (on_consumer (disconnect L)) (sub_sleep L t))" for t
    by (intro pres_seq sleep pres_same_consumer [OF store_ok_operations(2)])
  have free: "fst (connect_attempt L z) \<noteq> NoFuel" for z
    by (rule fuel_freeD) (auto simp: connect_attempt_def intro!: total_rules)
  have "hoare (same_consumer L c q) (startup_attempts L n limit interval deadline)
      (\<lambda>r z. r = Returns () \<longrightarrow> ?ready z)" for limit interval deadline
  proof (rule subscriber_startup.attempts_hoare [where J = "\<lambda>_. same_consumer L c q"])
    show "hoare (same_consumer L c q) (connect_attempt L)
      (\<lambda>r z. case r of Returns _ \<Rightarrow> ?ready z | Raises e \<Rightarrow> same_consumer L c q z | NoFuel \<Rightarrow> False)"
      using hoare_connect_attempt [of L c q] free by (auto simp: hoare_def split: outcome.split)
    show "hoare (same_consumer L c q) (seq (on_consumer (disconnect L)) (sub_sleep L interval))
      (\<lambda>r z. case r of Returns _ \<Rightarrow> same_consumer L c q z | _ \<Rightarrow> True)"
      by (rule hoare_post [OF hoare_preserves [OF again]]) (simp split: outcome.split)
  qed (rule clock)
  note attempts = hoareD [OF this, of "snd (sub_clock L z)" _ _ _ "Returns ()" z']
  have "same_consumer L c q (snd (sub_clock L z))" by (rule preservesD [OF clock assms(1)])
  from attempts [OF this] assms(2) show ?thesis
    by (auto simp: startup_connect_consumer_def bind_run seq_run get_local_run assert_that_run)
qed

text \<open>
  C17. A subscriber that has started is reading. When \<open>_startup_connect_consumer\<close> returns,
  after however many failed attempts, the subscriber's connection holds a queue manager
  that is connected and not disconnected, and the queue of its routing key, prefix
  included, is open for input on it; every other connection of the process is as valid as
  before, and none shares its queue manager.
\<close>

theorem startup_ready:
  assumes "store_ok L S" and "consumer p = Some c"
    and "startup_connect_consumer L n (S, p) = (Returns (), (S', p'))"
  shows "store_ok L S' \<and> consumer p' = Some c
    \<and> (\<exists>q h. qmgr (connections S' c) = Some q \<and> live_qmgr (history (the_world S')) q
         \<and> consumer_queue (connections S' c) = Some h
         \<and> open_input L (history (the_world S')) q (sub_routing p) h)"
proof -
  have "same_consumer L c (sub_routing p) (S, p)" using assms(1,2) by (simp add: same_consumer_def)
  from startup_returns [OF this assms(3)]
  have ready: "store_ok L S'" "consumer p' = Some c" "consumer_queue_name (connections S' c) = sub_routing p"
    and "consumer_queue (connections S' c) \<noteq> None"
    by (auto simp: same_consumer_def)
  then obtain h where h: "consumer_queue (connections S' c) = Some h" by auto
  have ok: "conn_ok L (connections S' c, the_world S')" using ready(1) by (simp add: store_ok_def)
  with h obtain q where "qmgr (connections S' c) = Some q"
      "open_input L (history (the_world S')) q (consumer_queue_name (connections S' c)) h"
    by (auto simp: conn_ok_defs)
  with ok h ready show ?thesis by (auto simp: conn_ok_defs)
qed

theorem startup_ready_witness:
  "\<exists>S' p'. startup_connect_consumer (sample_lib no_faults) 1 (empty_state, sample_subscriber) = (Returns (), (S', p'))
     \<and> (\<exists>q h. qmgr (connections S' 0) = Some q \<and> live_qmgr (history (the_world S')) q
         \<and> consumer_queue (connections S' 0) = Some h
         \<and> open_input (sample_lib no_faults) (history (the_world S')) q ''ORDERS'' h)"
proof -
  let ?x = "startup_connect_consumer (sample_lib no_faults) 1 (empty_state, sample_subscriber)"
  have r: "fst ?x = Returns ()" by code_simp
  obtain S' p' where x: "?x = (Returns (), (S', p'))" using r by (cases ?x) auto
  have "consumer sample_subscriber = Some 0" and q: "sub_routing sample_subscriber = ''ORDERS''"
    by (simp_all add: sample_subscriber_def sub_routing_def sample_broker_config_def routing_def)
  from startup_ready [OF empty_state_ok this(1) x] x show ?thesis unfolding q by blast
qed

section \<open>Failures of a handler\<close>


section \<open>Stopping\<close>

text \<open>A piece of code that leaves a connection and who reads from it alone.\<close>

definition quiet :: "nat \<Rightarrow> 'a sub_prog \<Rightarrow> bool" where
  "quiet c m \<longleftrightarrow> (\<forall>z. connections (fst (snd (m z))) c = connections (fst z) c
     \<and> consumer (snd (snd (m z))) = consumer (snd z) \<and> test_messages (snd (snd (m z))) = test_messages (snd z)
     \<and> tasks (snd (snd (m z))) = tasks (snd z))"

lemma quietD:
  assumes "quiet c m" and "m z = (r, (S, p))"
  shows "connections S c = connections (fst z) c" "consumer p = consumer (snd z)"
    "test_messages p = test_messages (snd z)" "tasks p = tasks (snd z)"
  using assms unfolding quiet_def by (metis fst_conv snd_conv)+

lemma disconnect_returns:
  assumes "executor (fst s)" and "disconnect L s = (Returns (), t)"
  shows "\<not> executor (fst t) \<and> qmgr (fst t) = None \<and> consumer_queue (fst t) = None \<and> prepared_tls (fst t) = None"
  using assms disconnect_sync_cases [where L = L and s = s]
  by (auto simp: disconnect_def run_simps)

lemma executor_stop_consumer:
  "executor (fst (snd (stop_consumer L s))) = executor (fst s)"
  by (auto simp: stop_consumer_def stop_consumer_sync_def prog_simps split: option.split sum.split)

text \<open>
  What \<open>stop\<close> does once the base class has stopped: the tasks are awaited, then the
  connection is closed. Stated for any run of the awaited tasks.
\<close>

lemma stop_runs:
  assumes "base_stop H (S, p) = (Returns (), (S1, p1))" and "test_messages p1 = None"
    and "cancel_and_wait H False (tasks p) (S1, p1\<lparr>direct_message := None\<rparr>) = (Returns (), (S2, p2))"
    and "consumer p2 = Some c"
    and "stop L H False (S, p) = (Returns (), (S', p'))"
  shows "\<exists>t v. stop_consumer L (connections S2 c, the_world S2) = (Returns (), t) \<and> disconnect L t = (Returns (), v)
    \<and> S' = S2\<lparr>connections := (connections S2)(c := fst v), the_world := snd v\<rparr>
    \<and> p' = p2\<lparr>tasks := 0, consumer := None\<rparr>"
proof -
  have "seq (outside (on_connection c (stop_consumer L))) (seq (outside (on_connection c (disconnect L)))
      (local (\<lambda>p. p\<lparr>consumer := None\<rparr>))) (S2, p2\<lparr>tasks := 0\<rparr>) = (Returns (), (S', p'))"
    using assms by (simp add: stop_def seq_apply [where m = "base_stop H"] bind_apply get_local_apply
        seq_apply [where m = "cancel_and_wait H False n" for n] seq_apply [where m = "local f" for f] local_apply)
  then show ?thesis by (auto simp: run_simps)
qed


text \<open>A stop that ends with the loops running no more is on a test broker or has no loop.\<close>

lemma stop_inside:
  assumes "quiet c (base_stop H)" and "base_stop H (S, p) = (Returns (), (S1, p1))"
    and "test_messages p = None" and "tasks p \<noteq> 0"
  shows "stop L H True (S, p) = (NoFuel, (S1, p1\<lparr>direct_message := None\<rparr>))"
  using quietD [OF assms(1,2)] assms(2-4)
  by (simp add: stop_def prog_simps cancel_and_wait_def never_returns_def)

lemma link_stable_executor: "link_stable (\<lambda>s. executor (fst s) = b)"
  by (simp add: link_stable_def tls_blind_def log_stable_def)

lemma run_keeps_executor:
  assumes "preserves (\<lambda>t. executor (fst t) = x) op"
  shows "preserves (\<lambda>t. executor (fst t) = x) (run_with_reconnect_sync L op b)"
proof -
  have log: "log_stable (\<lambda>_. True) (\<lambda>t. executor (fst t) = x)" by (simp add: log_stable_def)
  show ?thesis
    unfolding run_with_reconnect_sync_def
    by (rule pres_bind pres_seq pres_try_except pres_if pres_ret pres_throw pres_case_option pres_load assms
        pres_link_recover link_stable_executor pres_call_unit [OF log] | simp)+
qed

lemma keeps_executor:
  "executor (fst (snd (commit L s))) = executor (fst s)"
  "executor (fst (snd (backout L s))) = executor (fst s)"
  "executor (fst (snd (get_message L fuel t k s))) = executor (fst s)"
proof -
  let ?I = "\<lambda>t :: cst. executor (fst t) = executor (fst s)"
  have log: "log_stable (\<lambda>_. True) ?I" by (simp add: log_stable_def)
  note run = run_keeps_executor [of "executor (fst s)"]
  have "preserves ?I (commit L)" "preserves ?I (backout L)"
    unfolding commit_def commit_sync_def commit_once_def backout_def backout_sync_def backout_once_def
    by (intro pres_started pres_bind pres_getc run; rule pres_on_qmgr [OF log]; simp)+
  moreover have "preserves ?I (get_message L fuel t k)"
    unfolding get_message_def get_message_sync_def
    by (intro pres_started run pres_get_message_once) (simp add: log_stable_def)
  ultimately show "executor (fst (snd (commit L s))) = executor (fst s)"
    "executor (fst (snd (backout L s))) = executor (fst s)"
    "executor (fst (snd (get_message L fuel t k s))) = executor (fst s)"
    by (auto dest: preservesD)
qed

lemma settle_unresolved_frame:
  "snd (snd (settle_unresolved L H a e z)) = snd z"
  "executor (connections (fst (snd (settle_unresolved L H a e z))) c) = executor (connections (fst z) c)"
  by (auto simp: settle_unresolved_def settle_unresolved_message_def connection_acknowledger_def
      shield_def prog_simps keeps_executor split: option.split outcome.split)


text \<open>
  The consume loop, cancelled while the worker thread is in \<open>get_message\<close>: the executor
  runs the call to its end, and nobody reads the result.
\<close>

definition interrupted_get :: "mqlib \<Rightarrow> nat \<Rightarrow> nat \<Rightarrow> pyfloat \<Rightarrow> int \<Rightarrow> unit sub_prog" where
  "interrupted_get L c fuel t k = (\<lambda>(S, p). (Returns (), (snd (on_connection c (get_message L fuel t k) S), p)))"

text \<open>
  C19. A stop can lose a message. When it cancels a loop whose worker is just getting a
  message, that message is got inside the unit of work and given to nobody: no raw message
  is made of it, so it cannot be settled. \<open>stop\<close> then closes the queue and disconnects the
  queue manager with no commit and no backout in between; the disconnection of MQ commits
  the open unit of work, and the message is gone.
\<close>

theorem stop_drops_message:
  assumes "base_stop H (S, p) = (Returns (), (S1, p1))" and "cancelled_tasks H = interrupted_get L c fuel t k"
    and "consumer p1 = Some c" and "test_messages p1 = None" and "tasks p \<noteq> 0"
    and "conn_ok L (connections S1 c, the_world S1)" and "executor (connections S1 c)"
    and "get_message L fuel t k (connections S1 c, the_world S1) = (Returns (Some m), s2)"
    and "stop L H False (S, p) = (Returns (), (S', p'))"
  shows "\<exists>u wi q cq b md h. message_got L wi q cq b md u (history (snd s2))
    \<and> raw_messages S' = raw_messages S1 \<and> next_message S' = next_message S1
    \<and> history (the_world S') = history (snd s2) @ h
    \<and> map fst h = [CloseQueue cq, Disconnect q] @ tls_release_calls (prepared_tls (fst s2))"
proof -
  obtain u wi q cq b md where u: "fst s2 = fst u" "qmgr (fst u) = Some q" "consumer_queue (fst u) = Some cq"
    and got: "message_got L wi q cq b md (snd u) (history (snd s2))"
    using get_message_result [OF assms(6,8)] by auto
  have ex: "executor (fst s2)"
    using keeps_executor(3) [of L fuel t k "(connections S1 c, the_world S1)"] assms(7,8) by simp
  let ?S2 = "S1\<lparr>connections := (connections S1)(c := fst s2), the_world := snd s2\<rparr>"
  have "cancel_and_wait H False (tasks p) (S1, p1\<lparr>direct_message := None\<rparr>) = (Returns (), (?S2, p1\<lparr>direct_message := None\<rparr>))"
    using assms(2,5,8) by (simp add: cancel_and_wait_def interrupted_get_def on_connection_apply)
  from stop_runs [OF assms(1,4) this _ assms(9), of c] assms(3)
  obtain x v where x: "stop_consumer L s2 = (Returns (), x)" and v: "disconnect L x = (Returns (), v)"
    and S': "S' = ?S2\<lparr>connections := (connections ?S2)(c := fst v), the_world := snd v\<rparr>"
    by auto
  have "x = ((fst s2)\<lparr>consumer_queue := None, consumer_queue_name := []\<rparr>, record_call (CloseQueue cq) True (snd s2))"
    using x u ex by (auto simp: stop_consumer_def stop_consumer_sync_def prog_simps split: sum.splits)
  with v ex u disconnect_outcome [of x L]
  obtain h where h: "history (snd v) = history (snd s2) @ (CloseQueue cq, True) # h"
    "map fst h = [Disconnect q] @ tls_release_calls (prepared_tls (fst s2))"
    by (auto simp: release_calls_def)
  then show ?thesis
    using got S'
    by (intro exI [of _ "snd u"] exI [of _ wi] exI [of _ q] exI [of _ cq] exI [of _ b] exI [of _ md]
        exI [of _ "(CloseQueue cq, True) # h"]) simp
qed

section \<open>One open message\<close>

text \<open>
  The messages of a connection are kept when none is added and none of the old ones loses
  its settlement.
\<close>

definition keeps :: "nat \<Rightarrow> mqstate \<Rightarrow> mqstate \<Rightarrow> bool" where
  "keeps c S S' \<longleftrightarrow> (\<forall>b. b < next_message S' \<and> connection (raw_messages S' b) = Some c \<longrightarrow>
     b < next_message S \<and> connection (raw_messages S b) = Some c
     \<and> (settled (raw_messages S b) \<noteq> None \<longrightarrow> settled (raw_messages S' b) \<noteq> None)
     \<and> (settled_event (raw_messages S b) \<longrightarrow> settled_event (raw_messages S' b)))"

lemma keeps_refl [simp]: "keeps c S S"
  by (simp add: keeps_def)

lemma keeps_trans: "keeps c S T \<Longrightarrow> keeps c T U \<Longrightarrow> keeps c S U"
  unfolding keeps_def by blast

text \<open>The same for a piece of code, which also neither changes the policy nor starts the subscriber.\<close>

definition keeps_all :: "nat \<Rightarrow> mqstate \<times> MQSubscriber \<Rightarrow> mqstate \<times> MQSubscriber \<Rightarrow> bool" where
  "keeps_all c z z' \<longleftrightarrow> keeps c (fst z) (fst z') \<and> sub_ack_policy (snd z') = sub_ack_policy (snd z)
     \<and> (running (snd z') \<longrightarrow> running (snd z))"

lemma keeps_all_refl [simp]: "keeps_all c z z"
  by (simp add: keeps_all_def)

lemma keeps_all_trans: "keeps_all c x y \<Longrightarrow> keeps_all c y z \<Longrightarrow> keeps_all c x z"
  by (auto simp: keeps_all_def intro: keeps_trans)

definition keeping :: "nat \<Rightarrow> 'a sub_prog \<Rightarrow> bool" where
  "keeping c m \<longleftrightarrow> (\<forall>z0. preserves (keeps_all c z0) m)"

lemma keepingI: "(\<And>z. keeps_all c z (snd (m z))) \<Longrightarrow> keeping c m"
  unfolding keeping_def preserves_def using keeps_all_trans by blast

lemma keepingD: "keeping c m \<Longrightarrow> keeps_all c z (snd (m z))"
  unfolding keeping_def preserves_def by (metis keeps_all_refl)

lemma keeping_run: "keeping c m \<Longrightarrow> m z = (r, z') \<Longrightarrow> keeps_all c z z'"
  using keepingD by (metis snd_conv)

text \<open>What a released message is: settled, or its waiters let go.\<close>

definition released :: "nat \<Rightarrow> nat \<Rightarrow> mqstate \<Rightarrow> bool" where
  "released c n S \<longleftrightarrow> (\<forall>b. n \<le> b \<and> b < next_message S \<and> connection (raw_messages S b) = Some c \<longrightarrow>
     settled (raw_messages S b) \<noteq> None \<or> settled_event (raw_messages S b))"

lemma released_keeps: "released c n S \<Longrightarrow> keeps c S S' \<Longrightarrow> released c n S'"
  unfolding released_def keeps_def by blast

lemma keeping_rules:
  "keeping c m \<Longrightarrow> (\<And>x. keeping c (k x)) \<Longrightarrow> keeping c (bind m k)"
  "keeping c m \<Longrightarrow> keeping c k' \<Longrightarrow> keeping c (seq m k')"
  "keeping c (ret x)" "keeping c (throw e)" "keeping c (out_of_fuel)" "keeping c (get_local f)"
  "keeping c m \<Longrightarrow> (\<And>e. keeping c (h e)) \<Longrightarrow> keeping c (try_except m h)"
  "keeping c m \<Longrightarrow> keeping c u \<Longrightarrow> keeping c (try_finally m u)"
  "keeping c u \<Longrightarrow> keeping c (when_do b u)"
  "keeping c (assert_that b msg)"
  unfolding keeping_def
  by (auto intro!: pres_bind pres_seq pres_ret pres_throw pres_out_of_fuel pres_get_local
      pres_try_except pres_try_finally pres_when_do pres_assert_that)

lemma keeping_local:
  "(\<And>p. sub_ack_policy (g p) = sub_ack_policy p) \<Longrightarrow> (\<And>p. running (g p) \<longrightarrow> running p) \<Longrightarrow> keeping c (local g)"
  by (rule keepingI) (simp add: prog_simps keeps_all_def)

lemma keeping_case_option:
  "keeping c a \<Longrightarrow> (\<And>x. keeping c (b x)) \<Longrightarrow> keeping c (case v of None \<Rightarrow> a | Some x \<Rightarrow> b x)"
  by (cases v) auto

lemma keeping_if: "keeping c m \<Longrightarrow> keeping c k \<Longrightarrow> keeping c (if b then m else k)"
  by simp

lemma keeping_get_raw: "keeping c (outside (get_raw a f))"
  by (rule keepingI) (simp add: prog_simps)

lemma keeping_on_connection: "keeping c (outside (on_connection i m))"
  by (rule keepingI) (simp add: prog_simps keeps_all_def keeps_def)

lemma keeping_settle: "keeping c (settle_unresolved L H a e)"
  by (rule keepingI)
    (auto simp: settle_unresolved_def settle_unresolved_message_def connection_acknowledger_def shield_def
      prog_simps keeps_all_def keeps_def split: option.split outcome.split)

text \<open>The code outside the adapter takes no message from the connection and undoes no settlement.\<close>

definition hooks_keep :: "nat \<Rightarrow> fsub \<Rightarrow> bool" where
  "hooks_keep c H \<longleftrightarrow> keeping c (base_stop H) \<and> keeping c (other_tasks H) \<and> keeping c (cancelled_tasks H)
     \<and> keeping c (app_exit H) \<and> (\<forall>a. keeping c (base_process_message H a))"

lemma keeping_stop: "hooks_keep c H \<Longrightarrow> keeping c (stop L H inside)"
  unfolding stop_def cancel_and_wait_def never_returns_def hooks_keep_def
  by (intro keeping_rules keeping_local keeping_if keeping_case_option keeping_on_connection) auto

lemma keeping_consume: "hooks_keep c H \<Longrightarrow> keeping c (consume L H inside a)"
  unfolding consume_def
  by (intro keeping_rules keeping_if keeping_settle keeping_stop) (auto simp: hooks_keep_def)

text \<open>The last message taken may still be open.\<close>

definition closed_message :: "nat \<Rightarrow> nat \<Rightarrow> mqstate \<Rightarrow> bool" where
  "closed_message c b S \<longleftrightarrow> (b < next_message S \<and> connection (raw_messages S b) = Some c \<longrightarrow>
     settled (raw_messages S b) \<noteq> None \<or> settled_event (raw_messages S b))"

lemma released_closed: "released c n S \<longleftrightarrow> (\<forall>b \<ge> n. closed_message c b S)"
  by (auto simp: released_def closed_message_def)

definition released_but :: "nat \<Rightarrow> nat \<Rightarrow> nat \<Rightarrow> mqstate \<Rightarrow> bool" where
  "released_but c n a S \<longleftrightarrow> (\<forall>b \<ge> n. b \<noteq> a \<longrightarrow> closed_message c b S)"

lemma closed_keeps: "closed_message c b S \<Longrightarrow> keeps c S S' \<Longrightarrow> closed_message c b S'"
  unfolding closed_message_def keeps_def by blast

lemma released_but_keeps: "released_but c n a S \<Longrightarrow> keeps c S S' \<Longrightarrow> released_but c n a S'"
  by (auto simp: released_but_def intro: closed_keeps)

lemma released_but_closed: "released_but c n a S \<Longrightarrow> closed_message c a S \<Longrightarrow> released c n S"
  by (auto simp: released_but_def released_closed)

lemma fetch_released:
  assumes "hooks_keep c H" and "released c n (fst z)" and "fetch L H fuel t z = (Returns x, z')"
  shows "sub_ack_policy (snd z') = sub_ack_policy (snd z)
    \<and> (case x of None \<Rightarrow> released c n (fst z') | Some a \<Rightarrow> released_but c n a (fst z'))"
proof -
  have "keeping c (other_tasks H)" using assms(1) by (simp add: hooks_keep_def)
  note others = keepingD [OF this, unfolded keeps_all_def]
  note rel = released_keeps [OF _ others [THEN conjunct1]] released_but_keeps [OF _ others [THEN conjunct1]]
  have old: "released c n (S\<lparr>connections := f, the_world := w\<rparr>)" if "released c n S" for S f w
    using that by (simp add: released_def)
  have new: "released_but c n (next_message S)
      (S\<lparr>connections := f, the_world := w, raw_messages := (raw_messages S)(next_message S := m),
         next_message := Suc (next_message S)\<rparr>)" if "released c n S" for S f w m
    using that by (auto simp: released_def released_but_def closed_message_def less_Suc_eq)
  show ?thesis
    using assms(2,3) others
    by (auto simp: fetch_def awaiting_def prog_simps intro!: rel old new
        split: option.splits outcome.splits)
qed

lemma wait_returns:
  "wait_settled_event H a z = (Returns u, z') \<Longrightarrow> settled_event (raw_messages (fst z') a)"
  by (auto simp: wait_settled_event_def never_returns_def run_simps get_raw_apply split: if_splits)

lemma wait_keeps: "hooks_keep c H \<Longrightarrow> keeping c (wait_settled_event H a)"
  unfolding wait_settled_event_def never_returns_def
  by (intro keeping_rules keeping_if keeping_get_raw) (auto simp: hooks_keep_def)

lemma settle_closes: "settle_unresolved L H a e z = (Returns u, z') \<Longrightarrow> closed_message c a (fst z')"
  using settle_unresolved_cases [where L = L and policy = "sub_ack_policy (snd z)"
      and cancelled = "settle_cancelled H a" and a = a and e = e and S = "fst z"]
  by (auto simp: settle_unresolved_def prog_simps closed_message_def split: prod.splits if_splits)

text \<open>What \<open>consume\<close> has done with a message: its handlers returned, or it is closed.\<close>

lemma consume_returns:
  assumes "hooks_keep c H" and "running (snd z)" and "consume L H b a z = (Returns y, z')"
  shows "(\<exists>x. base_process_message H a z = (Returns x, z')) \<or> closed_message c a (fst z')"
proof -
  obtain r z1 where Pair: "base_process_message H a z = (r, z1)" by (cases "base_process_message H a z")
  show ?thesis
  proof (cases r)
    case (Raises e)
    have "(\<exists>u. settle_unresolved L H a e z1 = (Returns u, z'))
      \<or> (\<exists>u z2 v z3. settle_unresolved L H a e z1 = (Returns u, z2) \<and> stop L H b z2 = (Returns v, z3)
           \<and> (z' = z3 \<or> (\<exists>w. app_exit H z3 = (Returns w, z'))))"
      using assms(2,3) Pair Raises
      by (fastforce simp: consume_def bind_apply get_local_apply try_except_apply ret_apply throw_apply
          seq_run ret_run split: if_splits)
    then show ?thesis
    proof (elim disjE exE conjE)
      fix u assume "settle_unresolved L H a e z1 = (Returns u, z')"
      then show ?thesis using settle_closes by blast
    next
      fix u z2 v z3
      assume s: "settle_unresolved L H a e z1 = (Returns u, z2)" and st: "stop L H b z2 = (Returns v, z3)"
      have z3: "closed_message c a (fst z3)"
        using closed_keeps [OF settle_closes [OF s]] keeping_run [OF keeping_stop [OF assms(1)] st]
        by (simp add: keeps_all_def)
      { assume "z' = z3" then show ?thesis using z3 by simp }
      fix w assume "app_exit H z3 = (Returns w, z')"
      then have "keeps_all c z3 z'" using assms(1) by (auto simp: hooks_keep_def intro: keeping_run)
      with z3 show ?thesis by (auto simp: keeps_all_def intro: closed_keeps)
    qed
  qed (use assms(2,3) Pair in \<open>auto simp: consume_def prog_simps\<close>)
qed

text \<open>The policy settles the messages whose handlers return, or the loop waits for it.\<close>

definition settles_processed :: "nat \<Rightarrow> fsub \<Rightarrow> AckPolicy \<Rightarrow> bool" where
  "settles_processed c H policy \<longleftrightarrow> policy = MANUAL
     \<or> (\<forall>a z x z'. base_process_message H a z = (Returns x, z') \<longrightarrow> sub_ack_policy (snd z) = policy \<longrightarrow> closed_message c a (fst z'))"

lemma consume_turn_parts:
  assumes "consume_turn L H fuel z = (Returns True, z')"
  shows "\<exists>x z1. fetch L H fuel (sub_wait_interval (snd z)) z = (Returns x, z1)
      \<and> (case x of None \<Rightarrow> z' = z1
        | Some a \<Rightarrow> \<exists>y z2. consume L H True a z1 = (Returns y, z2)
            \<and> (if sub_ack_policy (snd z2) = MANUAL \<and> settled (raw_messages (fst z2) a) = None
               then wait_settled_event H a z2 = (Returns (), z') else z' = z2))"
  using assms
  by (fastforce simp: consume_turn_def run_simps outside_apply get_raw_apply split: if_splits option.splits)

lemma consume_turn_released:
  assumes H: "hooks_keep c H" and z: "released c n (fst z)" and settles: "settles_processed c H (sub_ack_policy (snd z))"
    and run: "consume_turn L H fuel z = (Returns True, z')" and runs: "running (snd z')"
  shows "released c n (fst z')"
proof -
  obtain x z1 where f: "fetch L H fuel (sub_wait_interval (snd z)) z = (Returns x, z1)"
    and rest: "case x of None \<Rightarrow> z' = z1
        | Some a \<Rightarrow> \<exists>y z2. consume L H True a z1 = (Returns y, z2)
            \<and> (if sub_ack_policy (snd z2) = MANUAL \<and> settled (raw_messages (fst z2) a) = None
               then wait_settled_event H a z2 = (Returns (), z') else z' = z2)"
    using consume_turn_parts [OF run] by blast
  note fetched = fetch_released [OF H z f]
  show ?thesis
  proof (cases x)
    case None
    then show ?thesis using fetched rest by simp
  next
    case (Some a)
    then obtain y z2 where c: "consume L H True a z1 = (Returns y, z2)"
      and w: "if sub_ack_policy (snd z2) = MANUAL \<and> settled (raw_messages (fst z2) a) = None
               then wait_settled_event H a z2 = (Returns (), z') else z' = z2"
      using rest by auto
    note k = keeping_run [OF keeping_consume [OF H] c, unfolded keeps_all_def]
    have but: "released_but c n a (fst z2)" and policy: "sub_ack_policy (snd z2) = sub_ack_policy (snd z)"
      "sub_ack_policy (snd z1) = sub_ack_policy (snd z)"
      using fetched Some k by (auto intro: released_but_keeps)
    show ?thesis
    proof (cases "sub_ack_policy (snd z2) = MANUAL \<and> settled (raw_messages (fst z2) a) = None")
      case True
      with w have wait: "wait_settled_event H a z2 = (Returns (), z')" by simp
      have "released_but c n a (fst z')"
        using but keeping_run [OF wait_keeps [OF H] wait] by (auto simp: keeps_all_def intro: released_but_keeps)
      then show ?thesis by (rule released_but_closed) (simp add: closed_message_def wait_returns [OF wait])
    next
      case False
      with w have z': "z' = z2" by auto
      have "closed_message c a (fst z2)"
      proof (cases "sub_ack_policy (snd z) = MANUAL")
        case True
        then show ?thesis using False policy(1) by (simp add: closed_message_def)
      next
        case not_manual: False
        have "running (snd z1)" using k runs z' by simp
        from consume_returns [OF H this c] show ?thesis
        proof (elim disjE exE)
          fix x assume "base_process_message H a z1 = (Returns x, z2)"
          then show ?thesis using settles not_manual policy(2) unfolding settles_processed_def by metis
        qed
      qed
      with but show ?thesis unfolding z' by (rule released_but_closed)
    qed
  qed
qed

text \<open>The states at the head of the loop.\<close>

inductive loop_heads :: "mqlib \<Rightarrow> fsub \<Rightarrow> nat \<Rightarrow> mqstate \<times> MQSubscriber \<Rightarrow> mqstate \<times> MQSubscriber \<Rightarrow> bool"
  for L H fuel where
  first_turn: "loop_heads L H fuel z z"
| next_turn: "loop_heads L H fuel z y \<Longrightarrow> consume_turn L H fuel y = (Returns True, x) \<Longrightarrow> loop_heads L H fuel z x"

lemma consume_turn_keeps:
  assumes H: "hooks_keep c H" and run: "consume_turn L H fuel z = (Returns True, z')"
  shows "sub_ack_policy (snd z') = sub_ack_policy (snd z) \<and> running (snd z)"
proof
  show "running (snd z)" using run by (auto simp: consume_turn_def run_simps split: if_splits)
  obtain x z1 where f: "fetch L H fuel (sub_wait_interval (snd z)) z = (Returns x, z1)"
    and rest: "case x of None \<Rightarrow> z' = z1
        | Some a \<Rightarrow> \<exists>y z2. consume L H True a z1 = (Returns y, z2)
            \<and> (if sub_ack_policy (snd z2) = MANUAL \<and> settled (raw_messages (fst z2) a) = None
               then wait_settled_event H a z2 = (Returns (), z') else z' = z2)"
    using consume_turn_parts [OF run] by blast
  have "released c (next_message (fst z)) (fst z)" by (auto simp: released_def)
  note policy = fetch_released [OF H this f, THEN conjunct1]
  show "sub_ack_policy (snd z') = sub_ack_policy (snd z)"
  proof (cases x)
    case (Some a)
    then obtain y z2 where "consume L H True a z1 = (Returns y, z2)"
      and w: "z' = z2 \<or> wait_settled_event H a z2 = (Returns (), z')"
      using rest by (auto split: if_splits)
    then have "keeps_all c z1 z2" "keeps_all c z2 z'"
      using keeping_run [OF keeping_consume [OF H]] keeping_run [OF wait_keeps [OF H]]
        keeps_all_refl [of c z2] by blast+
    then show ?thesis using policy by (simp add: keeps_all_def)
  qed (use rest policy in simp)
qed

lemma loop_heads_released:
  assumes "hooks_keep c H"
  shows "loop_heads L H fuel z y \<Longrightarrow> released c n (fst z) \<Longrightarrow> settles_processed c H (sub_ack_policy (snd z)) \<Longrightarrow>
    sub_ack_policy (snd y) = sub_ack_policy (snd z) \<and> (running (snd y) \<longrightarrow> released c n (fst y))"
proof (induction rule: loop_heads.induct)
  case (next_turn z y x)
  then show ?case
    using consume_turn_keeps [OF assms next_turn(2)] consume_turn_released [OF assms _ _ next_turn(2), of n] by auto
qed simp

text \<open>
  C7. At most one message of a connection is open. Whenever the consume loop is about to
  fetch a message, every message it has taken from the connection before is settled, or its
  waiters have been released by a settlement that failed, whatever the handlers, the other
  tasks and IBM MQ did in between: no message is got into the unit of work of another one.
  Under manual settlement the loop itself sees to it; under the other policies the messages
  whose handlers return are settled by the acknowledgement of FastStream, which is assumed,
  and all others by the adapter.
\<close>

theorem loop_one_open_message:
  assumes "hooks_keep c H" and "settles_processed c H (sub_ack_policy p)"
    and "loop_heads L H fuel (S, p) (S', p')" and "running p'"
  shows "\<forall>b. next_message S \<le> b \<and> b < next_message S' \<and> connection (raw_messages S' b) = Some c \<longrightarrow>
    settled (raw_messages S' b) \<noteq> None \<or> settled_event (raw_messages S' b)"
proof -
  have "released c (next_message S) (fst (S, p))" by (auto simp: released_def)
  from loop_heads_released [OF assms(1,3) this] assms(2,4)
  show ?thesis by (simp add: released_def)
qed

section \<open>Direct access\<close>

text \<open>
  C21. Direct access hands out one message at a time. After \<open>get_one\<close> has returned a message
  to a subscriber with manual settlement, and as long as that message is not settled, no
  further \<open>get_one\<close> and no step of an iteration fetches anything: each raises and leaves
  subscriber, messages and connections as they are. FastStream's \<open>process_msg\<close> is only
  assumed to return a message made from the raw message it was given.
\<close>

theorem one_direct_message:
  assumes "\<And>a z m z'. base_process_msg H a z = (Returns m, z') \<Longrightarrow> raw_message m = a"
    and "get_one L H fuel t z = (Returns (Some m), (S, p))"
    and "sub_ack_policy p = MANUAL" and "settled (raw_messages S (raw_message m)) = None"
  shows "direct_message p = Some (raw_message m)
    \<and> (\<exists>e. get_one L H fuel' t' (S, p) = (Raises e, (S, p)))
    \<and> (running p \<longrightarrow> aiter_next L H fuel' (Suc n) (S, p) = (Raises (RuntimeError unsettled_direct_message), (S, p)))"
proof -
  obtain a z1 where d: "deliver_direct L H a z1 = (Returns m, (S, p))"
    using assms(2) by (auto simp: get_one_def run_simps split: option.splits)
  obtain z2 where m: "base_process_msg H a z1 = (Returns m, z2)"
      and p: "(S, p) = (fst z2, if sub_ack_policy (snd z2) = MANUAL then (snd z2)\<lparr>direct_message := Some a\<rparr> else snd z2)"
    using d by (auto simp: deliver_direct_def run_simps split: if_splits)
  have a: "raw_message m = a" by (rule assms(1) [OF m])
  have direct: "direct_message p = Some a" using p assms(3) by (auto split: if_splits)
  have "ensure_no_unsettled_direct_message (S, p) = (Raises (RuntimeError unsettled_direct_message), (S, p))"
    using assms(4) direct a
    by (simp add: ensure_no_unsettled_direct_message_def prog_simps)
  then show ?thesis
    using direct a by (simp add: get_one_def prog_simps)
qed

section \<open>A running subscriber\<close>

text \<open>Hooks that do what FastStream documents, around a given handler.\<close>

definition sample_hooks :: "(nat \<Rightarrow> handler_result sub_prog) \<Rightarrow> fsub" where
  "sample_hooks handler =
     \<lparr>base_start = ret (), base_post_start = local (\<lambda>p. p\<lparr>running := True\<rparr>),
      base_stop = local (\<lambda>p. p\<lparr>running := False\<rparr>), base_process_message = handler,
      base_process_msg = (\<lambda>a. outside (get_raw a (parse_message a))), app_exit = ret (),
      other_tasks = ret (), cancelled_tasks = ret (), settle_cancelled = (\<lambda>_. False)\<rparr>"

lemma sample_hooks_quiet:
  "quiet c (base_stop (sample_hooks h))" "quiet c (cancelled_tasks (sample_hooks h))"
  by (simp_all add: sample_hooks_def quiet_def prog_simps)

lemma sample_hooks_keep: "(\<And>a. keeping c (h a)) \<Longrightarrow> hooks_keep c (sample_hooks h)"
  by (simp add: hooks_keep_def sample_hooks_def keeping_rules keeping_local)

definition started_subscriber :: "(nat \<Rightarrow> handler_result sub_prog) \<Rightarrow> mqstate \<times> MQSubscriber" where
  "started_subscriber h = snd (start (sample_lib no_faults) (sample_hooks h) 1 (empty_state, sample_subscriber))"



text \<open>A subscriber whose loop is getting a message while it is stopped.\<close>

definition getting_hooks :: fsub where
  "getting_hooks = (sample_hooks (\<lambda>a. throw NackMessage))
     \<lparr>cancelled_tasks := interrupted_get (sample_lib no_faults) 0 2 (Fin 1 0) 64\<rparr>"

definition getting_state :: "mqstate \<times> MQSubscriber" where
  "getting_state = (empty_state\<lparr>connections := (\<lambda>_. fst sample_started), the_world := snd sample_started\<rparr>,
     sample_subscriber\<lparr>running := True, tasks := 1\<rparr>)"

theorem stop_drops_message_witness:
  "case stop (sample_lib no_faults) getting_hooks False getting_state of (r, S, p) \<Rightarrow>
     r = Returns () \<and> next_message S = 0
     \<and> (\<exists>u wi q cq b md h k. message_got (sample_lib no_faults) wi q cq b md u h
          \<and> history (the_world S) = h @ k \<and> map fst k = [CloseQueue cq, Disconnect q])"
proof -
  let ?L = "sample_lib no_faults"
  obtain S p where z: "getting_state = (S, p)" by (cases getting_state)
  then have S: "(connections S 0, the_world S) = sample_started" "next_message S = 0"
    and p: "consumer p = Some 0" "test_messages p = None" "tasks p = 1"
    by (auto simp: getting_state_def empty_state_def sample_subscriber_def)
  have "case get_message ?L 2 (Fin 1 0) 64 sample_started of (r, t) \<Rightarrow>
      prepared_tls (fst t) = None \<and> (case r of Returns (Some m) \<Rightarrow> True | _ \<Rightarrow> False)" by code_simp
  then obtain m s2 where got: "get_message ?L 2 (Fin 1 0) 64 sample_started = (Returns (Some m), s2)"
    and tls: "prepared_tls (fst s2) = None"
    by (auto split: prod.splits outcome.splits option.splits)
  have "fst (stop ?L getting_hooks False getting_state) = Returns ()" by code_simp
  then obtain S' p' where run: "stop ?L getting_hooks False (S, p) = (Returns (), (S', p'))"
    unfolding z by (cases "stop ?L getting_hooks False (S, p)") auto
  have "base_stop getting_hooks (S, p) = (Returns (), (S, p\<lparr>running := False\<rparr>))"
    by (simp add: getting_hooks_def sample_hooks_def prog_simps)
  moreover have "cancelled_tasks getting_hooks = interrupted_get ?L 0 2 (Fin 1 0) 64" by (simp add: getting_hooks_def)
  moreover have "consumer (p\<lparr>running := False\<rparr>) = Some 0" "test_messages (p\<lparr>running := False\<rparr>) = None" "tasks p \<noteq> 0"
    by (simp_all add: p)
  moreover have "conn_ok ?L (connections S 0, the_world S)" unfolding S(1) by (rule conn_ok_sample_started)
  moreover have "executor (connections S 0)" using S(1) by (auto simp: sample_started_def)
  ultimately have "\<exists>u wi q cq b md h. message_got ?L wi q cq b md u (history (snd s2))
      \<and> raw_messages S' = raw_messages S \<and> next_message S' = next_message S
      \<and> history (the_world S') = history (snd s2) @ h
      \<and> map fst h = [CloseQueue cq, Disconnect q] @ tls_release_calls (prepared_tls (fst s2))"
    by (rule stop_drops_message) (simp_all only: S(1) got run)
  then have "next_message S' = 0
     \<and> (\<exists>u wi q cq b md h k. message_got ?L wi q cq b md u h
          \<and> history (the_world S') = h @ k \<and> map fst k = [CloseQueue cq, Disconnect q])"
    unfolding tls tls_release_calls_def S(2) option.case append_Nil2 by (elim exE conjE) (intro conjI exI; assumption)
  then show ?thesis unfolding z run by auto
qed


theorem loop_one_open_message_witness:
  "case snd (consume_turn (sample_lib no_faults) (sample_hooks (\<lambda>a. throw NackMessage)) 2
       (started_subscriber (\<lambda>a. throw NackMessage))) of (S, p) \<Rightarrow>
     next_message S = 1 \<and> connection (raw_messages S 0) = Some 0
     \<and> \<not> (settled (raw_messages S 0) = None \<and> \<not> settled_event (raw_messages S 0))"
proof -
  let ?h = "\<lambda>a. throw NackMessage :: handler_result sub_prog"
  let ?z = "started_subscriber ?h"
  let ?turn = "consume_turn (sample_lib no_faults) (sample_hooks ?h) 2 ?z"
  obtain S p where z: "?z = (S, p)" by (cases ?z)
  have "sub_ack_policy (snd ?z) = MANUAL" "next_message (fst ?z) = 0" by code_simp+
  then have pre: "sub_ack_policy p = MANUAL" "next_message S = 0" by (simp_all add: z)
  have turn: "fst ?turn = Returns True" by code_simp
  have fetched: "case snd ?turn of (S, p) \<Rightarrow> next_message S = 1 \<and> connection (raw_messages S 0) = Some 0"
    by code_simp
  obtain S' p' where run: "?turn = (Returns True, (S', p'))" using turn by (cases ?turn) auto
  have heads: "loop_heads (sample_lib no_faults) (sample_hooks ?h) 2 (S, p) (S', p')"
    by (rule next_turn [OF first_turn run [unfolded z]])
  have "running (snd (snd ?turn))" by code_simp
  then have "running p'" by (simp add: run)
  moreover have "hooks_keep 0 (sample_hooks ?h)" by (rule sample_hooks_keep) (rule keeping_rules)
  moreover have "settles_processed 0 (sample_hooks ?h) (sub_ack_policy p)" using pre(1) by (simp add: settles_processed_def)
  ultimately show ?thesis
    using loop_one_open_message [OF _ _ heads] fetched pre(2) by (simp add: run)
qed

theorem one_direct_message_witness:
  "case get_one (sample_lib no_faults) (sample_hooks (\<lambda>a. throw NackMessage)) 2 (Fin 1 0)
      (fst (started_subscriber (\<lambda>a. throw NackMessage)), (snd (started_subscriber (\<lambda>a. throw NackMessage)))\<lparr>calls := []\<rparr>) of
     (r, z) \<Rightarrow> \<exists>e. get_one (sample_lib no_faults) (sample_hooks (\<lambda>a. throw NackMessage)) 2 (Fin 1 0) z = (Raises e, z)"
proof -
  let ?H = "sample_hooks (\<lambda>a. throw NackMessage)"
  let ?z = "(fst (started_subscriber (\<lambda>a. throw NackMessage)), (snd (started_subscriber (\<lambda>a. throw NackMessage)))\<lparr>calls := []\<rparr>)"
  let ?x = "get_one (sample_lib no_faults) ?H 2 (Fin 1 0) ?z"
  have made: "raw_message m = a" if "base_process_msg ?H a z = (Returns m, z')" for a z m z'
    using that by (auto simp: sample_hooks_def run_simps get_raw_apply parse_message_def)
  have "case ?x of (r, S, p) \<Rightarrow> (case r of Returns (Some m) \<Rightarrow>
      sub_ack_policy p = MANUAL \<and> settled (raw_messages S (raw_message m)) = None | _ \<Rightarrow> False)"
    by code_simp
  then obtain m S p where x: "?x = (Returns (Some m), (S, p))" "sub_ack_policy p = MANUAL"
      "settled (raw_messages S (raw_message m)) = None"
    by (cases ?x) (auto split: outcome.splits option.splits)
  from one_direct_message [OF made x] show ?thesis unfolding x(1) by simp
qed

unbundle bit_operations_syntax

section \<open>Replies\<close>

lemma publish_ends:
  assumes "publish L F cmd ser s = (Returns u, t)"
  shows "\<exists>s0. publish_once L F cmd ser s0 = (Returns u, t)"
proof -
  obtain r where "run_with_reconnect_sync L (publish_once L F cmd ser) r s = (Returns u, t)"
    using assms by (auto simp: publish_def started_def publish_sync_def run_simps)
  from run_with_reconnect_run [OF this] show ?thesis by blast
qed

lemma publish_calls_members:
  "\<exists>mh. Put n b m \<lparr>pmo_Options = if syncpoint cmd then new_pmo_Options L OR MQPMO_SYNCPOINT (CMQC L)
       else new_pmo_Options L, pmo_OriginalMsgHandle = mh\<rparr> \<in> set (publish_calls L F cmd q n b hs m)"
  "hd (publish_calls L F cmd q n b hs m) = OpenQueue q (destination cmd) (MQOO_OUTPUT (CMQC L))"
  "publish_calls L F cmd q n b hs m \<noteq> []"
  by (auto simp: publish_calls_def Let_def)

text \<open>
  C10. A reply belongs to the unit of work of its request. The reply to a message that came
  over a connection is put on that connection and no other: when the publication returns,
  the reply queue of the request was opened on the queue manager the connection holds, and
  the reply was put under syncpoint into it, so that one commit or backout decides over
  request and reply together; its correlation identifier is the native message identifier
  of the request.
\<close>

theorem reply_in_unit_of_work:
  assumes "connection raw = Some c"
    and "make_response_publisher p m raw = (OnConnection cp, fp)"
    and "patch_command F fp cmd = Inr reply"
    and "connection_publish L F cp reply S = (Returns (), S')"
  shows "(\<forall>j. j \<noteq> c \<longrightarrow> connections S' j = connections S j)
    \<and> (\<exists>q n b d mh. qmgr (connections S' c) = Some q
        \<and> history (the_world S') ! n = (OpenQueue q (m_reply_to m) (MQOO_OUTPUT (CMQC L)), True)
        \<and> (Put n b d \<lparr>pmo_Options = new_pmo_Options L OR MQPMO_SYNCPOINT (CMQC L), pmo_OriginalMsgHandle = mh\<rparr>, True)
            \<in> set (history (the_world S'))
        \<and> (case native_message_id raw of None \<Rightarrow> True | Some i \<Rightarrow> CorrelId d = PBytes i))"
proof -
  have cp: "cp_connection cp = c" and fp: "f_queue fp = m_reply_to m" "f_native_correlation_id fp = native_message_id raw"
    using assms(1,2) by (auto simp: make_response_publisher_def)
  have reply: "destination reply = m_reply_to m" "syncpoint reply" "native_correlation_id reply = native_message_id raw"
    using assms(3) fp by (auto simp: patch_command_def split: sum.splits)
  obtain t where run: "publish L F reply (cp_serializer cp) (connections S c, the_world S) = (Returns (), t)"
    and S': "S' = S\<lparr>connections := (connections S)(c := fst t), the_world := snd t\<rparr>"
    using assms(4) by (auto simp: connection_publish_def cp on_connection_run)
  obtain s0 where "publish_once L F reply (cp_serializer cp) s0 = (Returns (), t)"
    using publish_ends [OF run] by blast
  from publish_once_run [OF this] obtain q b ct d where q: "qmgr (fst s0) = Some q" and d: "publish_md L reply = Inr d"
    and t: "t = (fst s0, record_all (publish_calls L F reply q (length (history (snd s0))) b
        (headers_to_publish reply ct) d) (snd s0))" by blast
  let ?n = "length (history (snd s0))"
  let ?calls = "publish_calls L F reply q ?n b (headers_to_publish reply ct) d"
  have "history (snd t) ! ?n = (OpenQueue q (m_reply_to m) (MQOO_OUTPUT (CMQC L)), True)"
    using publish_calls_members(2,3) [of L F reply q ?n b "headers_to_publish reply ct" d] reply(1)
    by (simp add: t nth_append hd_conv_nth)
  moreover obtain mh where "(Put ?n b d \<lparr>pmo_Options = new_pmo_Options L OR MQPMO_SYNCPOINT (CMQC L), pmo_OriginalMsgHandle = mh\<rparr>, True)
      \<in> set (history (snd t))"
    using publish_calls_members(1) [of ?n b d reply L F q "headers_to_publish reply ct"] reply(2) by (auto simp: t)
  moreover have "case native_message_id raw of None \<Rightarrow> True | Some i \<Rightarrow> CorrelId d = PBytes i"
    using d reply(3) by (auto simp: publish_md_def Let_def split: option.splits sum.splits)
  ultimately have "\<exists>q n b d mh. qmgr (fst t) = Some q
      \<and> history (snd t) ! n = (OpenQueue q (m_reply_to m) (MQOO_OUTPUT (CMQC L)), True)
      \<and> (Put n b d \<lparr>pmo_Options = new_pmo_Options L OR MQPMO_SYNCPOINT (CMQC L), pmo_OriginalMsgHandle = mh\<rparr>, True)
          \<in> set (history (snd t))
      \<and> (case native_message_id raw of None \<Rightarrow> True | Some i \<Rightarrow> CorrelId d = PBytes i)"
    using q by (intro exI [of _ q] exI [of _ ?n] exI [of _ b] exI [of _ d] exI [of _ mh] conjI) (simp_all add: t)
  then show ?thesis by (simp add: S')
qed

definition sample_request_message :: MQRawMessage where
  "sample_request_message = sample_raw\<lparr>raw_reply_to := ''REPLIES'', connection := Some 0,
     native_message_id := Some (replicate 24 9)\<rparr>"

theorem reply_in_unit_of_work_witness:
  "case make_response_publisher sample_subscriber (parse_message 0 sample_request_message) sample_request_message of
     (OnConnection cp, fp) \<Rightarrow> (case patch_command sample_fslib fp (MQCommand sample_cmd) of
        Inr reply \<Rightarrow> (\<exists>S' q n b d mh.
          connection_publish (sample_lib no_faults) sample_fslib cp reply (fst (started_subscriber (\<lambda>a. throw NackMessage)))
            = (Returns (), S')
          \<and> (Put n b d \<lparr>pmo_Options = new_pmo_Options (sample_lib no_faults) OR MQPMO_SYNCPOINT (CMQC (sample_lib no_faults)),
               pmo_OriginalMsgHandle = mh\<rparr>, True) \<in> set (history (the_world S'))
          \<and> history (the_world S') ! n = (OpenQueue q ''REPLIES'' (MQOO_OUTPUT (CMQC (sample_lib no_faults))), True)
          \<and> CorrelId d = PBytes (replicate 24 9)) | _ \<Rightarrow> False) | _ \<Rightarrow> False"
proof -
  let ?raw = sample_request_message
  let ?m = "parse_message 0 ?raw"
  let ?S = "fst (started_subscriber (\<lambda>a. throw NackMessage))"
  obtain cp fp where r: "make_response_publisher sample_subscriber ?m ?raw = (OnConnection cp, fp)"
    by (simp add: make_response_publisher_def sample_request_message_def)
  obtain reply where c: "patch_command sample_fslib fp (MQCommand sample_cmd) = Inr reply"
    by (simp add: patch_command_def sample_fslib_def)
  have "case make_response_publisher sample_subscriber ?m ?raw of (OnConnection cp, fp) \<Rightarrow>
      (case patch_command sample_fslib fp (MQCommand sample_cmd) of Inr reply \<Rightarrow>
        is_returns (fst (connection_publish (sample_lib no_faults) sample_fslib cp reply ?S)) | _ \<Rightarrow> False) | _ \<Rightarrow> False"
    by code_simp
  then have "is_returns (fst (connection_publish (sample_lib no_faults) sample_fslib cp reply ?S))"
    by (simp add: r c)
  then obtain S' where run: "connection_publish (sample_lib no_faults) sample_fslib cp reply ?S = (Returns (), S')"
    using is_returns_pair by (metis (full_types) old.unit.exhaust)
  have "connection ?raw = Some 0" "native_message_id ?raw = Some (replicate 24 9)" "m_reply_to ?m = ''REPLIES''"
    by (simp_all add: sample_request_message_def parse_message_def)
  note at = this
  from reply_in_unit_of_work [OF at(1) r c run] obtain q n b d mh
    where "history (the_world S') ! n = (OpenQueue q (m_reply_to ?m) (MQOO_OUTPUT (CMQC (sample_lib no_faults))), True)"
      "(Put n b d \<lparr>pmo_Options = new_pmo_Options (sample_lib no_faults) OR MQPMO_SYNCPOINT (CMQC (sample_lib no_faults)),
         pmo_OriginalMsgHandle = mh\<rparr>, True) \<in> set (history (the_world S'))"
      "case native_message_id ?raw of None \<Rightarrow> True | Some i \<Rightarrow> CorrelId d = PBytes i" by blast
  note put = this [unfolded at option.case]
  have "\<exists>S' q n b d mh. connection_publish (sample_lib no_faults) sample_fslib cp reply ?S = (Returns (), S')
      \<and> (Put n b d \<lparr>pmo_Options = new_pmo_Options (sample_lib no_faults) OR MQPMO_SYNCPOINT (CMQC (sample_lib no_faults)),
           pmo_OriginalMsgHandle = mh\<rparr>, True) \<in> set (history (the_world S'))
      \<and> history (the_world S') ! n = (OpenQueue q ''REPLIES'' (MQOO_OUTPUT (CMQC (sample_lib no_faults))), True)
      \<and> CorrelId d = PBytes (replicate 24 9)"
    by (intro exI conjI, rule run, rule put(2), rule put(1), rule put(3))
  then show ?thesis unfolding r c prod.case sum.case reply_producer.case .
qed

end
