(* ===== verification/MQ_Broker_Props.thy ===== *)
theory MQ_Broker_Props
  imports MQ_Broker MQ_Subscriber_Props
begin

text \<open>
  Properties of the broker: what its arguments make it connect to, that its start-up ends,
  what a start-up leaves behind, and that publishers, subscribers and the broker agree on
  the queues they name.
\<close>

section \<open>The arguments of the broker\<close>

lemma connect_call_ccdt:
  "opt_truthy (ccdt_url cfg) \<Longrightarrow> \<exists>x. is_connect qm x \<and> connect_call L cfg qm o1 d sc s = call_unit L x s"
  unfolding connect_call_def by (simp only: if_True) (rule exI, rule conjI [OF _ refl], simp)

lemma connect_call_tcp:
  assumes "\<not> opt_truthy (ccdt_url cfg)" and "channel cfg \<noteq> None" and "conn_name cfg \<noteq> None"
  shows "(\<exists>x. is_connect qm x \<and> connect_call L cfg qm o1 d sc s = call_unit L x s)
    \<or> (\<exists>e. cd_reconnect_default L (reconnect_mode cfg) = Inl e \<and> connect_call L cfg qm o1 d sc s = (Raises e, s))"
proof (cases "cd_reconnect_default L (reconnect_mode cfg)")
  case (Inl e)
  then show ?thesis using assms by (simp add: connect_call_def seq_apply bind_apply assert_that_apply lift_sum_apply)
next
  case (Inr v)
  have "connect_call L cfg qm o1 d sc s = call_unit L (ConnectTcpClient qm (queue_manager cfg)
      (case v of None \<Rightarrow> d | Some v \<Rightarrow> d\<lparr>DefReconnect := Some v\<rparr>) (the (channel cfg)) (the (conn_name cfg))
      (username cfg) (password cfg) o1 sc) s"
    using assms Inr by (simp add: connect_call_def seq_apply bind_apply assert_that_apply lift_sum_apply)
  moreover have "is_connect qm (ConnectTcpClient qm (queue_manager cfg)
      (case v of None \<Rightarrow> d | Some v \<Rightarrow> d\<lparr>DefReconnect := Some v\<rparr>) (the (channel cfg)) (the (conn_name cfg))
      (username cfg) (password cfg) o1 sc)" by simp
  ultimately show ?thesis by blast
qed

lemma connect_call_no_target:
  "\<not> opt_truthy (ccdt_url cfg) \<Longrightarrow> conn_name cfg = None \<Longrightarrow>
     connect_call L cfg qm o1 d sc s = (Raises (AssertionError []), s)"
  by (cases "channel cfg") (simp_all add: connect_call_def seq_apply assert_that_apply)


section \<open>Starting the broker\<close>

lemma on_producer_apply [prog_simps]:
  "on_producer m z = (fst (m (fst z, broker_producer (snd z))),
     (fst (snd (m (fst z, broker_producer (snd z)))),
      (snd z)\<lparr>broker_producer := snd (snd (m (fst z, broker_producer (snd z))))\<rparr>))"
  by (simp add: on_producer_def split: prod.split)

lemma producer_connect_apply:
  assumes "connect L (AsyncMQConnection_init (next_connection S) cfg, the_world S) = (r, (c, w))"
  shows "producer_connect L cfg ser (S, p) =
     (r, (S\<lparr>connections := (connections S)(next_connection S := c),
            next_connection := next_connection S + 1, the_world := w\<rparr>,
          p\<lparr>producer_serializer := ser, producer_config := Some cfg,
            publish_connection := Some (next_connection S), request_connection := None\<rparr>))"
  using assms by (simp add: producer_connect_def prog_simps)

lemma fuel_free_broker [total_rules]:
  "fuel_free (broker_clock L)" "fuel_free (broker_sleep L t)" "fuel_free (broker_attempt L)"
proof -
  show "fuel_free (broker_clock L)" "fuel_free (broker_sleep L t)"
    unfolding broker_clock_def broker_sleep_def by (intro total_rules)+
  have p: "fuel_free m \<Longrightarrow> fuel_free (on_producer m)" for m :: "'a producer_prog"
    by (simp add: fuel_free_def prog_simps)
  show "fuel_free (broker_attempt L)"
    unfolding broker_attempt_def config_connect_def producer_connect_def
    by (intro total_rules p)
qed

lemma connect_grows:
  "\<exists>h. history (snd (snd (connect L s))) = history (snd s) @ h"
proof -
  have "adds (\<lambda>_. True) (history (snd s)) (snd (connect L s))"
    by (rule preservesD [OF op_stable_operations(1) [OF op_stable_adds] adds_start])
  then show ?thesis by (auto simp: adds_def)
qed

interpretation broker_startup: startup_retry "broker_attempt L" "broker_sleep L interval" "broker_clock L"
  "is_retryable_mq_exception L" limit "\<lambda>n. broker_attempts L n limit interval"
  "\<lambda>z. clock_readings (fst z)" for L interval limit
proof
  show "fuel_free (broker_attempt L)" "fuel_free (broker_sleep L interval)" "fuel_free (broker_clock L)"
    by (intro total_rules)+
  show "clock_readings (fst (snd (broker_clock L s))) = Suc (clock_readings (fst s))" for s
    by (simp add: broker_clock_def prog_simps clock_readings_def split: sum.split)
  show "clock_readings (fst s) \<le> clock_readings (fst (snd (broker_sleep L interval s)))" for s
    by (simp add: broker_sleep_def prog_simps clock_readings_def split: sum.split)
  show "clock_readings (fst s) \<le> clock_readings (fst (snd (broker_attempt L s)))" for s
  proof -
    obtain S b where s: "s = (S, b)" by (cases s)
    let ?cfg = "broker_connection_config (broker_config b)"
    obtain r c w where run: "connect L (AsyncMQConnection_init (next_connection S) ?cfg, the_world S) = (r, (c, w))"
      by (metis prod.exhaust)
    with connect_grows [of L "(AsyncMQConnection_init (next_connection S) ?cfg, the_world S)"]
    show ?thesis
      by (auto simp: s broker_attempt_def config_connect_def bind_apply get_local_apply on_producer_apply
          producer_connect_apply [OF run] clock_readings_def)
  qed
qed (simp_all only: broker_attempts.simps)

text \<open>
  C29. Starting the broker ends: once the clock has passed the deadline after some number of
  readings, \<open>_connect\<close> returns or raises, with a budget of one more attempt than there are
  readings up to that moment.
\<close>

theorem broker_startup_terminates:
  assumes "ans_clock L (the_world S) Monotonic = Inr now"
    and "\<And>w t. N \<le> calls_where (\<lambda>c. c = Monotonic) (history w) \<Longrightarrow>
           ans_clock L w Monotonic = Inr t \<Longrightarrow>
           now + startup_retry_timeout (broker_connection_config (broker_config b)) \<le> t"
    and "N < n"
  shows "fst (broker__connect L n (S, b)) \<noteq> NoFuel"
proof -
  let ?limit = "startup_retry_timeout (broker_connection_config (broker_config b))"
  have "broker_startup.passes L N (now + ?limit)"
    unfolding broker_startup.passes_def
    using assms(2) by (auto simp: broker_clock_def prog_simps clock_readings_def split: sum.splits)
  note ends = broker_startup.attempts_total [OF this, of _ n]
  show ?thesis
    using assms(1,3) ends
    by (simp add: broker__connect_def broker_clock_def prog_simps split: outcome.split)
qed

theorem broker_startup_terminates_witness:
  "case MQBroker_init broker_defaults of
     Inr b \<Rightarrow> fst (broker__connect (clocked (sample_lib unreachable)) 2 (empty_state, b)) \<noteq> NoFuel
   | Inl e \<Rightarrow> False"
proof -
  obtain b where b: "MQBroker_init broker_defaults = Inr b"
    and t: "startup_retry_timeout (broker_connection_config (broker_config b)) = Fin 60 0"
    by (simp add: MQBroker_init_def broker_defaults_def bind_sum_def parse_security_def
        validate_tls_configuration_def connection_target_def default_connection_config_def)
  have "fst (broker__connect (clocked (sample_lib unreachable)) 2 (empty_state, b)) \<noteq> NoFuel"
  proof (rule broker_startup_terminates [where N = 1 and now = "Fin 0 0"])
    show "ans_clock (clocked (sample_lib unreachable)) (the_world empty_state) Monotonic = Inr (Fin 0 0)"
      by code_simp
    fix w r
    assume "1 \<le> calls_where (\<lambda>c. c = Monotonic) (history w)"
      and "ans_clock (clocked (sample_lib unreachable)) w Monotonic = Inr r"
    then show "Fin 0 0 + startup_retry_timeout (broker_connection_config (broker_config b)) \<le> r"
      by (auto simp: clocked_def t round_53_exact align_def)
  qed simp
  then show ?thesis by (simp add: b)
qed

section \<open>What a start-up leaves behind\<close>

lemma connect_returns:
  assumes "conn_ok L (AsyncMQConnection_init i cfg, w)"
    and "connect L (AsyncMQConnection_init i cfg, w) = (Returns (), (c, w'))"
  shows "qmgr c \<noteq> None"
proof -
  let ?s = "((AsyncMQConnection_init i cfg)\<lparr>executor := True\<rparr>, w)"
  have run: "connect_sync L ?s = (Returns (), (c, w'))"
    using assms(2) by (simp add: connect_def prog_simps)
  have "idle L 0 ?s"
    using assms(1) by (simp add: idle_def conn_ok_defs AsyncMQConnection_init_def)
  from hoareD [OF hoare_connect_sync this run] show ?thesis
    by (auto simp: reconnected_def)
qed

text \<open>The connections made from address \<open>n\<close> on hold a thread and no queue manager.\<close>

definition abandoned :: "nat \<Rightarrow> nat \<Rightarrow> mqstate \<Rightarrow> bool" where
  "abandoned n k S \<longleftrightarrow> n \<le> k \<and> (\<forall>i. n \<le> i \<and> i < k \<longrightarrow>
     executor (connections S i) \<and> qmgr (connections S i) = None)"

definition between_attempts :: "mqlib \<Rightarrow> nat \<Rightarrow> mqstate \<times> MQBroker \<Rightarrow> bool" where
  "between_attempts L n z \<longleftrightarrow> producer_ok L (fst z, broker_producer (snd z))
     \<and> abandoned n (next_connection (fst z)) (fst z)"

definition broker_connected :: "mqlib \<Rightarrow> nat \<Rightarrow> mqstate \<times> MQBroker \<Rightarrow> bool" where
  "broker_connected L n z \<longleftrightarrow> producer_ok L (fst z, broker_producer (snd z))
     \<and> (\<exists>c. publish_connection (broker_producer (snd z)) = Some c \<and> next_connection (fst z) = Suc c
          \<and> abandoned n c (fst z) \<and> qmgr (connections (fst z) c) \<noteq> None)"

lemma hoare_broker_attempt:
  "hoare (between_attempts L n) (broker_attempt L)
     (\<lambda>r z. case r of Returns _ \<Rightarrow> broker_connected L n z | Raises e \<Rightarrow> between_attempts L n z | NoFuel \<Rightarrow> False)"
proof (rule hoareI)
  fix z assume z: "between_attempts L n z"
  obtain S b where Sb: "z = (S, b)" by (cases z)
  let ?cfg = "broker_connection_config (broker_config b)"
  let ?ser = "fd_serializer (broker_config b)"
  let ?i = "next_connection S"
  obtain r c w where run: "connect L (AsyncMQConnection_init ?i ?cfg, the_world S) = (r, (c, w))"
    by (metis prod.exhaust)
  have ok: "conn_ok L (AsyncMQConnection_init ?i ?cfg, the_world S)"
    using z by (auto simp: Sb between_attempts_def producer_ok_def store_ok_def conn_ok_defs AsyncMQConnection_init_def)
  note step = producer_connect_apply [OF run, of ?ser "broker_producer b"]
  have "producer_ok L (snd (producer_connect L ?cfg ?ser (S, broker_producer b)))"
    using z by (intro preservesD [OF pres_producer_connect]) (simp add: Sb between_attempts_def)
  moreover have "broker_attempt L z = (fst (producer_connect L ?cfg ?ser (S, broker_producer b)),
      (fst (snd (producer_connect L ?cfg ?ser (S, broker_producer b))),
       b\<lparr>broker_producer := snd (snd (producer_connect L ?cfg ?ser (S, broker_producer b)))\<rparr>))"
    by (simp add: Sb broker_attempt_def config_connect_def prog_simps)
  moreover have "r \<noteq> NoFuel"
    using fuel_freeD [OF fuel_free_link(1), of L "(AsyncMQConnection_init ?i ?cfg, the_world S)"] run by simp
  ultimately show "case fst (broker_attempt L z) of Returns _ \<Rightarrow> broker_connected L n (snd (broker_attempt L z))
      | Raises e \<Rightarrow> between_attempts L n (snd (broker_attempt L z)) | NoFuel \<Rightarrow> False"
    using z connect_returns [OF ok] connect_raises [OF ok] run
    by (cases r) (auto simp: Sb step between_attempts_def broker_connected_def abandoned_def less_Suc_eq)
qed



section \<open>Who names which queue\<close>

lemma fastapi_router_makes:
  "fastapi_MQRouter f kw = f ((kw broker_defaults)\<lparr>ba_serializer := None\<rparr>)"
proof -
  have "fastapi_broker_defaults = broker_defaults"
    by (simp add: fastapi_broker_defaults_def broker_defaults_def)
  moreover have "broker_defaults
        \<lparr>ba_queue_manager := ba_queue_manager a, ba_channel := ba_channel a, ba_conn_name := ba_conn_name a,
         ba_host := ba_host a, ba_port := ba_port a, ba_ccdt_url := ba_ccdt_url a,
         ba_reconnect := ba_reconnect a, ba_username := ba_username a, ba_password := ba_password a,
         ba_tls := ba_tls a, ba_reply_model_queue := ba_reply_model_queue a,
         ba_wait_interval := ba_wait_interval a, ba_security := ba_security a,
         ba_specification_url := ba_specification_url a, ba_protocol := ba_protocol a\<rparr>
      = a\<lparr>ba_serializer := None\<rparr>" for a :: broker_args
    by (simp add: broker_defaults_def)
  ultimately show ?thesis by (simp add: fastapi_MQRouter_def Let_def)
qed


end
