(* ===== verification/MQ_Testing_Props.thy ===== *)
theory MQ_Testing_Props
  imports MQ_Testing MQ_Broker_Props
begin

text \<open>
  Properties of the test broker: who receives a message, how requests are answered, and how
  a test message compares with the one a queue manager would deliver.
\<close>

section \<open>Delivery\<close>

lemma on_subscriber_apply [prog_simps]:
  "on_subscriber i m z = (fst (m (fst z, snd z ! i)),
     (fst (snd (m (fst z, snd z ! i))), (snd z)[i := snd (snd (m (fst z, snd z ! i)))]))"
  by (simp add: on_subscriber_def split: prod.split)

text \<open>A message in the buffer of a subscriber of its queue.\<close>

definition buffered :: "string \<Rightarrow> nat \<Rightarrow> MQSubscriber \<Rightarrow> MQSubscriber" where
  "buffered q a p = (if sub_routing p = q
     then p\<lparr>test_messages := map_option (\<lambda>tm. tm @ [a]) (test_messages p)\<rparr> else p)"

definition buffering :: "MQSubscriber \<Rightarrow> bool" where
  "buffering p \<longleftrightarrow> calls p = [] \<and> test_messages p \<noteq> None"

lemma buffered_routing [simp]:
  "sub_routing (buffered q a p) = sub_routing p" "buffering (buffered q a p) = buffering p"
  by (simp_all add: buffered_def sub_routing_def buffering_def)

lemma deliver_buffers:
  assumes "list_all buffering ps"
  shows "deliver F ids ser H q a [k..<length ps] called (S, ps) =
    (Returns (called \<or> list_ex (\<lambda>p. sub_routing p = q) (drop k ps)),
     (S, take k ps @ map (buffered q a) (drop k ps)))"
  using assms
proof (induction "length ps - k" arbitrary: k ps called)
  case 0
  then show ?case by (simp add: prog_simps)
next
  case (Suc n)
  then have k: "k < length ps" by simp
  let ?p = "ps ! k"
  have b: "buffering ?p" using Suc.prems k by (simp add: list_all_length)
  have drop: "drop k ps = ?p # drop (Suc k) ps" using k by (rule Cons_nth_drop_Suc [symmetric])
  have upt: "[k..<length ps] = k # [Suc k..<length ps]" using k by (rule upt_conv_Cons)
  let ?qs = "ps[k := buffered q a ?p]"
  have all: "list_all buffering ?qs" using Suc.prems b k by (simp add: list_all_length nth_list_update)
  have IH: "deliver F ids ser H q a [Suc k..<length ?qs] c (S, ?qs) =
    (Returns (c \<or> list_ex (\<lambda>p. sub_routing p = q) (drop (Suc k) ps)),
     (S, take k ps @ map (buffered q a) (drop k ps)))" for c
    using Suc.hyps(1) [of ?qs "Suc k" c] Suc.hyps(2) all k
    by (simp add: drop take_Suc_conv_app_nth)
  show ?case
  proof (cases "sub_routing ?p = q")
    case True
    then obtain tm where tm: "test_messages ?p = Some tm" and c: "calls ?p = []" using b by (auto simp: buffering_def)
    have "buffered q a ?p = ?p\<lparr>test_messages := Some (tm @ [a])\<rparr>" using True tm by (simp add: buffered_def)
    then show ?thesis
      using IH [of True] True tm c
      by (simp add: upt drop prog_simps put_test_message_def)
  next
    case False
    then have "?qs = ps" by (simp add: buffered_def)
    then show ?thesis using IH [of called] False by (simp add: upt drop prog_simps)
  qed
qed

text \<open>
  C34. A message published to a test broker reaches every subscriber of its queue. With
  subscribers that are read directly, publishing a command either raises what building its
  message raises and changes nothing, or makes one message and appends it to the buffer of
  each subscriber whose queue, prefix included, is the destination, and to no other; it
  raises \<open>SubscriberNotFound\<close> exactly when there is no such subscriber.
\<close>

theorem fake_publish_delivers:
  assumes "list_all buffering ps"
  shows "fake_publish F ids ser H cmd (S, ps) =
    (case message_of_command F (ids (next_message S)) ser cmd of
       Inl e \<Rightarrow> (Raises e, (S, ps))
     | Inr m \<Rightarrow>
        (if list_ex (\<lambda>p. sub_routing p = destination cmd) ps then Returns () else Raises SubscriberNotFound,
         (snd (new_message m S), map (buffered (destination cmd) (next_message S)) ps)))"
proof (cases "message_of_command F (ids (next_message S)) ser cmd")
  case (Inl e)
  then show ?thesis by (simp add: fake_publish_def incoming_def prog_simps)
next
  case (Inr m)
  let ?S = "snd (new_message m S)"
  have "deliver F ids ser H (destination cmd) (next_message S) [0..<length ps] False (?S, ps) =
    (Returns (list_ex (\<lambda>p. sub_routing p = destination cmd) ps),
     (?S, map (buffered (destination cmd) (next_message S)) ps))"
    using deliver_buffers [OF assms, of F ids ser H "destination cmd" "next_message S" 0 False ?S] by simp
  then show ?thesis
    using Inr by (simp add: fake_publish_def incoming_def bind_apply gets_apply lift_sum_apply outside_apply
        new_message_apply ret_apply throw_apply)
qed

definition sample_test_subscriber :: MQSubscriber where
  "sample_test_subscriber =
     (registrator_subscriber (sample_broker_config\<lparr>is_test_producer := True\<rparr>)
        (registrator_subscriber_defaults (QueueStr ''ORDERS.OUT'')))\<lparr>test_messages := Some []\<rparr>"

theorem fake_publish_delivers_witness:
  "fst (fake_publish sample_fslib (\<lambda>n k. replicate k 5) None (\<lambda>i. sample_hooks (\<lambda>a. throw NackMessage)) sample_cmd
     (empty_state, [sample_test_subscriber])) = Returns ()"
proof -
  have "list_all buffering [sample_test_subscriber]"
    by (simp add: buffering_def sample_test_subscriber_def registrator_subscriber_def create_subscriber_def)
  moreover have "sub_routing sample_test_subscriber = destination sample_cmd"
    by code_simp
  moreover have "\<exists>m. message_of_command sample_fslib ((\<lambda>n k. replicate k 5) (next_message empty_state)) None sample_cmd = Inr m"
    by (simp add: message_of_command_def build_message_def sample_cmd_def sample_fslib_def bind_sum_def Let_def
        normalize_mq_id_def headers_or_empty_def)
  ultimately show ?thesis
    using fake_publish_delivers [of "[sample_test_subscriber]" sample_fslib "\<lambda>n k. replicate k 5" None
        "\<lambda>i. sample_hooks (\<lambda>a. throw NackMessage)" sample_cmd empty_state]
    by auto
qed

section \<open>Requests\<close>

lemma on_subscriber_run [run_simps]:
  "on_subscriber i m z = (Returns x, z') \<longleftrightarrow>
     (\<exists>y. m (fst z, snd z ! i) = (Returns x, y) \<and> z' = (fst y, (snd z)[i := snd y]))"
  by (cases "m (fst z, snd z ! i)") (auto simp: on_subscriber_apply)

lemma build_message_ok:
  assumes "length (new_id MQ_ID_BYTES_LENGTH) = MQ_ID_BYTES_LENGTH"
    and "build_message F new_id q message hs cid reply mid ser = Inr m"
  shows "raw_message_id m \<noteq> None" "normal_id (raw_message_id m)" "normal_id (raw_correlation_id m)"
    "raw_queue m = q" "normalize_mq_id cid ''correlation_id'' = Inr (raw_correlation_id m)"
proof -
  have "mq_id_bytes (new_id MQ_ID_BYTES_LENGTH)" using assms(1) by (simp add: mq_id_bytes_def)
  then have "normal_id (Some (generate_mq_id new_id))"
    by (auto simp: normal_id_def generate_mq_id_def)
  moreover obtain ncid nmid where ids: "normalize_mq_id cid ''correlation_id'' = Inr ncid" "normalize_mq_id mid ''message_id'' = Inr nmid"
    and m: "raw_correlation_id m = ncid" "raw_queue m = q"
      "raw_message_id m = (case nmid of None \<Rightarrow> Some (generate_mq_id new_id) | Some i \<Rightarrow> Some i)"
    using assms(2) by (auto simp: build_message_def bind_sum_def Let_def routing_def split: sum.splits)
  moreover have "normal_id ncid" "normal_id nmid" using ids by (auto intro: normalize_normal_id)
  ultimately show "raw_message_id m \<noteq> None" "normal_id (raw_message_id m)" "normal_id (raw_correlation_id m)"
      "raw_queue m = q" "normalize_mq_id cid ''correlation_id'' = Inr (raw_correlation_id m)"
    by (auto split: option.splits)
qed

lemma first_handler_Some:
  "first_handler q ps k = Some i \<Longrightarrow> k \<le> i \<and> i - k < length ps \<and> sub_routing (ps ! (i - k)) = q
     \<and> (\<forall>j < i - k. sub_routing (ps ! j) \<noteq> q)"
proof (induction ps arbitrary: k)
  case (Cons p ps)
  show ?case
  proof (cases "sub_routing p = q")
    case False
    then have "first_handler q ps (Suc k) = Some i" using Cons.prems by simp
    with Cons.IH have *: "Suc k \<le> i" "i - Suc k < length ps" "sub_routing (ps ! (i - Suc k)) = q"
      "\<forall>j < i - Suc k. sub_routing (ps ! j) \<noteq> q" by blast+
    then have "i - k = Suc (i - Suc k)" by simp
    with * False show ?thesis by (auto simp: less_Suc_eq_0_disj)
  qed (use Cons.prems in auto)
qed simp



section \<open>Test messages and delivered messages\<close>

text \<open>
  A queue manager delivers a descriptor when the receiver finds the identifiers and the
  reply queue as the sender set them, and the other fields in a readable form; a blank
  descriptor names no reply queue and no correlation.
\<close>

definition delivers_descriptor :: "mqlib \<Rightarrow> md \<Rightarrow> md \<Rightarrow> bool" where
  "delivers_descriptor L m d \<longleftrightarrow> MsgId d = MsgId m \<and> CorrelId d = CorrelId m \<and> ReplyToQ d = ReplyToQ m
     \<and> (\<exists>r. mq_str (ReplyToQMgr d) = Inr r) \<and> (\<exists>p. decode_persistence L (Persistence d) = Inr p)"

definition blank_descriptor :: "mqlib \<Rightarrow> bool" where
  "blank_descriptor L \<longleftrightarrow> mq_str (ReplyToQ (new_md L)) = Inr []
     \<and> try_parse_mq_id (opt_pybytes (to_bytes (CorrelId (new_md L)))) = None"

definition nonzero_id :: "string option \<Rightarrow> bool" where
  "nonzero_id v \<longleftrightarrow> v \<noteq> Some (to_hex (replicate MQ_ID_BYTES_LENGTH 0))"

lemma wire_id:
  assumes "normal_id (Some h)" and "nonzero_id (Some h)"
  shows "\<exists>bs. mq_id_to_bytes (Some h) f = Inr (Some bs) \<and> try_parse_mq_id (PBytes bs) = Some h"
proof -
  obtain bs where bs: "mq_id_bytes bs" "h = to_hex bs" using assms(1) by (auto simp: normal_id_def)
  have "list_ex (\<lambda>b. b \<noteq> 0) bs"
  proof (rule ccontr)
    assume "\<not> list_ex (\<lambda>b. b \<noteq> 0) bs"
    then have "bs = replicate (length bs) 0" by (auto simp: list_ex_iff intro: replicate_eqI)
    then show False using assms(2) bs by (simp add: nonzero_id_def mq_id_bytes_def)
  qed
  with bs show ?thesis by (auto simp: try_parse_bytes)
qed

lemma publish_md_fields:
  assumes "publish_md L cmd = Inr m" and "native_correlation_id cmd = None"
    and "message_id cmd = Some i" and "mq_id_to_bytes (Some i) ''message_id'' = Inr (Some bs)"
  shows "MsgId m = PBytes bs"
    "ReplyToQ m = (if reply_to cmd = [] then ReplyToQ (new_md L) else PStr (reply_to cmd))"
    "case correlation_id cmd of None \<Rightarrow> CorrelId m = CorrelId (new_md L)
     | Some c \<Rightarrow> mq_id_to_bytes (Some c) ''correlation_id'' \<noteq> Inr None \<longrightarrow>
         (\<exists>cs. mq_id_to_bytes (Some c) ''correlation_id'' = Inr (Some cs) \<and> CorrelId m = PBytes cs)"
  using assms
  by (auto simp: publish_md_def md_options_def md_correlation_def opt_pybytes_def Let_def
      split: option.splits sum.splits if_splits)

lemma dict_get_setdefault:
  "dict_get (dict_setdefault k v d) j = (if j = k then (case map_of d k of None \<Rightarrow> v | Some w \<Rightarrow> w) else dict_get d j)"
  by (auto simp: dict_get_def map_of_setdefault split: option.split)

lemma dict_get_delete: "dict_get (AList.delete k d) j = (if j = k then PNone else dict_get d j)"
  by (simp add: dict_get_def delete_conv')

lemma dict_get_headers:
  assumes "ct \<noteq> Some []"
  shows "dict_get (headers_to_publish cmd ct) ''content-type'' =
      (case map_of (headers_of cmd) ''content-type'' of Some v \<Rightarrow> v
       | None \<Rightarrow> case ct of None \<Rightarrow> PNone | Some t \<Rightarrow> PStr t)"
    and "k \<noteq> ''message_type'' \<Longrightarrow> k \<noteq> ''content-type'' \<Longrightarrow>
      dict_get (headers_to_publish cmd ct) k = dict_get (headers_of cmd) k"
  using assms
  by (auto simp: headers_to_publish_def Let_def dict_get_setdefault dict_get_def map_of_setdefault
      split: option.split)

text \<open>What the adapter makes of the delivery of a command with a message identifier.\<close>

lemma delivered_message:
  assumes "ct \<noteq> Some []" and "command_ok cmd" and "message_id cmd = Some i"
    and "nonzero_id (message_id cmd)" and "nonzero_id (correlation_id cmd)" and "native_correlation_id cmd = None"
    and "stripped (reply_to cmd)"
    and "dict_get (headers_of cmd) ''message_id'' = PNone" and "dict_get (headers_of cmd) ''correlation_id'' = PNone"
    and "blank_descriptor L" and "publish_md L cmd = Inr m" and "delivers_descriptor L m d"
  shows "\<exists>w. build_raw_message L b d (headers_to_publish cmd ct) q conn = Inr w
    \<and> raw_body w = b \<and> raw_queue w = q \<and> raw_message_id w = Some i \<and> raw_correlation_id w = correlation_id cmd
    \<and> raw_reply_to w = reply_to cmd
    \<and> raw_headers w = AList.delete ''correlation_id'' (AList.delete ''message_id'' (headers_to_publish cmd ct))
    \<and> raw_content_type w = dict_get (headers_to_publish cmd ct) ''content-type''"
proof -
  obtain bs where bs: "mq_id_to_bytes (Some i) ''message_id'' = Inr (Some bs)" "try_parse_mq_id (PBytes bs) = Some i"
    using wire_id [of i] assms(2-4) by (auto simp: command_ok_def)
  note md = publish_md_fields [OF assms(11,6,3) bs(1)]
  have corr: "try_parse_mq_id (opt_pybytes (to_bytes (CorrelId d))) = correlation_id cmd"
  proof (cases "correlation_id cmd")
    case None
    then show ?thesis using md(3) assms(10,12) by (simp add: blank_descriptor_def delivers_descriptor_def)
  next
    case (Some c)
    obtain cs where "mq_id_to_bytes (Some c) ''correlation_id'' = Inr (Some cs)" "try_parse_mq_id (PBytes cs) = Some c"
      using wire_id [of c] assms(2,5) Some by (auto simp: command_ok_def)
    then show ?thesis using md(3) assms(12) Some
      by (auto simp: delivers_descriptor_def to_bytes_def opt_pybytes_def)
  qed
  have msg: "try_parse_mq_id (opt_pybytes (to_bytes (MsgId d))) = Some i"
    using md(1) bs(2) assms(12) by (simp add: delivers_descriptor_def to_bytes_def opt_pybytes_def)
  have reply: "mq_str (ReplyToQ d) = Inr (reply_to cmd)"
    using md(2) assms(7,10,12)
    by (cases "reply_to cmd = []") (simp_all add: delivers_descriptor_def blank_descriptor_def mq_str_def)
  have "dict_get (headers_to_publish cmd ct) ''correlation_id'' = PNone"
    "dict_get (headers_to_publish cmd ct) ''message_id'' = PNone"
    using dict_get_headers(2) [OF assms(1)] assms(8,9) by simp_all
  then have none: "try_parse_mq_id (dict_get (headers_to_publish cmd ct) ''message_id'') = None"
      "try_parse_mq_id (dict_get (AList.delete ''message_id'' (headers_to_publish cmd ct)) ''correlation_id'') = None"
    by (simp_all add: try_parse_mq_id_def dict_get_delete)
  show ?thesis
    using assms(12) corr msg reply none
    by (cases "correlation_id cmd")
       (auto simp: build_raw_message_def Let_def delivers_descriptor_def or_else_def dict_get_delete)
qed


definition identified_cmd :: mq_publish_command where
  "identified_cmd = sample_cmd\<lparr>message_id := Some (to_hex (replicate 24 1)), reply_to := ''ORDERS.REPLY''\<rparr>"

lemma identified_cmd_facts:
  "encode_message sample_fslib (body identified_cmd) None = Inr ([104, 105], Some ''text/plain'')"
  "command_ok identified_cmd" "message_id identified_cmd = Some (to_hex (replicate 24 1))"
  "nonzero_id (message_id identified_cmd)" "nonzero_id (correlation_id identified_cmd)"
  "native_correlation_id identified_cmd = None" "stripped (reply_to identified_cmd)" "dict_ok (headers_of identified_cmd)"
  "dict_get (headers_of identified_cmd) ''message_id'' = PNone"
  "dict_get (headers_of identified_cmd) ''correlation_id'' = PNone" "blank_descriptor (sample_lib no_faults)"
proof -
  show "command_ok identified_cmd"
    by (auto simp: command_ok_def identified_cmd_def sample_cmd_def normal_id_def mq_id_bytes_def
        MQ_ID_BYTES_LENGTH_def intro!: exI [of _ "replicate 24 1"])
  show "message_id identified_cmd = Some (to_hex (replicate 24 1))" by (simp add: identified_cmd_def)
qed code_simp+

lemma identified_delivery:
  obtains m where "publish_md (sample_lib no_faults) identified_cmd = Inr m" "delivers_descriptor (sample_lib no_faults) m m"
proof -
  have "case publish_md (sample_lib no_faults) identified_cmd of
      Inr m \<Rightarrow> mq_str (ReplyToQMgr m) = Inr [] \<and> decode_persistence (sample_lib no_faults) (Persistence m) = Inr (Some True)
    | Inl _ \<Rightarrow> False" by code_simp
  then show ?thesis
    using that by (cases "publish_md (sample_lib no_faults) identified_cmd") (auto simp: delivers_descriptor_def)
qed


section \<open>Subscribers for publishers\<close>

lemma first_handler_None: "first_handler q ps k = None \<longleftrightarrow> (\<forall>p \<in> set ps. sub_routing p \<noteq> q)"
  by (induction ps arbitrary: k) auto

text \<open>
  The test broker gives every publisher a reader. The subscriber it pairs with a
  publisher is a registered one whenever one reads the publisher's queue, and the first of
  those; otherwise it is a new one that is declared on the broker with the publisher's
  routing, router prefixes included, and so reads exactly that queue under the broker's
  own prefix, which is empty: \<open>MQBroker\<close> takes none.
\<close>

theorem publisher_gets_reader:
  "let q = publisher_routing pre publisher None;
       (sub, is_real) = create_publisher_fake_subscriber cfg ps pre publisher
   in is_real = (\<exists>p \<in> set ps. sub_routing p = q)
      \<and> (if is_real then find (\<lambda>p. sub_routing p = q) ps = Some sub else sub_routing sub = broker_prefix cfg @ q)"
proof (cases "first_handler (publisher_routing pre publisher None) ps 0")
  case None
  moreover have "sub_routing (registrator_subscriber cfg (registrator_subscriber_defaults (QueueStr q))) = broker_prefix cfg @ q" for q
    by (simp add: sub_routing_def registrator_subscriber_def create_subscriber_def registrator_subscriber_defaults_def routing_def)
  ultimately show ?thesis
    using first_handler_None [THEN iffD1, OF None] by (simp add: create_publisher_fake_subscriber_def Let_def)
next
  case (Some i)
  with first_handler_Some [OF Some] show ?thesis
    by (auto simp: create_publisher_fake_subscriber_def find_Some_iff Let_def intro!: bexI [of _ "ps ! i"])
qed

end
