(* ===== verification/MQ_Observability.thy ===== *)
theory MQ_Observability
  imports MQ_Testing_Props
begin

text \<open>
  What the adapter tells observers: the attributes of \<open>opentelemetry/provider.py\<close> and
  \<open>prometheus/provider.py\<close>, the log column of \<open>broker/logging.py\<close>, and the channels of
  \<open>subscriber/specification.py\<close> and \<open>publisher/specification.py\<close>. The middlewares
  (\<open>opentelemetry/middleware.py\<close>, \<open>prometheus/middleware.py\<close>) are what they hand to their
  FastStream base classes; those, the logger and the renderer of the schema belong to FastStream.
\<close>

section \<open>Telemetry\<close>

text \<open>
  The name of the attribute FastStream itself defines is an argument \<open>K\<close>; a dict literal
  sets its keys in order.
\<close>

definition messaging_system :: string where
  "messaging_system = ''ibm_mq''"

definition opt_str :: "string option \<Rightarrow> pyval" where
  "opt_str v = (case v of None \<Rightarrow> PNone | Some s \<Rightarrow> PStr s)"

definition telemetry_consume_attrs :: "string \<Rightarrow> MQMessage \<Rightarrow> MQRawMessage \<Rightarrow> headers" where
  "telemetry_consume_attrs K msg raw =
     (let conversation_id = or_opt_str (m_correlation_id msg) (m_message_id msg)
      in dict_union []
        [(''messaging.system'', PStr messaging_system),
         (''messaging.destination.name'', PStr (raw_queue raw)),
         (K, PStr (raw_queue raw)),
         (''messaging.message.id'', opt_str (m_message_id msg)),
         (''messaging.message.conversation_id'', opt_str conversation_id),
         (''messaging.message.payload_size_bytes'', PInt (int (length (m_body msg))))])"

definition telemetry_consume_destination :: "MQRawMessage \<Rightarrow> string" where
  "telemetry_consume_destination raw = raw_queue raw"

definition telemetry_publish_attrs :: "mq_publish_command \<Rightarrow> headers" where
  "telemetry_publish_attrs cmd =
     (let conversation_id = or_opt_str (correlation_id cmd) (message_id cmd);
          attrs = dict_union []
            [(''messaging.system'', PStr messaging_system),
             (''messaging.destination.name'', PStr (destination cmd))]
      in case conversation_id of
           None \<Rightarrow> attrs
         | Some c \<Rightarrow> AList.update ''messaging.message.conversation_id'' (PStr c) attrs)"

definition telemetry_publish_destination :: "mq_publish_command \<Rightarrow> string" where
  "telemetry_publish_destination cmd = destination cmd"

section \<open>Metrics\<close>

record consume_attrs =
  destination_name :: string
  message_size :: nat
  messages_count :: nat

definition metrics_consume_attrs :: "MQMessage \<Rightarrow> MQRawMessage \<Rightarrow> consume_attrs" where
  "metrics_consume_attrs msg raw =
     \<lparr>destination_name = raw_queue raw, message_size = length (m_body msg), messages_count = 1\<rparr>"

definition metrics_publish_destination :: "mq_publish_command \<Rightarrow> string" where
  "metrics_publish_destination cmd = destination cmd"

section \<open>Middlewares\<close>

text \<open>
  The methods FastStream calls on a settings provider, and what the two middlewares hand to
  the constructors of their FastStream base classes. The objects of the application (tracer
  and meter providers, the meter, the registry, labels) are opaque; the name \<open>EMPTY\<close> of
  FastStream is the absent one. The factory ignores the broker it is given.
\<close>

record telemetry_provider =
  tp_messaging_system :: string
  tp_consume_attrs :: "string \<Rightarrow> MQMessage \<Rightarrow> MQRawMessage \<Rightarrow> headers"
  tp_consume_destination :: "MQRawMessage \<Rightarrow> string"
  tp_publish_attrs :: "mq_publish_command \<Rightarrow> headers"
  tp_publish_destination :: "mq_publish_command \<Rightarrow> string"

definition MQTelemetrySettingsProvider :: telemetry_provider where
  "MQTelemetrySettingsProvider =
     \<lparr>tp_messaging_system = messaging_system, tp_consume_attrs = telemetry_consume_attrs,
      tp_consume_destination = telemetry_consume_destination, tp_publish_attrs = telemetry_publish_attrs,
      tp_publish_destination = telemetry_publish_destination\<rparr>"

record metrics_provider =
  mp_messaging_system :: string
  mp_consume_attrs :: "MQMessage \<Rightarrow> MQRawMessage \<Rightarrow> consume_attrs"
  mp_publish_destination :: "mq_publish_command \<Rightarrow> string"

definition MQMetricsSettingsProvider :: metrics_provider where
  "MQMetricsSettingsProvider =
     \<lparr>mp_messaging_system = messaging_system, mp_consume_attrs = metrics_consume_attrs,
      mp_publish_destination = metrics_publish_destination\<rparr>"

record ('b, 'o) telemetry_middleware =
  settings_provider_factory :: "'b \<Rightarrow> telemetry_provider"
  tracer_provider :: "'o option"
  meter_provider :: "'o option"
  meter :: "'o option"
  include_messages_counters :: bool

definition MQTelemetryMiddleware ::
  "'o option \<Rightarrow> 'o option \<Rightarrow> 'o option \<Rightarrow> bool option \<Rightarrow> ('b, 'o) telemetry_middleware" where
  "MQTelemetryMiddleware tracers meters m counters =
     \<lparr>settings_provider_factory = (\<lambda>_. MQTelemetrySettingsProvider), tracer_provider = tracers,
      meter_provider = meters, meter = m,
      include_messages_counters = (case counters of None \<Rightarrow> False | Some c \<Rightarrow> c)\<rparr>"

record ('b, 'o) prometheus_middleware =
  metrics_provider_factory :: "'b \<Rightarrow> metrics_provider"
  registry :: 'o
  app_name :: "string option"
  metrics_prefix :: string
  received_messages_size_buckets :: "pyfloat list option"
  custom_labels :: "(string \<times> 'o) list option"

definition MQPrometheusMiddleware ::
  "'o \<Rightarrow> string option \<Rightarrow> string option \<Rightarrow> pyfloat list option \<Rightarrow> (string \<times> 'o) list option \<Rightarrow>
   ('b, 'o) prometheus_middleware" where
  "MQPrometheusMiddleware reg app pre buckets labels =
     \<lparr>metrics_provider_factory = (\<lambda>_. MQMetricsSettingsProvider), registry = reg, app_name = app,
      metrics_prefix = (case pre of None \<Rightarrow> ''faststream'' | Some p \<Rightarrow> p),
      received_messages_size_buckets = buckets, custom_labels = labels\<rparr>"

section \<open>Schema\<close>

text \<open>
  A channel of the schema, by its name: address, description, title of its message and
  resolved payloads. The names, descriptions and payloads FastStream supplies are
  arguments.
\<close>

record channel_spec =
  address :: string
  description :: "string option"
  message_title :: string
  payload :: pyval

definition channel_labels :: "string \<Rightarrow> MQQueue \<Rightarrow> string list" where
  "channel_labels pre q = [pre @ name q]"

definition subscriber_schema ::
  "string \<Rightarrow> string option \<Rightarrow> pyval \<Rightarrow> string \<Rightarrow> MQQueue \<Rightarrow> (string \<times> channel_spec) list" where
  "subscriber_schema channel_name desc payloads pre q =
     [(channel_name,
       \<lparr>address = channel_labels pre q ! 0, description = desc,
        message_title = channel_name @ '':Message'', payload = payloads\<rparr>)]"

definition publisher_spec_name :: "string option \<Rightarrow> string \<Rightarrow> MQQueue \<Rightarrow> string" where
  "publisher_spec_name title pre q = str_or title (pre @ name q @ '':Publisher'')"

definition publisher_schema ::
  "string option \<Rightarrow> string option \<Rightarrow> pyval \<Rightarrow> string \<Rightarrow> MQQueue \<Rightarrow> (string \<times> channel_spec) list" where
  "publisher_schema title desc payloads pre q =
     [(publisher_spec_name title pre q,
       \<lparr>address = pre @ name q, description = desc,
        message_title = publisher_spec_name title pre q @ '':Message'', payload = payloads\<rparr>)]"

section \<open>Logging\<close>

text \<open>
  \<open>MQParamsStorage\<close>: the width of the queue column, and the logger once it has been made.
  A logger is known by the arguments it was made with.
\<close>

record broker_logger =
  logger_name :: string
  default_context :: "(string \<times> pyval) list"
  message_id_ln :: nat
  fmt :: string
  log_level :: int

record MQParamsStorage =
  max_queue_len :: nat
  logger_ref :: "broker_logger option"

definition MQParamsStorage_init :: MQParamsStorage where
  "MQParamsStorage_init = \<lparr>max_queue_len = 5, logger_ref = None\<rparr>"

text \<open>\<open>len(params.get("queue", ""))\<close>: the value is the \<open>str\<close> the subscriber put there.\<close>

definition param_queue_len :: "(string \<times> pyval) list \<Rightarrow> nat" where
  "param_queue_len params = (case map_of params ''queue'' of Some (PStr s) \<Rightarrow> length s | _ \<Rightarrow> 0)"

definition register_subscriber :: "(string \<times> pyval) list \<Rightarrow> MQParamsStorage \<Rightarrow> MQParamsStorage" where
  "register_subscriber params s = s\<lparr>max_queue_len := max (max_queue_len s) (param_queue_len params)\<rparr>"

definition log_format :: "nat \<Rightarrow> nat \<Rightarrow> string" where
  "log_format queue_len message_id_len =
     ''%(asctime)s %(levelname)-8s - '' @ ''%(queue)-'' @ show_nat queue_len @ ''s | ''
     @ ''%(message_id)-'' @ show_nat message_id_len @ ''s - %(message)s''"

definition get_logger :: "int \<Rightarrow> MQParamsStorage \<Rightarrow> broker_logger \<times> MQParamsStorage" where
  "get_logger level s = (case logger_ref s of
      Some l \<Rightarrow> (l, s)
    | None \<Rightarrow>
        (let message_id_len = 10;
             l = \<lparr>logger_name = ''mq'', default_context = [(''queue'', PStr [])],
                  message_id_ln = message_id_len, fmt = log_format (max_queue_len s) message_id_len,
                  log_level = level\<rparr>
         in (l, s\<lparr>logger_ref := Some l\<rparr>)))"

section \<open>Two spans of one message\<close>

lemma queue_len_log_context [simp]: "param_queue_len (get_log_context p m) = length (name (sub_queue p))"
  by (simp add: param_queue_len_def get_log_context_def build_log_context_def)

lemma register_subscriber_fields [simp]:
  "max_queue_len (register_subscriber d s) = max (max_queue_len s) (param_queue_len d)"
  "logger_ref (register_subscriber d s) = logger_ref s"
  by (simp_all add: register_subscriber_def)

lemma registered_width:
  "max_queue_len (fold register_subscriber ds s) = Max (insert (max_queue_len s) (param_queue_len ` set ds))"
proof (induction ds arbitrary: s)
  case (Cons d ds)
  have "Max (insert (max x y) A) = Max (insert x (insert y A))" if "finite A" for x y :: nat and A
    using that by (cases "A = {}") (simp_all add: max.assoc)
  with Cons show ?case by simp
qed simp

lemma registered_logger [simp]: "logger_ref (fold register_subscriber ds s) = logger_ref s"
  by (induction ds arbitrary: s) simp_all

lemma consumed_attrs:
  assumes "K \<noteq> ''messaging.system''" and "K \<noteq> ''messaging.destination.name''"
    and "K \<noteq> ''messaging.message.conversation_id''" and "K \<noteq> ''messaging.message.payload_size_bytes''"
  shows "dict_get (telemetry_consume_attrs K msg raw) ''messaging.system'' = PStr messaging_system"
    "dict_get (telemetry_consume_attrs K msg raw) ''messaging.destination.name'' = PStr (raw_queue raw)"
    "dict_get (telemetry_consume_attrs K msg raw) ''messaging.message.conversation_id''
       = opt_str (or_opt_str (m_correlation_id msg) (m_message_id msg))"
    "dict_get (telemetry_consume_attrs K msg raw) ''messaging.message.payload_size_bytes'' = PInt (int (length (m_body msg)))"
  using assms by (simp_all add: telemetry_consume_attrs_def Let_def dict_union_def dict_get_def update_conv')

lemma produced_attrs:
  "dict_get (telemetry_publish_attrs cmd) ''messaging.system'' = PStr messaging_system"
  "dict_get (telemetry_publish_attrs cmd) ''messaging.destination.name'' = PStr (destination cmd)"
  "dict_get (telemetry_publish_attrs cmd) ''messaging.message.conversation_id''
     = opt_str (or_opt_str (correlation_id cmd) (message_id cmd))"
  by (simp_all add: telemetry_publish_attrs_def Let_def dict_union_def dict_get_def update_conv' opt_str_def split: option.split)



text \<open>
  A middleware of each kind on any two brokers, however it is configured: the queue of a
  publication is the same for both, and both count the bytes of the body.
\<close>

lemma middlewares_agree:
  fixes T :: "('b, 'o) telemetry_middleware" and P :: "('c, 'p) prometheus_middleware"
  assumes "T = MQTelemetryMiddleware tr mp m c" and "P = MQPrometheusMiddleware reg app pre bs ls"
    and "K \<noteq> ''messaging.destination.name''" and "K \<noteq> ''messaging.system''"
    and "K \<noteq> ''messaging.message.conversation_id''" and "K \<noteq> ''messaging.message.payload_size_bytes''"
  shows "tp_publish_destination (settings_provider_factory T b) = mp_publish_destination (metrics_provider_factory P b')"
    "tp_consume_destination (settings_provider_factory T b) w = destination_name (mp_consume_attrs (metrics_provider_factory P b') g w)"
    "dict_get (tp_consume_attrs (settings_provider_factory T b) K g w) ''messaging.message.payload_size_bytes''
       = PInt (int (message_size (mp_consume_attrs (metrics_provider_factory P b') g w)))"
  using assms(3-6)
  by (auto simp: assms(1,2) MQTelemetryMiddleware_def MQPrometheusMiddleware_def MQTelemetrySettingsProvider_def
      MQMetricsSettingsProvider_def telemetry_publish_destination_def metrics_publish_destination_def
      telemetry_consume_destination_def metrics_consume_attrs_def consumed_attrs)

text \<open>
  The queue column of the log. Whatever subscribers were registered before the logger
  was made, and in whatever order, the column of the format is as wide as the longest of
  their queue names and at least five characters, so that every record of theirs fits; and
  once made the logger stays the same, later subscribers may exceed it.
\<close>

theorem log_column_fits:
  "let widths = (\<lambda>p. param_queue_len (get_log_context p m)) ` set ps;
       (l, t) = get_logger level (fold register_subscriber (map (\<lambda>p. get_log_context p None) ps) MQParamsStorage_init)
   in fmt l = log_format (Max (insert 5 widths)) 10
      \<and> get_logger level' (fold register_subscriber later t) = (l, fold register_subscriber later t)"
  by (auto simp: get_logger_def Let_def registered_width MQParamsStorage_init_def image_image)

end
