(* ===== verification/MQ_Header_Props.thy ===== *)
theory MQ_Header_Props
  imports MQ_Messaging_Props
begin

text \<open>
  Headers across the queue manager: the loop over the properties of a message ends and
  yields the headers that the publication set, however long their values are. The
  property cursor of a message handle is the documented one.
\<close>

section \<open>The property cursor\<close>

text \<open>
  The property an inquiry is about: the first, the one after the cursor, or the one under
  it. Every inquiry leaves the cursor there, one refused for the length of the value too.
\<close>

definition inquired :: "mqlib \<Rightarrow> int \<Rightarrow> nat option \<Rightarrow> nat" where
  "inquired L options c =
     (if options = MQIMPO_INQ_FIRST (CMQC L) then 0 else case c of
        None \<Rightarrow> 0
      | Some k \<Rightarrow> if options = MQIMPO_INQ_NEXT (CMQC L) then Suc k else k)"

fun moved :: "mqlib \<Rightarrow> nat \<Rightarrow> call \<times> bool \<Rightarrow> nat option \<Rightarrow> nat option" where
  "moved L h (GetProperty h' options n, b) c = (if h' = h then Some (inquired L options c) else c)"
| "moved L h (x, b) c = c"

definition cursor :: "mqlib \<Rightarrow> nat \<Rightarrow> history \<Rightarrow> nat option" where
  "cursor L h hist = fold (moved L h) hist None"

lemma cursor_inquiry [simp]:
  "cursor L h (hist @ (GetProperty h options n, b) # later) = fold (moved L h) later (Some (inquired L options (cursor L h hist)))"
  by (simp add: cursor_def)

text \<open>
  A handle serves a list of properties, values with names, when an inquiry answers with
  the property it is about, or with its length when the value is longer than the limit,
  and when after the last property none is available.
\<close>

definition serves_properties :: "mqlib \<Rightarrow> nat \<Rightarrow> (pyval \<Rightarrow> int) \<Rightarrow> (pyval \<times> pyval) list \<Rightarrow> bool" where
  "serves_properties L h value_length ps \<longleftrightarrow>
     distinct [MQIMPO_INQ_FIRST (CMQC L), MQIMPO_INQ_NEXT (CMQC L), MQIMPO_INQ_PROP_UNDER_CURSOR (CMQC L)]
     \<and> MQRC_PROPERTY_NOT_AVAILABLE (CMQC L) \<noteq> MQRC_PROPERTY_VALUE_TOO_BIG (CMQC L)
     \<and> (\<forall>w options n. ans_property L w (GetProperty h options (Some n)) =
          (let k = inquired L options (cursor L h (history w)) in
           if length ps \<le> k then Inl (MQMIError (MQRC_PROPERTY_NOT_AVAILABLE (CMQC L)) 0)
           else if n < value_length (fst (ps ! k))
           then Inl (MQMIError (MQRC_PROPERTY_VALUE_TOO_BIG (CMQC L)) (value_length (fst (ps ! k))))
           else Inr (ps ! k)))"

lemma next_property_served:
  assumes "serves_properties L h value_length ps"
    and "options = MQIMPO_INQ_FIRST (CMQC L) \<or> options = MQIMPO_INQ_NEXT (CMQC L)"
    and "k = inquired L options (cursor L h (history (snd s)))"
    and "k < length ps" and "\<exists>n. mq_str (snd (ps ! k)) = Inr n"
  shows "\<exists>t. next_property L h options m s = (Returns (Some (ps ! k)), t) \<and> fst t = fst s
    \<and> cursor L h (history (snd t)) = Some k"
proof -
  have "inquired L (MQIMPO_INQ_PROP_UNDER_CURSOR (CMQC L)) (Some k) = k"
    using assms(1) by (auto simp: inquired_def serves_properties_def)
  with assms show ?thesis
    unfolding serves_properties_def next_property_def get_property_def
    by (cases "m < value_length (fst (ps ! k))")
       (auto simp: prog_simps call_lib_apply Let_def split: prod.split)
qed

lemma next_property_exhausted:
  assumes "serves_properties L h value_length ps"
    and "length ps \<le> inquired L options (cursor L h (history (snd s)))"
  shows "\<exists>t. next_property L h options m s = (Returns None, t) \<and> fst t = fst s"
  using assms unfolding serves_properties_def next_property_def get_property_def
  by (auto simp: prog_simps call_lib_apply Let_def)

section \<open>The loop over the properties\<close>

definition header_of_property :: "pyval \<times> pyval \<Rightarrow> headers \<Rightarrow> headers" where
  "header_of_property p hs = (case mq_str (snd p) of
      Inl e \<Rightarrow> hs
    | Inr n \<Rightarrow> AList.update (header_name_of_property n) (fst p) hs)"

lemma read_headers_loop_served:
  assumes "serves_properties L h value_length ps"
    and "\<forall>p \<in> set ps. \<exists>n. mq_str (snd p) = Inr n"
    and "options = MQIMPO_INQ_FIRST (CMQC L) \<or> options = MQIMPO_INQ_NEXT (CMQC L)"
    and "k = inquired L options (cursor L h (history (snd s)))"
    and "k \<le> length ps" and "length ps - k < fuel"
  shows "\<exists>t. read_headers_loop L fuel h m options hs s = (Returns (fold header_of_property (drop k ps) hs), t)
    \<and> fst t = fst s"
  using assms(3-)
proof (induction fuel arbitrary: k options hs s)
  case (Suc fuel)
  show ?case
  proof (cases "k < length ps")
    case False
    then show ?thesis
      using Suc.prems next_property_exhausted [OF assms(1), of options s m] by (auto simp: prog_simps)
  next
    case True
    obtain n where n: "mq_str (snd (ps ! k)) = Inr n" using assms(2) True nth_mem by blast
    obtain t where t: "next_property L h options m s = (Returns (Some (ps ! k)), t)" "fst t = fst s"
        "cursor L h (history (snd t)) = Some k"
      using next_property_served [OF assms(1) Suc.prems(1,2) True] n by blast
    have after: "Suc k = inquired L (MQIMPO_INQ_NEXT (CMQC L)) (cursor L h (history (snd t)))"
      using assms(1) t(3) by (auto simp: inquired_def serves_properties_def)
    have "length ps - Suc k < fuel" using Suc.prems(4) True by simp
    with Suc.IH [OF _ after, of "header_of_property (ps ! k) hs"] True obtain t' where
        "read_headers_loop L fuel h m (MQIMPO_INQ_NEXT (CMQC L)) (header_of_property (ps ! k) hs) t
           = (Returns (fold header_of_property (drop (Suc k) ps) (header_of_property (ps ! k) hs)), t')" "fst t' = fst t"
      by auto
    moreover have "drop k ps = ps ! k # drop (Suc k) ps" using True by (simp add: Cons_nth_drop_Suc)
    moreover have "header_of_property (ps ! k) hs
        = AList.update (header_name_from_property (strip_property_prefix n)) (fst (ps ! k)) hs"
      by (simp add: header_of_property_def header_name_of_property_def n)
    ultimately show ?thesis
      using t n by (cases "ps ! k") (simp add: prog_simps)
  qed
qed simp

lemma headers_of_properties:
  assumes "distinct (map fst hs @ map fst ps)"
    and "\<forall>(k, v) \<in> set ps. mq_str (PStr (property_name_from_header k)) = Inr (property_name_from_header k) \<and> \<not> ambiguous k"
  shows "fold header_of_property (map (\<lambda>(k, v). (v, PStr (property_name_from_header k))) ps) hs = hs @ ps"
  using assms
proof (induction ps arbitrary: hs)
  case (Cons p ps)
  obtain k v where p: "p = (k, v)" by (cases p)
  have "AList.update k v hs = hs @ [(k, v)]" if "k \<notin> fst ` set hs"
    using that by (induction hs) auto
  moreover have "header_name_of_property (property_name_from_header k) = k"
    using Cons.prems(2) names.dec_enc [of k] by (simp add: p)
  ultimately have "header_of_property (v, PStr (property_name_from_header k)) hs = hs @ [(k, v)]"
    using Cons.prems by (auto simp: p header_of_property_def)
  then show ?case using Cons.IH [of "hs @ [(k, v)]"] Cons.prems by (simp add: p)
qed simp

section \<open>Headers set and headers read\<close>

definition properties_set :: "nat \<Rightarrow> history \<Rightarrow> (pyval \<times> pyval) list" where
  "properties_set h hist = concat (map (\<lambda>(c, b). case c of
      SetProperty h' n v \<Rightarrow> if h' = h \<and> b then [(v, PStr n)] else [] | _ \<Rightarrow> []) hist)"

lemma properties_set_append [simp]: "properties_set h (hist @ hist') = properties_set h hist @ properties_set h hist'"
  by (simp add: properties_set_def)

lemma set_properties_history:
  "set_properties L F h hs s = (Returns (), t) \<Longrightarrow>
     \<exists>ps. list_all2 (\<lambda>(k, v) (k', v'). k' = k \<and> normalize_property_value F v = Inr v') hs ps
        \<and> properties_set h (history (snd t)) = properties_set h (history (snd s))
            @ map (\<lambda>(k, v). (v, PStr (property_name_from_header k))) ps"
proof (induction hs arbitrary: s)
  case Nil
  then show ?case by (simp add: set_properties_def prog_simps)
next
  case (Cons p hs)
  obtain k v where p: "p = (k, v)" by (cases p)
  obtain v' u where v': "normalize_property_value F v = Inr v'"
    and u: "call_unit L (SetProperty h (property_name_from_header k) v') s = (Returns (), u)"
    and rest: "set_properties L F h hs u = (Returns (), t)"
    using Cons.prems by (auto simp: set_properties_def p run_simps)
  have "properties_set h (history (snd u)) = properties_set h (history (snd s)) @ [(v', PStr (property_name_from_header k))]"
    using u by (auto simp: run_simps properties_set_def)
  with Cons.IH [OF rest] obtain ps where "list_all2 (\<lambda>(k, v) (k', v'). k' = k \<and> normalize_property_value F v = Inr v') hs ps"
    "properties_set h (history (snd t)) = properties_set h (history (snd s))
       @ map (\<lambda>(k, v). (v, PStr (property_name_from_header k))) ((k, v') # ps)"
    by auto
  with v' show ?case by (intro exI [of _ "(k, v') # ps"]) (simp add: p)
qed


text \<open>A reader of one handle that serves given properties.\<close>

definition sample_length :: "pyval \<Rightarrow> int" where
  "sample_length v = (case v of PStr t \<Rightarrow> int (length t) | _ \<Rightarrow> 8)"

definition sample_reader :: "(pyval \<times> pyval) list \<Rightarrow> mqlib" where
  "sample_reader ps = (let L = sample_lib no_faults in L
     \<lparr>ans_property := (\<lambda>w c. case c of
        GetProperty h options (Some n) \<Rightarrow>
          (let k = inquired L options (cursor L h (history w)) in
           if length ps \<le> k then Inl (MQMIError 2471 0)
           else if n < sample_length (fst (ps ! k)) then Inl (MQMIError 2469 (sample_length (fst (ps ! k))))
           else Inr (ps ! k))
      | _ \<Rightarrow> Inl TypeError)\<rparr>)"

lemma cmqc_sample_reader [simp]: "CMQC (sample_reader ps) = documented_cmqc"
  by (simp add: sample_reader_def Let_def)

lemma cursor_sample_reader:
  "inquired (sample_reader ps) = inquired (sample_lib no_faults)"
  "cursor (sample_reader ps) = cursor (sample_lib no_faults)"
proof -
  show *: "inquired (sample_reader ps) = inquired (sample_lib no_faults)"
    by (intro ext) (simp add: inquired_def cong: option.case_cong)
  have "moved (sample_reader ps) h x c = moved (sample_lib no_faults) h x c" for h x c
    by (cases x, rename_tac a b, case_tac a) (simp_all add: *)
  then have "moved (sample_reader ps) = moved (sample_lib no_faults)" by (intro ext)
  then show "cursor (sample_reader ps) = cursor (sample_lib no_faults)" by (intro ext) (simp add: cursor_def)
qed

lemma sample_reader_property:
  "ans_property (sample_reader ps) w (GetProperty h options (Some n)) =
     (let k = inquired (sample_lib no_faults) options (cursor (sample_lib no_faults) h (history w)) in
      if length ps \<le> k then Inl (MQMIError 2471 0)
      else if n < sample_length (fst (ps ! k)) then Inl (MQMIError 2469 (sample_length (fst (ps ! k))))
      else Inr (ps ! k))"
  by (simp add: sample_reader_def Let_def)

lemma sample_reader_serves: "serves_properties (sample_reader ps) h sample_length ps"
  by (simp add: serves_properties_def cursor_sample_reader sample_reader_property Let_def)
     (simp add: documented_cmqc_def)


end
