(* ===== verification/MQ_Unit_Of_Work.thy ===== *)
theory MQ_Unit_Of_Work
  imports MQ_Producer_Props
begin

text \<open>
  The unit of work of a connection. IBM MQ keeps, for every connection to a queue manager,
  the messages got and put under syncpoint since the last commit or backout; the adapter
  has no variable for it. It is computed here from the history of calls, and every
  operation of \<open>AsyncMQConnection\<close> is shown to do to it what its caller relies on.
\<close>

unbundle bit_operations_syntax

section \<open>The unit of work of a queue manager\<close>

text \<open>The queue handle of a get or put under syncpoint.\<close>

fun syncpoint_handle :: "mqlib \<Rightarrow> call \<Rightarrow> nat option" where
  "syncpoint_handle L (Get i m g) = (if gmo_Options g AND MQGMO_SYNCPOINT (CMQC L) = 0 then None else Some i)"
| "syncpoint_handle L (Put i b m p) = (if pmo_Options p AND MQPMO_SYNCPOINT (CMQC L) = 0 then None else Some i)"
| "syncpoint_handle L x = None"

fun opens_on :: "nat \<Rightarrow> call \<Rightarrow> bool" where
  "opens_on q (OpenQueue q' n opts) \<longleftrightarrow> q' = q"
| "opens_on q (OpenDynamicQueue q' m d opts) \<longleftrightarrow> q' = q"
| "opens_on q x \<longleftrightarrow> False"

definition opened_on :: "history \<Rightarrow> nat \<Rightarrow> nat \<Rightarrow> bool" where
  "opened_on h q i \<longleftrightarrow> i < length h \<and> opens_on q (fst (h ! i)) \<and> snd (h ! i)"

fun ends_unit :: "nat \<Rightarrow> call \<times> bool \<Rightarrow> bool" where
  "ends_unit q (Commit q', b) \<longleftrightarrow> b \<and> q' = q"
| "ends_unit q (Backout q', b) \<longleftrightarrow> b \<and> q' = q"
| "ends_unit q (Disconnect q', b) \<longleftrightarrow> q' = q"
| "ends_unit q x \<longleftrightarrow> False"

definition joins_unit :: "mqlib \<Rightarrow> history \<Rightarrow> nat \<Rightarrow> call \<times> bool \<Rightarrow> bool" where
  "joins_unit L h q x \<longleftrightarrow> snd x
     \<and> (case syncpoint_handle L (fst x) of None \<Rightarrow> False | Some i \<Rightarrow> opened_on h q i)"

text \<open>
  The positions of the gets and puts that are not yet committed or backed out, newest call
  first in the argument. A queue manager starts with an empty unit when it is created. A
  commit or backout that fails may have ended the unit; here it has not.
\<close>

primrec unit_before :: "mqlib \<Rightarrow> nat \<Rightarrow> history \<Rightarrow> nat list" where
  "unit_before L q [] = []"
| "unit_before L q (x # r) =
     (if length r = q \<or> ends_unit q x then []
      else if joins_unit L (rev r) q x then unit_before L q r @ [length r]
      else unit_before L q r)"

definition unit_of_work :: "mqlib \<Rightarrow> nat \<Rightarrow> history \<Rightarrow> nat list" where
  "unit_of_work L q h = unit_before L q (rev h)"

definition held_unit :: "mqlib \<Rightarrow> cst \<Rightarrow> nat list" where
  "held_unit L s = (case qmgr (fst s) of None \<Rightarrow> [] | Some q \<Rightarrow> unit_of_work L q (history (snd s)))"

lemma unit_of_work_Nil [simp]: "unit_of_work L q [] = []"
  by (simp add: unit_of_work_def)

lemma unit_of_work_snoc:
  "unit_of_work L q (h @ [x]) =
     (if length h = q \<or> ends_unit q x then []
      else if joins_unit L h q x then unit_of_work L q h @ [length h]
      else unit_of_work L q h)"
  by (simp add: unit_of_work_def)

text \<open>Calls that belong to no unit of work and end none but by disconnecting.\<close>

definition outside_unit :: "mqlib \<Rightarrow> call \<Rightarrow> bool" where
  "outside_unit L x \<longleftrightarrow> syncpoint_handle L x = None \<and> (\<forall>q. x \<noteq> Commit q) \<and> (\<forall>q. x \<noteq> Backout q)"

lemma outside_unit_link [simp]: "is_link_call x \<Longrightarrow> outside_unit L x"
  by (cases x) (simp_all add: outside_unit_def)

lemma outside_unit_handle [simp]: "is_handle_call x \<Longrightarrow> outside_unit L x"
  by (cases x) (simp_all add: outside_unit_def)

lemma outside_unit_simps [simp]:
  "outside_unit L (Sleep t)" "outside_unit L (GetName q)" "outside_unit L (OpenDynamicQueue q model d opts)"
  "\<not> outside_unit L (Commit q)" "\<not> outside_unit L (Backout q)"
  "outside_unit L (Get i m g) \<longleftrightarrow> gmo_Options g AND MQGMO_SYNCPOINT (CMQC L) = 0"
  "outside_unit L (Put i b m p) \<longleftrightarrow> pmo_Options p AND MQPMO_SYNCPOINT (CMQC L) = 0"
  by (simp_all add: outside_unit_def)

lemma unit_outside:
  "outside_unit L x \<Longrightarrow> unit_of_work L q (h @ [(x, b)]) =
     (if length h = q \<or> x = Disconnect q then [] else unit_of_work L q h)"
  by (cases x) (auto simp: unit_of_work_snoc outside_unit_def joins_unit_def)

text \<open>
  What an operation that stays outside has kept, since there were \<open>N\<close> calls on record: the
  units of the queue managers created since then are empty, the one of \<open>q0\<close> is what it was,
  or \<open>q0\<close> has been disconnected.
\<close>

definition units_kept :: "mqlib \<Rightarrow> nat \<Rightarrow> nat option \<Rightarrow> nat list \<Rightarrow> history \<Rightarrow> bool" where
  "units_kept L N q0 u h \<longleftrightarrow> N \<le> length h
     \<and> (\<forall>q. N \<le> q \<and> q < length h \<longrightarrow> unit_of_work L q h = [])
     \<and> (\<forall>q. q0 = Some q \<longrightarrow> q < N \<and> ((\<exists>b. (Disconnect q, b) \<in> set h) \<or> unit_of_work L q h = u))"

lemma units_kept_snoc:
  "units_kept L N q0 u h \<Longrightarrow> outside_unit L x \<Longrightarrow> units_kept L N q0 u (h @ [(x, b)])"
  by (auto simp: units_kept_def unit_outside less_Suc_eq)

lemma units_kept_start:
  "(\<And>q. q0 = Some q \<Longrightarrow> q < length h \<and> unit_of_work L q h = u) \<Longrightarrow> units_kept L (length h) q0 u h"
  by (auto simp: units_kept_def)

abbreviation in_kept :: "mqlib \<Rightarrow> nat \<Rightarrow> nat option \<Rightarrow> nat list \<Rightarrow> cst \<Rightarrow> bool" where
  "in_kept L N q0 u \<equiv> (\<lambda>s. units_kept L N q0 u (history (snd s)))"

lemma log_stable_kept [simp]: "log_stable (outside_unit L) (in_kept L N q0 u)"
  by (simp add: log_stable_def units_kept_snoc)

lemma log_stable_kept_handle [simp]: "log_stable is_handle_call (in_kept L N q0 u)"
  by (rule log_stable_weaken [OF log_stable_kept]) simp

lemma link_stable_kept: "link_stable (in_kept L N q0 u)"
  by (rule link_stable_history) (simp add: units_kept_snoc)

section \<open>The queue manager held\<close>

text \<open>The queue manager of the connection is the one it held, or one created since.\<close>

definition held_since :: "nat \<Rightarrow> nat option \<Rightarrow> cst \<Rightarrow> bool" where
  "held_since N q0 s \<longleftrightarrow> N \<le> length (history (snd s)) \<and> (\<forall>q. qmgr (fst s) = Some q \<longrightarrow> q0 = Some q \<or> N \<le> q)"

lemma op_stable_held: "op_stable L (held_since N q0)"
proof -
  have "preserves (held_since N q0) (connect_sync L)"
    by (rule pres_connect_new [where New = "\<lambda>q. N \<le> q"])
      (simp_all add: log_stable_def tls_blind_def held_since_def)
  moreover have "preserves (held_since N q0) (safe_disconnect_qmgr_sync L)"
    by (rule preservesI)
      (simp add: safe_disconnect_qmgr_sync_def prog_simps held_since_def split: option.split sum.split)
  moreover have "log_stable harmless (held_since N q0)" "tls_blind (held_since N q0)"
    by (simp_all add: log_stable_def tls_blind_def held_since_def)
  ultimately show ?thesis
    by (simp add: op_stable_def held_since_def)
qed

text \<open>The unit of work an operation finds: its caller's, or an empty one on a new queue manager.\<close>

definition unit_base :: "mqlib \<Rightarrow> cst \<Rightarrow> cst \<Rightarrow> nat list" where
  "unit_base L s t = (if qmgr (fst t) = qmgr (fst s) then held_unit L s else [])"

lemma held_unit_kept:
  assumes "conn_ok L t" and "units_kept L N (qmgr (fst s)) (held_unit L s) (history (snd t))"
    and "held_since N (qmgr (fst s)) t"
  shows "held_unit L t = unit_base L s t"
proof (cases "qmgr (fst t)")
  case (Some q)
  have "live_qmgr (history (snd t)) q" using assms(1) Some by (simp add: conn_ok_defs)
  then have q: "q < length (history (snd t))" "\<And>b. (Disconnect q, b) \<notin> set (history (snd t))"
    by (auto simp: live_qmgr_def)
  show ?thesis
  proof (cases "qmgr (fst s) = Some q")
    case True
    with q(2) assms(2) have "unit_of_work L q (history (snd t)) = held_unit L s" unfolding units_kept_def by blast
    with Some True show ?thesis by (simp add: held_unit_def unit_base_def)
  next
    case False
    then have "N \<le> q" using assms(3) Some by (auto simp: held_since_def)
    with q(1) assms(2) have "unit_of_work L q (history (snd t)) = []" unfolding units_kept_def by blast
    with Some False show ?thesis by (simp add: held_unit_def unit_base_def)
  qed
qed (simp add: held_unit_def unit_base_def)

lemma kept_start:
  assumes "conn_ok L s"
  shows "units_kept L (length (history (snd s))) (qmgr (fst s)) (held_unit L s) (history (snd s))"
    and "held_since (length (history (snd s))) (qmgr (fst s)) s"
  using assms by (auto simp: held_since_def held_unit_def conn_ok_defs intro!: units_kept_start)

text \<open>An operation that stays outside the unit of work.\<close>

lemma unit_untouched:
  assumes "conn_ok L s" and "op s = (r, t)" and "preserves (conn_ok L) op"
    and "\<And>N q0. preserves (held_since N q0) op" and "\<And>N q0 u. preserves (in_kept L N q0 u) op"
  shows "held_unit L t = unit_base L s t"
  using preservesD [OF assms(3,1)] preservesD [OF assms(4) kept_start(2) [OF assms(1)]]
    preservesD [OF assms(5) kept_start(1) [OF assms(1)]] assms(2)
  by (intro held_unit_kept) auto

section \<open>Operations outside the unit of work\<close>

text \<open>
  What the options of the adapter need of the constants: the syncpoint bits are there, and
  neither the library's default put options nor the options of a get outside of syncpoint
  contain them. The documented values are of this kind.
\<close>

definition syncpoint_bits :: "mqlib \<Rightarrow> bool" where
  "syncpoint_bits L \<longleftrightarrow> MQGMO_SYNCPOINT (CMQC L) \<noteq> 0 \<and> MQPMO_SYNCPOINT (CMQC L) \<noteq> 0
     \<and> new_pmo_Options L AND MQPMO_SYNCPOINT (CMQC L) = 0
     \<and> (MQGMO_WAIT (CMQC L) OR MQGMO_NO_SYNCPOINT (CMQC L) OR MQGMO_PROPERTIES_IN_HANDLE (CMQC L))
         AND MQGMO_SYNCPOINT (CMQC L) = 0"

lemma documented_syncpoint_bits: "CMQC L = documented_cmqc \<Longrightarrow> new_pmo_Options L = 0 \<Longrightarrow> syncpoint_bits L"
  by (simp add: syncpoint_bits_def documented_cmqc_def)

lemma outside_put: "syncpoint_bits L \<Longrightarrow> outside_unit L (Put i b m \<lparr>pmo_Options = new_pmo_Options L, pmo_OriginalMsgHandle = h\<rparr>)"
  by (simp add: syncpoint_bits_def)

lemma outside_reply_get: "syncpoint_bits L \<Longrightarrow> outside_unit L (Get i m (reply_options L wi h))"
  by (simp add: syncpoint_bits_def reply_options_def)

lemma kept_recover: "preserves (in_kept L N q0 u) (recover_connection_sync L b)"
  by (rule pres_link_recover [OF link_stable_kept]) simp

lemma kept_pause: "preserves (in_kept L N q0 u) (call_unit L (Sleep pause))"
  by (rule pres_call_unit [OF log_stable_kept]) simp

lemma kept_run:
  "preserves (in_kept L N q0 u) op \<Longrightarrow> preserves (in_kept L N q0 u) (run_with_reconnect_sync L op b)"
  unfolding run_with_reconnect_sync_def
  by (intro pres_bind pres_seq pres_try_except pres_if pres_ret pres_throw pres_case_option pres_load
      kept_recover kept_pause)

lemma kept_connection:
  "preserves (in_kept L N q0 u) (connect L)" "preserves (in_kept L N q0 u) (start_consumer L n)"
  "preserves (in_kept L N q0 u) (stop_consumer L)" "preserves (in_kept L N q0 u) (ping L)"
proof -
  note link = link_stable_kept
  show "preserves (in_kept L N q0 u) (connect L)"
    unfolding connect_def by (intro pres_seq pres_link_connect_sync link pres_updc) simp_all
  have once: "preserves (in_kept L N q0 u) (start_consumer_once L n)" for n
    by (rule pres_link_start_once [OF link]) simp
  show "preserves (in_kept L N q0 u) (start_consumer L n)"
    unfolding start_consumer_def start_consumer_sync_def
    by (intro pres_started pres_seq kept_run once pres_updc) simp_all
  show "preserves (in_kept L N q0 u) (stop_consumer L)"
    unfolding stop_consumer_def stop_consumer_sync_def
    by (rule pres_rules log_stable_kept pres_updc | simp)+
  show "preserves (in_kept L N q0 u) (ping L)"
    unfolding ping_def ping_sync_def ping_once_def
    by (rule pres_bind pres_getc pres_if pres_ret pres_throw pres_try_except kept_run pres_seq
        pres_on_qmgr log_stable_kept | simp)+
qed

lemma kept_publish:
  assumes "syncpoint_bits L" and "\<not> syncpoint cmd"
  shows "preserves (in_kept L N q0 u) (publish L F cmd ser)"
proof -
  have "preserves (in_kept L N q0 u) (publish_once L F cmd ser)"
    unfolding publish_once_def
    by (rule pres_rules log_stable_kept log_stable_kept_handle
        | simp add: assms(2) outside_put [OF assms(1)] del: outside_unit_simps | simp)+
  then show ?thesis
    unfolding publish_def publish_sync_def by (intro pres_started pres_bind pres_getc kept_run)
qed

lemma kept_request:
  assumes "syncpoint_bits L"
  shows "preserves (in_kept L N q0 u) (request L F fuel cmd ser)"
proof -
  note outside = outside_put [OF assms] outside_reply_get [OF assms]
  have body: "preserves (\<lambda>sl. in_kept L N q0 u (fst sl)) (request_attempt_body L cmd F b hs)" for b hs
    unfolding request_attempt_body_def
    by (rule pres_rules log_stable_kept log_stable_kept_handle | simp add: outside del: outside_unit_simps | simp)+
  have fin: "preserves (\<lambda>sl. in_kept L N q0 u (fst sl)) (request_attempt_finally L)"
    unfolding request_attempt_finally_def by (rule pres_rules log_stable_kept | simp)+
  have attempt: "preserves (in_kept L N q0 u) (request_attempt L cmd F b hs l)" for b hs l
    unfolding request_attempt_def
    by (rule body fin kept_recover kept_pause | rule pres_rules)+
  have put: "preserves (in_kept L N q0 u) (publish_request_sync L F cmd ser)"
    unfolding publish_request_sync_def by (rule attempt | rule pres_rules)+
  have wait: "preserves (in_kept L N q0 u) (wait_for_reply_sync L fuel rq n mid t)" for rq n mid t
    unfolding wait_for_reply_sync_def
    by (rule pres_rules log_stable_kept log_stable_kept_handle | simp add: outside del: outside_unit_simps | simp)+
  show ?thesis
    unfolding request_def request_sync_def
    by (rule put wait kept_recover | rule pres_rules log_stable_kept | simp)+
qed

section \<open>Operations inside the unit of work\<close>

text \<open>
  The unit has gained one call of the class \<open>P\<close>, made since there were \<open>n\<close> calls on record;
  or what is left when an operation fails, perhaps after its effect.
\<close>

definition unit_with :: "mqlib \<Rightarrow> (call \<Rightarrow> bool) \<Rightarrow> nat \<Rightarrow> nat list \<Rightarrow> cst \<Rightarrow> bool" where
  "unit_with L P n u s \<longleftrightarrow> (\<exists>j \<ge> n. j < length (history (snd s)) \<and> P (fst (history (snd s) ! j))
     \<and> held_unit L s = u @ [j])"

definition unit_left :: "mqlib \<Rightarrow> (call \<Rightarrow> bool) \<Rightarrow> nat \<Rightarrow> nat list \<Rightarrow> cst \<Rightarrow> bool" where
  "unit_left L P n u s \<longleftrightarrow> held_unit L s = u \<or> held_unit L s = [] \<or> unit_with L P n u s"

lemma unit_with_mono: "unit_with L P n' u s \<Longrightarrow> n \<le> n' \<Longrightarrow> unit_with L P n u s"
  unfolding unit_with_def by (meson order_trans)

lemma unit_left_mono: "unit_left L P n' u s \<Longrightarrow> n \<le> n' \<Longrightarrow> unit_left L P n u s"
  unfolding unit_left_def by (auto intro: unit_with_mono)

text \<open>A recovery throws the unit away, or it has not replaced the queue manager.\<close>

lemma recovery_unit:
  assumes "conn_ok L s" and "seq (recover_connection_sync L b) (call_unit L (Sleep pause)) s = (r, t)"
  shows "conn_ok L t \<and> held_unit L t = unit_base L s t \<and> length (history (snd s)) \<le> length (history (snd t))
    \<and> (\<forall>u. r = Returns u \<longrightarrow> qmgr (fst t) \<noteq> qmgr (fst s) \<and> held_unit L t = [])"
proof -
  let ?m = "seq (recover_connection_sync L b) (call_unit L (Sleep pause))"
  have ok: "preserves (conn_ok L) ?m" by (rule pres_rules pres_recover pres_pause)+
  have base: "held_unit L t = unit_base L s t"
    by (rule unit_untouched [where op = ?m])
      (use assms ok in \<open>auto intro!: pres_seq kept_recover kept_pause op_stable_recover op_stable_held\<close>)
  have len: "length (history (snd s)) \<le> length (history (snd t))"
    using adds_after_retry [of s L b] assms(2) by (auto simp: adds_def)
  have "qmgr (fst t) \<noteq> qmgr (fst s)" if r: "r = Returns u" for u
  proof -
    obtain s2 where "recover_connection_sync L b s = (Returns (), s2)" "call_unit L (Sleep pause) s2 = (Returns (), t)"
      using assms(2) r by (auto simp: seq_run)
    from recovered_attempt [OF assms(1) this] obtain q where q: "qmgr (fst t) = Some q" "length (history (snd s)) \<le> q"
      by blast
    have "q < length (history (snd s))" if "qmgr (fst s) = Some q"
      using assms(1) that by (simp add: conn_ok_defs)
    with q show ?thesis by auto
  qed
  then show ?thesis
    using base len preservesD [OF ok assms(1)] assms(2) by (auto simp: unit_base_def)
qed

text \<open>
  The retry wrapper: what one attempt does to the unit of work it finds, the operation does
  to the unit of its caller, or to the empty one of a new queue manager.
\<close>

lemma run_unit:
  assumes ok: "conn_ok L s" and run: "run_with_reconnect_sync L op b s = (r, t)"
    and once: "\<And>s r t. conn_ok L s \<Longrightarrow> op s = (r, t) \<Longrightarrow> conn_ok L t \<and> qmgr (fst t) = qmgr (fst s)
      \<and> length (history (snd s)) \<le> length (history (snd t))
      \<and> (case r of Returns x \<Rightarrow> R x (length (history (snd s))) (held_unit L s) t
         | _ \<Rightarrow> unit_left L P (length (history (snd s))) (held_unit L s) t)"
    and mono: "\<And>x n n' u t. R x n' u t \<Longrightarrow> n \<le> n' \<Longrightarrow> R x n u t"
  shows "case r of Returns x \<Rightarrow> R x (length (history (snd s))) (unit_base L s t) t
    | _ \<Rightarrow> unit_left L P (length (history (snd s))) (unit_base L s t) t"
proof (cases rule: load_ibmmq_cases [of L])
  case (2 m)
  then have "r = Raises (ImportError m)" "t = s"
    using run by (auto simp: run_with_reconnect_sync_def seq_apply load_apply)
  then show ?thesis by (simp add: unit_left_def unit_base_def)
next
  case 1
  obtain r1 s1 where op: "op s = (r1, s1)" by (cases "op s")
  note o1 = once [OF ok op]
  show ?thesis
  proof (cases "\<exists>e. r1 = Raises e \<and> reconnectable L e")
    case False
    then have "r = r1 \<and> t = s1"
      using run op by (cases r1) (auto simp: run_with_reconnect_apply [OF 1(1)])
    with o1 show ?thesis by (auto simp: unit_base_def split: outcome.splits)
  next
    case True
    then obtain e where e: "r1 = Raises e" "reconnectable L e" by blast
    let ?n = "length (history (snd s))"
    let ?m = "seq (recover_connection_sync L b) (call_unit L (Sleep pause))"
    obtain r2 s2 where m: "?m s1 = (r2, s2)" by (cases "?m s1")
    have ok1: "conn_ok L s1" and q1: "qmgr (fst s1) = qmgr (fst s)"
      and n1: "?n \<le> length (history (snd s1))" and left: "unit_left L P ?n (held_unit L s) s1"
      using o1 e by auto
    note rec = recovery_unit [OF ok1 m]
    have run2: "seq ?m op s1 = (r, t)"
      using run op e by (auto simp: run_with_reconnect_apply [OF 1(1)] seq_apply split: outcome.splits)
    show ?thesis
    proof (cases "\<exists>u. r2 = Returns u")
      case True
      then have op2: "op s2 = (r, t)" and new: "qmgr (fst s2) \<noteq> qmgr (fst s)" "held_unit L s2 = []"
        using run2 m rec q1 by (auto simp: seq_apply [of ?m])
      note o2 = once [OF conjunct1 [OF rec] op2]
      have "?n \<le> length (history (snd s2))" using n1 rec by linarith
      with o2 new show ?thesis
        by (auto simp: unit_base_def split: outcome.splits intro: mono unit_left_mono)
    next
      case False
      then have t: "t = s2" and r: "\<nexists>x. r = Returns x"
        using run2 m by (auto simp: seq_apply [of ?m] split: outcome.splits)
      have "unit_left L P ?n (unit_base L s s2) s2"
      proof (cases "qmgr (fst s2) = qmgr (fst s)")
        case True
        obtain k where "history (snd s2) = history (snd s1) @ k"
          using adds_after_retry [of s1 L b] m by (auto simp: adds_def)
        with True left rec q1 show ?thesis
          by (auto simp: unit_base_def unit_left_def unit_with_def nth_append)
      qed (use rec q1 in \<open>simp add: unit_base_def unit_left_def\<close>)
      with r t show ?thesis by (auto split: outcome.split)
    qed
  qed
qed

subsection \<open>One attempt\<close>

text \<open>The unit of \<open>q\<close> as it was, and as a call of an attempt may have left it.\<close>

definition unit_is :: "mqlib \<Rightarrow> nat \<Rightarrow> nat \<Rightarrow> nat list \<Rightarrow> cst \<Rightarrow> bool" where
  "unit_is L q n u s \<longleftrightarrow> q < n \<and> n \<le> length (history (snd s)) \<and> unit_of_work L q (history (snd s)) = u"

definition unit_moved :: "mqlib \<Rightarrow> (call \<Rightarrow> bool) \<Rightarrow> nat \<Rightarrow> nat \<Rightarrow> nat list \<Rightarrow> cst \<Rightarrow> bool" where
  "unit_moved L P q n u s \<longleftrightarrow> q < n \<and> n \<le> length (history (snd s))
     \<and> (unit_of_work L q (history (snd s)) = u \<or> unit_of_work L q (history (snd s)) = []
        \<or> (\<exists>j \<ge> n. j < length (history (snd s)) \<and> P (fst (history (snd s) ! j))
             \<and> unit_of_work L q (history (snd s)) = u @ [j]))"

abbreviation aside :: "mqlib \<Rightarrow> call \<Rightarrow> bool" where
  "aside L x \<equiv> outside_unit L x \<and> harmless x"

lemma unit_is_stable [simp]: "log_stable (aside L) (unit_is L q n u)"
  by (auto simp: log_stable_def unit_is_def unit_outside)

lemma unit_backout:
  "unit_of_work L q (h @ [(Backout q', b)]) = (if length h = q \<or> b \<and> q' = q then [] else unit_of_work L q h)"
  by (auto simp: unit_of_work_snoc joins_unit_def)

lemma unit_moved_stable [simp]: "log_stable (\<lambda>x. aside L x \<or> (\<exists>q'. x = Backout q')) (unit_moved L P q n u)"
proof -
  have same: "unit_moved L P q n u (c, record_call x b w)"
    if "unit_moved L P q n u (c, w)" "unit_of_work L q (history w @ [(x, b)]) \<in> {[], unit_of_work L q (history w)}"
    for c w x b
    using that unfolding unit_moved_def by (fastforce simp: nth_append)
  show ?thesis
    unfolding log_stable_def by (auto intro!: same simp: unit_outside unit_backout)
qed

lemma unit_stable_handle [simp]:
  "log_stable is_handle_call (unit_is L q n u)" "log_stable is_handle_call (unit_moved L P q n u)"
  by (rule log_stable_weaken [OF unit_is_stable] log_stable_weaken [OF unit_moved_stable]; simp)+

lemma spends_joins:
  "P x \<Longrightarrow> (\<And>q'. x \<noteq> Commit q' \<and> x \<noteq> Backout q' \<and> x \<noteq> Disconnect q') \<Longrightarrow>
     spends (unit_is L q n u) (unit_moved L P q n u) (on_world (call_lib ans x))"
  by (rule spendsI; cases x)
    (auto simp: prog_simps unit_is_def unit_moved_def unit_of_work_snoc split: sum.split)

lemma spends_publish_unit:
  "spends (unit_is L q n u) (unit_moved L is_put q n u) (publish_once L F cmd ser)"
  unfolding publish_once_def
  by (intro spends_later spends_try_finally spends_outside spends_seq_now spends_joins;
      (rule pres_rules unit_is_stable unit_moved_stable unit_stable_handle | simp)+)

lemma spends_get_unit:
  "spends (unit_is L q n u) (unit_moved L is_get q n u) (get_message_once L fuel t k)"
  unfolding get_message_once_def
  apply (rule spends_seq_later, rule pres_rules)
  apply (rule spends_bind_later, rule pres_rules, rule spends_seq_later, rule pres_rules)
  apply (rule spends_bind_later, rule pres_rules, rule spends_seq_later, rule pres_rules)
  apply (rule spends_bind_later, rule pres_rules, rule spends_bind_later,
      rule pres_rules, rule unit_is_stable, simp)
  apply (rule spends_bind_now, intro spends_try_except spends_bind_now spends_joins)
  apply (rule pres_rules unit_moved_stable unit_stable_handle | simp)+
  done

lemma unit_aside_all:
  "list_all (\<lambda>(x, b). aside L x) k \<Longrightarrow> q < length h \<Longrightarrow> unit_of_work L q (h @ k) = unit_of_work L q h"
proof (induction k rule: rev_induct)
  case (snoc y k)
  obtain x b where "y = (x, b)" by (cases y)
  with snoc show ?case
    using unit_outside [of L x q "h @ k" b] by auto
qed simp

lemma unit_joined:
  assumes "list_all (\<lambda>(x, b). aside L x) k1" and "list_all (\<lambda>(x, b). aside L x) k2" and "q < length h"
    and "syncpoint_handle L x = Some i" and "opened_on (h @ k1) q i"
  shows "unit_of_work L q (h @ k1 @ [(x, True)] @ k2) = unit_of_work L q h @ [length (h @ k1)]"
proof -
  have "ends_unit q (x, True) = False" using assms(4) by (cases x) auto
  then have "unit_of_work L q ((h @ k1) @ [(x, True)]) = unit_of_work L q (h @ k1) @ [length (h @ k1)]"
    using assms(3-5) by (simp add: unit_of_work_snoc joins_unit_def del: append_assoc)
  then show ?thesis
    using unit_aside_all [OF assms(2), of q "(h @ k1) @ [(x, True)]"] unit_aside_all [OF assms(1,3)] assms(3) by simp
qed

lemma opened_on_append [simp]: "opened_on h q i \<Longrightarrow> opened_on (h @ k) q i"
  by (auto simp: opened_on_def nth_append)

lemma moved_left: "(\<And>q. qmgr (fst t) = Some q \<Longrightarrow> unit_moved L P q n u t) \<Longrightarrow> unit_left L P n u t"
  by (cases "qmgr (fst t)") (auto simp: unit_left_def unit_with_def unit_moved_def held_unit_def)

text \<open>What is common to the attempts: they leave the connection object alone.\<close>

lemma attempt_left:
  assumes "conn_ok L s" and "op s = (r, t)" and keeps: "\<And>I. log_stable is_message_call I \<Longrightarrow> preserves I op"
    and moves: "\<And>q n u. spends (unit_is L q n u) (unit_moved L P q n u) op"
  shows "conn_ok L t \<and> fst t = fst s \<and> length (history (snd s)) \<le> length (history (snd t))
    \<and> unit_left L P (length (history (snd s))) (held_unit L s) t"
proof -
  have ok: "preserves (conn_ok L) op" by (rule keeps) simp
  have same: "preserves (\<lambda>s'. fst s' = fst s) op" by (rule keeps) (simp add: log_stable_def)
  have len: "preserves (\<lambda>s'. N \<le> length (history (snd s'))) op" for N by (rule keeps) (simp add: log_stable_def)
  have fst: "fst t = fst s" using preservesD [OF same, of s] assms(2) by simp
  have "unit_moved L P q (length (history (snd s))) (held_unit L s) t" if "qmgr (fst t) = Some q" for q
  proof -
    have "live_qmgr (history (snd s)) q" using assms(1) that fst by (simp add: conn_ok_defs)
    then have "unit_is L q (length (history (snd s))) (held_unit L s) s"
      using that fst by (simp add: unit_is_def held_unit_def)
    from spendsD [OF moves this] assms(2) show ?thesis by simp
  qed
  then show ?thesis
    using preservesD [OF ok assms(1)] preservesD [OF len, of "length (history (snd s))" s] assms(2) fst
    by (auto intro: moved_left)
qed

lemma or_and_bit: "(a OR b OR c) AND b = b" "(a OR b) AND b = b" for a b c :: int
  by (rule bit_eqI; auto simp: bit_simps)+

lemma syncpoint_get:
  "syncpoint_bits L \<Longrightarrow> syncpoint_handle L (Get i m (unit_of_work_get L wi h)) = Some i"
  by (simp add: syncpoint_bits_def unit_of_work_get_def or_and_bit)

lemma syncpoint_put:
  "syncpoint_bits L \<Longrightarrow> syncpoint_handle L (Put i b m
     \<lparr>pmo_Options = new_pmo_Options L OR MQPMO_SYNCPOINT (CMQC L), pmo_OriginalMsgHandle = h\<rparr>) = Some i"
  by (simp add: syncpoint_bits_def or_and_bit)

lemma aside_properties: "list_all (\<lambda>(x, b). aside L x) (map (\<lambda>x. (x, True)) (map (property_call F h) hs))"
  by (induction hs) (simp_all add: property_call_def)

lemma held_unit_same: "fst t = fst s \<Longrightarrow> qmgr (fst s) = Some q \<Longrightarrow> held_unit L t = unit_of_work L q (history (snd t))"
  by (simp add: held_unit_def)

lemma publish_attempt:
  assumes L: "syncpoint_bits L" and "syncpoint cmd" and ok: "conn_ok L s" and run: "publish_once L F cmd ser s = (r, t)"
  shows "case r of Returns x \<Rightarrow> unit_with L is_put (length (history (snd s))) (held_unit L s) t
    | _ \<Rightarrow> unit_left L is_put (length (history (snd s))) (held_unit L s) t"
proof (cases r)
  case (Returns x)
  let ?n = "length (history (snd s))"
  obtain q b ct m where q: "qmgr (fst s) = Some q"
    and t: "t = (fst s, record_all (publish_calls L F cmd q ?n b (headers_to_publish cmd ct) m) (snd s))"
    using publish_once_run [OF run [unfolded Returns]] by blast
  let ?hs = "headers_to_publish cmd ct"
  let ?open = "OpenQueue q (destination cmd) (MQOO_OUTPUT (CMQC L))"
  let ?put = "Put ?n b m \<lparr>pmo_Options = new_pmo_Options L OR MQPMO_SYNCPOINT (CMQC L),
      pmo_OriginalMsgHandle = (if ?hs = [] then None else Some (?n + 1))\<rparr>"
  define k1 where "k1 = ?open # (if ?hs = [] then [] else NewMessageHandle q # map (property_call F (?n + 1)) ?hs)"
  define k2 where "k2 = CloseQueue ?n # (if ?hs = [] then [] else [DeleteHandle (?n + 1)])"
  have calls: "publish_calls L F cmd q ?n b ?hs m = k1 @ [?put] @ k2"
    using assms(2) by (simp add: publish_calls_def k1_def k2_def Let_def)
  let ?k1 = "map (\<lambda>x. (x, True)) k1" and ?k2 = "map (\<lambda>x. (x, True)) k2"
  have h: "history (snd t) = history (snd s) @ ?k1 @ [(?put, True)] @ ?k2"
    by (simp add: t calls)
  have fst_t: "fst t = fst s" by (simp add: t)
  have "q < ?n" using ok q by (simp add: conn_ok_defs)
  moreover have "list_all (\<lambda>(x, b). aside L x) ?k1" "list_all (\<lambda>(x, b). aside L x) ?k2"
    using aside_properties [of L F "?n + 1" ?hs] by (simp_all add: k1_def k2_def)
  moreover have "opened_on (history (snd s) @ ?k1) q ?n"
    by (simp add: opened_on_def nth_append k1_def)
  ultimately have "unit_of_work L q (history (snd t))
      = unit_of_work L q (history (snd s)) @ [length (history (snd s) @ ?k1)]"
    unfolding h by (intro unit_joined [OF _ _ _ syncpoint_put [OF L]])
  then have "unit_with L is_put ?n (held_unit L s) t"
    using q fst_t unfolding unit_with_def
    by (intro exI [of _ "length (history (snd s) @ ?k1)"])
      (simp add: h nth_append held_unit_def)
  with Returns show ?thesis by simp
qed (use attempt_left [OF ok run pres_publish_once spends_publish_unit] in simp_all)

lemma get_attempt:
  assumes L: "syncpoint_bits L" and ok: "conn_ok L s" and run: "get_message_once L fuel tm k s = (r, t)"
  shows "case r of
      Returns x \<Rightarrow> (case x of None \<Rightarrow> held_unit L t = held_unit L s
        | Some m \<Rightarrow> unit_with L is_get (length (history (snd s))) (held_unit L s) t)
    | _ \<Rightarrow> unit_left L is_get (length (history (snd s))) (held_unit L s) t"
proof (cases r)
  case (Returns x)
  let ?h = "history (snd s)"
  obtain q cq wi where q: "qmgr (fst s) = Some q" and cq: "consumer_queue (fst s) = Some cq" and t: "fst t = fst s"
    and x: "case x of None \<Rightarrow> no_message L wi q cq (snd s) (history (snd t))
       | Some msg \<Rightarrow> \<exists>b m hs. message_got L wi q cq b m (snd s) (history (snd t))
           \<and> build_raw_message L b m hs (consumer_queue_name (fst s)) (Some (self_id (fst s))) = Inr msg"
    using get_message_once_run [OF run [unfolded Returns]] by blast
  have less: "q < length ?h" using ok q by (simp add: conn_ok_defs)
  have opened: "opened_on ?h q cq"
    using ok q cq by (auto simp: conn_ok_defs open_input_def opened_on_def)
  show ?thesis
  proof (cases x)
    case None
    with x have "history (snd t) = ?h @ [(NewMessageHandle q, True)]
        @ [(Get cq (new_md L) (unit_of_work_get L wi (length ?h)), False)] @ [(DeleteHandle (length ?h), True)]"
      by (simp add: no_message_def Let_def)
    then have "unit_of_work L q (history (snd t)) = unit_of_work L q ?h"
      using less by (simp add: unit_of_work_def joins_unit_def)
    with None Returns show ?thesis using q t by (simp add: held_unit_def)
  next
    case (Some msg)
    with x obtain b m where "message_got L wi q cq b m (snd s) (history (snd t))" by auto
    then obtain ps where h: "history (snd t) = ?h @ [(NewMessageHandle q, True)]
        @ [(Get cq (new_md L) (unit_of_work_get L wi (length ?h)), True)] @ ps @ [(DeleteHandle (length ?h), True)]"
      and ps: "list_all (\<lambda>(x, b). is_get_property (length ?h) x) ps"
      by (auto simp: message_got_def Let_def)
    have "aside L x" if "is_get_property i x" for i x using that by (cases x) simp_all
    with ps have "list_all (\<lambda>(x, b). aside L x) (ps @ [(DeleteHandle (length ?h), True)])"
      by (auto simp: list_all_iff)
    then have "unit_of_work L q (history (snd t)) = unit_of_work L q ?h @ [length (?h @ [(NewMessageHandle q, True)])]"
      unfolding h by (intro unit_joined [OF _ _ less syncpoint_get [OF L]] opened_on_append opened) simp_all
    then have "unit_with L is_get (length ?h) (held_unit L s) t"
      using q t unfolding unit_with_def
      by (intro exI [of _ "length (?h @ [(NewMessageHandle q, True)])"]) (simp add: h nth_append held_unit_def)
    with Some Returns show ?thesis by simp
  qed
qed (use attempt_left [OF ok run pres_get_message_once spends_get_unit] in simp_all)

lemma settle_attempt:
  assumes f: "f = Commit \<or> f = Backout" and ok: "conn_ok L s" and run: "on_qmgr L f s = (r, t)"
  shows "conn_ok L t \<and> fst t = fst s \<and> length (history (snd s)) \<le> length (history (snd t))
    \<and> (case r of Returns x \<Rightarrow> held_unit L t = [] | _ \<Rightarrow> held_unit L t = held_unit L s)"
proof -
  have "harmless (f q)" for q using f by auto
  then have "preserves (conn_ok L) (on_qmgr L f)" by (intro pres_on_qmgr [OF log_stable_conn_ok])
  moreover have "q < length (history (snd s))" if "qmgr (fst s) = Some q" for q using ok that by (simp add: conn_ok_defs)
  ultimately show ?thesis
    using preservesD [of "conn_ok L" "on_qmgr L f" s] ok run f
    by (auto simp: on_qmgr_def prog_simps held_unit_def unit_of_work_snoc joins_unit_def split: sum.splits if_splits)
qed

subsection \<open>The operations\<close>

lemma held_pres:
  "preserves (held_since N q0) (connect L)" "preserves (held_since N q0) (disconnect L)"
  "preserves (held_since N q0) (start_consumer L n)" "preserves (held_since N q0) (stop_consumer L)"
  "preserves (held_since N q0) (ping L)" "preserves (held_since N q0) (publish L F cmd ser)"
  "preserves (held_since N q0) (request L F fuel cmd ser)"
  by (rule op_stable_operations [OF op_stable_held])+

lemma kept_disconnect: "preserves (in_kept L N q0 u) (disconnect L)"
  unfolding disconnect_def disconnect_sync_def
  by (rule pres_bind pres_getc pres_if pres_ret pres_try_finally pres_seq pres_link_safe_close [OF link_stable_kept]
      pres_link_safe_disconnect [OF link_stable_kept] pres_link_cleanup [OF link_stable_kept] pres_updc | simp)+

lemma untouched_operations:
  assumes "conn_ok L s"
  shows "connect L s = (r, t) \<Longrightarrow> held_unit L t = unit_base L s t"
    and "start_consumer L n s = (r, t) \<Longrightarrow> held_unit L t = unit_base L s t"
    and "stop_consumer L s = (r, t) \<Longrightarrow> held_unit L t = unit_base L s t"
    and "disconnect L s = (r, t) \<Longrightarrow> held_unit L t = unit_base L s t"
    and "ping L s = (r', t) \<Longrightarrow> held_unit L t = unit_base L s t"
    and "syncpoint_bits L \<Longrightarrow> \<not> syncpoint cmd \<Longrightarrow> publish L F cmd ser s = (r, t) \<Longrightarrow> held_unit L t = unit_base L s t"
    and "syncpoint_bits L \<Longrightarrow> request L F fuel cmd ser s = (r'', t) \<Longrightarrow> held_unit L t = unit_base L s t"
  by (erule unit_untouched [OF assms]; intro connection_operations_ok held_pres kept_connection kept_disconnect
      kept_publish kept_request; assumption)+

lemma started_unit:
  assumes "started m s = (r, t)" and "\<not> executor (fst s) \<Longrightarrow> Q (Raises (AssertionError ''Connection is not started yet.'')) s"
    and "m s = (r, t) \<Longrightarrow> Q r t"
  shows "Q r t"
  using assms by (cases "executor (fst s)") (auto simp: started_def prog_simps)

lemma get_unit:
  assumes "syncpoint_bits L" and "conn_ok L s" and "get_message L fuel tm k s = (r, t)"
  shows "case r of
      Returns x \<Rightarrow> (case x of None \<Rightarrow> held_unit L t = unit_base L s t
        | Some m \<Rightarrow> unit_with L is_get (length (history (snd s))) (unit_base L s t) t)
    | _ \<Rightarrow> unit_left L is_get (length (history (snd s))) (unit_base L s t) t"
  using assms(3) unfolding get_message_def
proof (rule started_unit)
  assume "get_message_sync L fuel tm k s = (r, t)"
  then show ?thesis unfolding get_message_sync_def
  proof (rule run_unit [OF assms(2), where R = "\<lambda>x n u t. case x of None \<Rightarrow> held_unit L t = u
        | Some m \<Rightarrow> unit_with L is_get n u t"])
    fix s r t assume "conn_ok L s" and "get_message_once L fuel tm k s = (r, t)"
    then show "conn_ok L t \<and> qmgr (fst t) = qmgr (fst s) \<and> length (history (snd s)) \<le> length (history (snd t))
      \<and> (case r of Returns x \<Rightarrow> (case x of None \<Rightarrow> held_unit L t = held_unit L s
            | Some m \<Rightarrow> unit_with L is_get (length (history (snd s))) (held_unit L s) t)
         | _ \<Rightarrow> unit_left L is_get (length (history (snd s))) (held_unit L s) t)"
      using attempt_left [OF _ _ pres_get_message_once spends_get_unit] get_attempt [OF assms(1)] by metis
  qed (auto split: option.splits intro: unit_with_mono)
qed (simp add: unit_left_def unit_base_def)

lemma publish_unit:
  assumes "syncpoint_bits L" and "syncpoint cmd" and "conn_ok L s" and "publish L F cmd ser s = (r, t)"
  shows "case r of Returns x \<Rightarrow> unit_with L is_put (length (history (snd s))) (unit_base L s t) t
    | _ \<Rightarrow> unit_left L is_put (length (history (snd s))) (unit_base L s t) t"
  using assms(4) unfolding publish_def
proof (rule started_unit)
  assume "publish_sync L F cmd ser s = (r, t)"
  then have "run_with_reconnect_sync L (publish_once L F cmd ser) (consumer_queue_name (fst s) \<noteq> []) s = (r, t)"
    by (simp add: publish_sync_def prog_simps)
  then show ?thesis
  proof (rule run_unit [OF assms(3), where R = "\<lambda>x n u t. unit_with L is_put n u t"])
    fix s r t assume "conn_ok L s" and "publish_once L F cmd ser s = (r, t)"
    then show "conn_ok L t \<and> qmgr (fst t) = qmgr (fst s) \<and> length (history (snd s)) \<le> length (history (snd t))
      \<and> (case r of Returns x \<Rightarrow> unit_with L is_put (length (history (snd s))) (held_unit L s) t
         | _ \<Rightarrow> unit_left L is_put (length (history (snd s))) (held_unit L s) t)"
      using attempt_left [OF _ _ pres_publish_once spends_publish_unit] publish_attempt [OF assms(1,2)] by metis
  qed (auto intro: unit_with_mono)
qed (simp add: unit_left_def unit_base_def)

lemma settle_unit:
  assumes "conn_ok L s" and "commit L s = (r, t) \<or> backout L s = (r, t)"
  shows "case r of Returns x \<Rightarrow> held_unit L t = [] | _ \<Rightarrow> held_unit L t = unit_base L s t \<or> held_unit L t = []"
proof -
  obtain f where f: "f = Commit \<or> f = Backout"
    and run: "started (run_with_reconnect_sync L (on_qmgr L f) (consumer_queue_name (fst s) \<noteq> [])) s = (r, t)"
    using assms(2) unfolding settle_as_run by blast
  from run show ?thesis
  proof (rule started_unit)
    assume "run_with_reconnect_sync L (on_qmgr L f) (consumer_queue_name (fst s) \<noteq> []) s = (r, t)"
    then have "case r of Returns x \<Rightarrow> held_unit L t = [] | _ \<Rightarrow> unit_left L (\<lambda>_. False) (length (history (snd s))) (unit_base L s t) t"
    proof (rule run_unit [OF assms(1), where R = "\<lambda>x n u t. held_unit L t = []"])
      fix s r t assume "conn_ok L s" and "on_qmgr L f s = (r, t)"
      from settle_attempt [OF f this] show "conn_ok L t \<and> qmgr (fst t) = qmgr (fst s)
          \<and> length (history (snd s)) \<le> length (history (snd t))
          \<and> (case r of Returns x \<Rightarrow> held_unit L t = [] | _ \<Rightarrow> unit_left L (\<lambda>_. False) (length (history (snd s))) (held_unit L s) t)"
        by (auto simp: unit_left_def split: outcome.splits)
    qed simp
    then show ?thesis by (auto simp: unit_left_def unit_with_def split: outcome.splits)
  qed (simp add: unit_base_def)
qed

text \<open>
  C2. The connection implements a unit of work. Every operation finds the unit of its
  caller, or, when it had to reconnect, the empty one of a new queue manager. To that unit
  a \<open>get_message\<close> that returns a message adds exactly its get and a publication under
  syncpoint exactly its put; a get without a message, a publication without syncpoint, a
  request and its reply, and everything else leave it as it is; after a commit or backout
  that returned it is empty. An operation that fails has at most added its own call.
\<close>

theorem unit_of_work_refined:
  assumes "syncpoint_bits L" and "conn_ok L s"
  shows "(case get_message L fuel tm k s of (r, t) \<Rightarrow> case r of
        Returns x \<Rightarrow> (case x of None \<Rightarrow> held_unit L t = unit_base L s t
          | Some m \<Rightarrow> unit_with L is_get (length (history (snd s))) (unit_base L s t) t)
      | _ \<Rightarrow> unit_left L is_get (length (history (snd s))) (unit_base L s t) t)
    \<and> (case publish L F cmd ser s of (r, t) \<Rightarrow>
        if \<not> syncpoint cmd then held_unit L t = unit_base L s t else (case r of
          Returns x \<Rightarrow> unit_with L is_put (length (history (snd s))) (unit_base L s t) t
        | _ \<Rightarrow> unit_left L is_put (length (history (snd s))) (unit_base L s t) t))
    \<and> (\<forall>settle \<in> {commit L, backout L}. case settle s of (r, t) \<Rightarrow> case r of
          Returns x \<Rightarrow> held_unit L t = []
        | _ \<Rightarrow> held_unit L t = unit_base L s t \<or> held_unit L t = [])
    \<and> (\<forall>other \<in> {connect L, start_consumer L q, stop_consumer L, disconnect L}.
        case other s of (r, t) \<Rightarrow> held_unit L t = unit_base L s t)
    \<and> (case request L F fuel cmd' ser s of (r, t) \<Rightarrow> held_unit L t = unit_base L s t)
    \<and> (case ping L s of (r, t) \<Rightarrow> held_unit L t = unit_base L s t)"
proof (intro conjI ballI)
  show "case get_message L fuel tm k s of (r, t) \<Rightarrow> case r of
        Returns x \<Rightarrow> (case x of None \<Rightarrow> held_unit L t = unit_base L s t
          | Some m \<Rightarrow> unit_with L is_get (length (history (snd s))) (unit_base L s t) t)
      | _ \<Rightarrow> unit_left L is_get (length (history (snd s))) (unit_base L s t) t"
    using get_unit [OF assms] by blast
  show "case publish L F cmd ser s of (r, t) \<Rightarrow>
        if \<not> syncpoint cmd then held_unit L t = unit_base L s t else (case r of
          Returns x \<Rightarrow> unit_with L is_put (length (history (snd s))) (unit_base L s t) t
        | _ \<Rightarrow> unit_left L is_put (length (history (snd s))) (unit_base L s t) t)"
    using publish_unit [OF assms(1) _ assms(2)] untouched_operations(6) [OF assms(2,1)]
    by (auto split: prod.split)
qed (use settle_unit [OF assms(2)] untouched_operations [OF assms(2)] assms(1) in \<open>auto split: prod.split\<close>)

lemma sample_syncpoint_bits: "syncpoint_bits (sample_lib faults)"
  by (rule documented_syncpoint_bits) (simp_all add: sample_lib_def)

theorem unit_of_work_refined_witness:
  "\<exists>j. held_unit (sample_lib no_faults) (snd (get_message (sample_lib no_faults) 2 (Fin 1 0) 64 sample_started)) = [j]
     \<and> held_unit (sample_lib no_faults) (snd (commit (sample_lib no_faults)
         (snd (get_message (sample_lib no_faults) 2 (Fin 1 0) 64 sample_started)))) = []"
proof -
  let ?L = "sample_lib no_faults"
  let ?x = "get_message ?L 2 (Fin 1 0) 64 sample_started"
  have x: "case ?x of (Returns (Some m), t) \<Rightarrow> qmgr (fst t) = qmgr (fst sample_started) | _ \<Rightarrow> False"
    and c: "is_returns (fst (commit ?L (snd ?x)))" and u: "held_unit ?L sample_started = []"
    by code_simp+
  obtain m t where m: "?x = (Returns (Some m), t)" "qmgr (fst t) = qmgr (fst sample_started)"
    using x by (cases ?x) (auto split: outcome.splits option.splits)
  from unit_of_work_refined [where fuel = 2 and tm = "Fin 1 0" and k = 64,
      OF sample_syncpoint_bits conn_ok_sample_started, THEN conjunct1, of no_faults] m u
  have "\<exists>j. held_unit ?L t = [j]" by (auto simp: unit_base_def unit_with_def)
  moreover have ok: "conn_ok ?L t"
    using preservesD [OF pres_message_ok(1) conn_ok_sample_started, of no_faults 2 "Fin 1 0" 64] m by simp
  have "is_returns (fst (commit ?L t))" using c m by simp
  then obtain v t' where t': "commit ?L t = (Returns v, t')"
    using is_returns_pair by blast
  with unit_of_work_refined [OF sample_syncpoint_bits ok, THEN conjunct2, THEN conjunct2, THEN conjunct1] have "held_unit ?L t' = []" by simp
  ultimately show ?thesis using m t' by simp
qed

section \<open>A reply after the settlement\<close>

text \<open>
  C11. A reply that follows the settlement of its message waits for another one. When the
  message has been committed or backed out and a reply is then published under syncpoint
  on the connection, the put is all there is in the unit of work, and no call has
  committed it; the next message that is got joins it there, and what settles that message
  settles the reply with it, a backout takes it back.
\<close>

theorem late_reply_waits:
  assumes L: "syncpoint_bits L" and ok: "conn_ok L s"
    and settled: "commit L s = (Returns u, s1) \<or> backout L s = (Returns u, s1)"
    and reply: "syncpoint cmd" "publish L F cmd ser s1 = (Returns v, t)"
  shows "\<exists>j \<ge> length (history (snd s1)). is_put (fst (history (snd t) ! j)) \<and> held_unit L t = [j]
    \<and> (\<forall>fuel tm k m t1. get_message L fuel tm k t = (Returns (Some m), t1) \<and> qmgr (fst t1) = qmgr (fst t) \<longrightarrow>
         (\<exists>i. is_get (fst (history (snd t1) ! i)) \<and> held_unit L t1 = [j, i]))"
proof -
  have s1: "conn_ok L s1" "held_unit L s1 = []"
    using settled preservesD [OF pres_transaction_ok(1) ok] preservesD [OF pres_transaction_ok(2) ok]
      settle_unit [OF ok settled] by auto
  have t: "conn_ok L t" using preservesD [OF pres_message_ok(2) [of L F cmd ser] s1(1)] reply(2) by simp
  from publish_unit [OF L reply(1) s1(1) reply(2)] s1(2) obtain j
    where j: "length (history (snd s1)) \<le> j" "is_put (fst (history (snd t) ! j))" "held_unit L t = [j]"
    by (auto simp: unit_with_def unit_base_def)
  moreover have "\<exists>i. is_get (fst (history (snd t1) ! i)) \<and> held_unit L t1 = [j, i]"
    if "get_message L fuel tm k t = (Returns (Some m), t1)" "qmgr (fst t1) = qmgr (fst t)" for fuel tm k m t1
    using get_unit [OF L t that(1)] that(2) j(3) by (auto simp: unit_with_def unit_base_def)
  ultimately show ?thesis by (intro exI [of _ j]) blast
qed

theorem late_reply_waits_witness:
  "case commit (sample_lib no_faults) sample_started of (_, s1) \<Rightarrow>
     case publish (sample_lib no_faults) sample_fslib (sample_cmd\<lparr>syncpoint := True\<rparr>) None s1 of (_, t) \<Rightarrow>
       \<exists>j. held_unit (sample_lib no_faults) t = [j] \<and> is_put (fst (history (snd t) ! j))"
proof -
  let ?L = "sample_lib no_faults" and ?cmd = "sample_cmd\<lparr>syncpoint := True\<rparr>"
  have r: "is_returns (fst (commit ?L sample_started))"
      "is_returns (fst (publish ?L sample_fslib ?cmd None (snd (commit ?L sample_started))))"
    by code_simp+
  obtain u s1 where s1: "commit ?L sample_started = (Returns u, s1)" using r(1) is_returns_pair by blast
  moreover obtain v t where t: "publish ?L sample_fslib ?cmd None s1 = (Returns v, t)"
    using r(2) s1 is_returns_pair by fastforce
  moreover have "syncpoint ?cmd" by simp
  ultimately show ?thesis
    using late_reply_waits [OF sample_syncpoint_bits conn_ok_sample_started disjI1 [OF s1] _ t] by auto
qed

end
