(* ===== verification/MQ_Store_Props.thy ===== *)
theory MQ_Store_Props
  imports MQ_Subscriber_Props MQ_Testing
begin

text \<open>
  The types of the objects a process shares. Python checks none of the annotations of
  \<open>faststream_mq/message.py\<close> and \<open>subscriber/usecase.py\<close>; what they promise of identifiers,
  headers, connections and handed-out messages holds of every state that producers,
  subscribers, settlements and the test broker can reach together.
\<close>

section \<open>Results\<close>

text \<open>A program that keeps \<open>I\<close> and whose value, when it returns one, satisfies \<open>Q\<close>.\<close>

definition yields :: "('s \<Rightarrow> bool) \<Rightarrow> ('a \<Rightarrow> bool) \<Rightarrow> ('s, 'a) prog \<Rightarrow> bool" where
  "yields I Q m \<longleftrightarrow> preserves I m \<and> (\<forall>s x. I s \<longrightarrow> fst (m s) = Returns x \<longrightarrow> Q x)"

lemma yieldsD: "yields I Q m \<Longrightarrow> I s \<Longrightarrow> m s = (Returns x, t) \<Longrightarrow> I t \<and> Q x"
  unfolding yields_def preserves_def by (metis fst_conv snd_conv)

lemma yields_preserves: "yields I Q m \<Longrightarrow> preserves I m"
  by (simp add: yields_def)

lemma yields_any: "preserves I m \<Longrightarrow> yields I (\<lambda>_. True) m"
  by (simp add: yields_def)

lemma yields_bind:
  assumes "yields I R m" and "\<And>x. R x \<Longrightarrow> yields I Q (k x)"
  shows "yields I Q (bind m k)"
  unfolding yields_def preserves_def
proof (intro conjI allI impI)
  fix s assume s: "I s"
  note m = yields_preserves [OF assms(1), THEN preservesD, OF s]
  show "I (snd (bind m k s))"
  proof (cases "fst (m s)")
    case (Returns x)
    then have "R x" using assms(1) s by (simp add: yields_def)
    from yields_preserves [OF assms(2) [OF this], THEN preservesD, OF m] Returns
    show ?thesis by (simp add: bind_apply)
  qed (use m in \<open>simp_all add: bind_apply\<close>)
  fix y assume "fst (bind m k s) = Returns y"
  then obtain x where x: "fst (m s) = Returns x" "fst (k x (snd (m s))) = Returns y"
    by (cases "fst (m s)") (auto simp: bind_apply)
  then have "R x" using assms(1) s by (simp add: yields_def)
  from assms(2) [OF this] m x show "Q y" by (simp add: yields_def)
qed

lemma yields_seq: "preserves I m \<Longrightarrow> yields I Q k \<Longrightarrow> yields I Q (seq m k)"
  unfolding seq_def by (rule yields_bind [OF yields_any])

lemma yields_bind_any: "preserves I m \<Longrightarrow> (\<And>x. yields I Q (k x)) \<Longrightarrow> yields I Q (bind m k)"
  by (rule yields_bind [OF yields_any])

lemma yields_ret: "Q x \<Longrightarrow> yields I Q (ret x)"
  by (auto simp: yields_def prog_simps intro: pres_ret)

lemma yields_throw: "yields I Q (throw e)"
  by (auto simp: yields_def prog_simps intro: pres_throw)

lemma yields_out_of_fuel: "yields I Q out_of_fuel"
  by (auto simp: yields_def prog_simps intro: pres_out_of_fuel)

lemma yields_lift_sum: "(\<And>x. r = Inr x \<Longrightarrow> Q x) \<Longrightarrow> yields I Q (lift_sum r)"
  by (auto simp: yields_def prog_simps intro: pres_lift_sum split: sum.splits)

lemma yields_getc: "(\<And>s. I s \<Longrightarrow> Q (f (fst s))) \<Longrightarrow> yields I Q (getc f)"
  by (auto simp: yields_def prog_simps intro: pres_getc)

lemma yields_try_except:
  assumes "yields I Q m" and "\<And>e. yields I Q (h e)"
  shows "yields I Q (try_except m h)"
  using assms unfolding yields_def
  by (auto intro: pres_try_except simp: try_except_apply dest: preservesD split: outcome.splits)

lemma yields_try_finally:
  assumes "yields I Q m" and "preserves I f"
  shows "yields I Q (try_finally m f)"
  using assms unfolding yields_def
  by (auto intro: pres_try_finally simp: try_finally_apply prog_simps split: outcome.splits)

lemma yields_if: "(b \<Longrightarrow> yields I Q m) \<Longrightarrow> (\<not> b \<Longrightarrow> yields I Q k) \<Longrightarrow> yields I Q (if b then m else k)"
  by simp

lemma yields_case_option:
  "(v = None \<Longrightarrow> yields I Q m) \<Longrightarrow> (\<And>x. v = Some x \<Longrightarrow> yields I Q (k x)) \<Longrightarrow>
     yields I Q (case v of None \<Rightarrow> m | Some x \<Rightarrow> k x)"
  by (cases v) auto

lemma yields_case_prod: "(\<And>x y. p = (x, y) \<Longrightarrow> yields I Q (f x y)) \<Longrightarrow> yields I Q (case p of (x, y) \<Rightarrow> f x y)"
  by (cases p) auto

lemma yields_case_exn:
  "(\<And>r n. yields I Q (f r n)) \<Longrightarrow> yields I Q d \<Longrightarrow> yields I Q (case e of MQMIError r n \<Rightarrow> f r n | _ \<Rightarrow> d)"
  by (cases e) auto

lemma yields_frame: "yields (\<lambda>sl. I (fst sl)) Q m \<Longrightarrow> yields I Q (with_frame l m)"
  unfolding yields_def by (auto intro: pres_with_frame simp: with_frame_apply)

lemma yields_outside: "yields I Q m \<Longrightarrow> yields (\<lambda>sl. I (fst sl)) Q (outside m)"
  unfolding yields_def by (auto intro: pres_outside simp: outside_apply)

lemma yields_weaken: "yields I R m \<Longrightarrow> (\<And>x. R x \<Longrightarrow> Q x) \<Longrightarrow> yields I Q m"
  by (auto simp: yields_def)

lemmas yields_rules = yields_ret yields_throw yields_out_of_fuel yields_try_except yields_try_finally
  yields_if yields_case_option yields_case_prod yields_case_exn

section \<open>The type of a raw message\<close>

lemma normal_id_hex: "mq_id_bytes bs \<Longrightarrow> normal_id (Some (to_hex bs))"
  by (auto simp: normal_id_def)

lemma normal_id_parsed: "normal_id (try_parse_mq_id v)"
  by (cases "try_parse_mq_id v") (auto simp: normal_id_def elim!: try_parse_SomeE)

text \<open>The part that never changes, and a settlement nobody waits for any more.\<close>

definition well_built :: "MQRawMessage \<Rightarrow> bool" where
  "well_built m \<longleftrightarrow> normal_id (raw_message_id m) \<and> normal_id (raw_correlation_id m)
     \<and> dict_ok (raw_headers m)"

definition raw_typed :: "nat \<Rightarrow> MQRawMessage \<Rightarrow> bool" where
  "raw_typed n m \<longleftrightarrow> well_built m \<and> pred_option (\<lambda>c. c < n) (connection m)
     \<and> (settled m \<noteq> None \<longrightarrow> settled_event m)"

definition fresh_message :: "nat option \<Rightarrow> MQRawMessage \<Rightarrow> bool" where
  "fresh_message c m \<longleftrightarrow> well_built m \<and> connection m = c \<and> settled m = None"

lemma build_raw_message_fresh:
  assumes "build_raw_message L b m hs q c = Inr msg" and "dict_ok hs"
  shows "fresh_message c msg"
proof -
  have or: "normal_id (or_else (try_parse_mq_id v) (try_parse_mq_id v'))" for v v'
    using normal_id_parsed [of v] normal_id_parsed [of v'] by (auto simp: or_else_def split: option.split)
  show ?thesis
    using assms by (auto simp: build_raw_message_def Let_def fresh_message_def well_built_def or split: sum.splits)
qed

text \<open>A connection never changes who it is.\<close>

abbreviation is_connection :: "nat \<Rightarrow> cst \<Rightarrow> bool" where
  "is_connection i \<equiv> (\<lambda>s. self_id (fst s) = i)"

lemma link_stable_identity: "link_stable (is_connection i)"
  by (simp add: link_stable_def log_stable_def tls_blind_def)

lemma op_stable_identity: "op_stable L (is_connection i)"
  using link_stable_identity [of i]
  by (auto simp: op_stable_def log_stable_def tls_blind_def intro: pres_link_connect_sync pres_link_safe_disconnect)

lemma log_stable_identity [simp]: "log_stable P (is_connection i)"
  by (simp add: log_stable_def)

lemma read_headers_loop_dict:
  "dict_ok hs \<Longrightarrow> yields (is_connection i) dict_ok (read_headers_loop L fuel h n opts hs)"
proof (induction fuel arbitrary: opts hs)
  case (Suc fuel)
  show ?case
    unfolding read_headers_loop.simps
    by (intro yields_bind_any pres_next_property yields_rules pres_lift_sum Suc.IH) (use Suc.prems in auto)
qed (simp add: yields_out_of_fuel)

lemma read_headers_dict: "yields (is_connection i) dict_ok (read_headers L fuel h n)"
  unfolding read_headers_def
  by (intro yields_seq pres_load read_headers_loop_dict) (simp add: dict_ok_def)

lemma headers_read_dict:
  "yields (is_connection i) dict_ok
     (try_finally (try_except (read_headers L fuel h n)
        (\<lambda>e. if is_exception e then seq (on_qmgr L Backout) (throw e) else throw e))
      (call_unit L (DeleteHandle h')))"
  by (intro yields_rules yields_seq read_headers_dict pres_call_unit [of is_message_call]
      pres_on_qmgr [of is_message_call]) simp_all

lemma own_identity: "yields (is_connection i) (\<lambda>x. x = i) (getc self_id)"
  by (rule yields_getc) simp

lemma built_fresh:
  "dict_ok hs \<Longrightarrow> yields I (fresh_message c) (lift_sum (build_raw_message L b m hs qn c))"
  by (rule yields_lift_sum) (rule build_raw_message_fresh)

lemma get_message_once_fresh:
  "yields (is_connection i) (pred_option (fresh_message (Some i))) (get_message_once L fuel t k)"
proof -
  have call: "preserves (is_connection i) (on_world (call_lib ans c))" for ans :: "world \<Rightarrow> call \<Rightarrow> exn + 'a" and c
    by (rule pres_call [of "\<lambda>_. True"]) simp_all
  have unit: "preserves (is_connection i) (call_unit L c)" for c
    by (rule pres_call_unit [of "\<lambda>_. True"]) simp_all
  have object: "preserves (is_connection i) (call_object L c)" for c
    by (rule pres_call_object [of "\<lambda>_. True"]) simp_all
  show ?thesis
    unfolding get_message_once_def
    by (rule yields_bind [OF headers_read_dict] yields_bind [OF own_identity] yields_bind [OF built_fresh]
        yields_seq yields_bind_any yields_rules call unit object pres_load pres_getc pres_assert_that pres_lift_sum
        pres_bind pres_seq pres_try_except pres_ret pres_throw pres_if pres_mqmi | simp)+
qed

lemma run_yields:
  assumes "op_stable L I" and "yields I Q op"
  shows "yields I Q (run_with_reconnect_sync L op b)"
proof -
  have "yields I (pred_option Q) (bind op (\<lambda>x. ret (Some x)))"
    by (rule yields_bind [OF assms(2)]) (simp add: yields_ret)
  then have first: "yields I (pred_option Q) (try_except (bind op (\<lambda>x. ret (Some x)))
      (\<lambda>e. if reconnectable L e then ret None else throw e))"
    by (intro yields_rules) simp_all
  show ?thesis
    unfolding run_with_reconnect_sync_def
    by (intro yields_seq pres_load yields_bind [OF first] yields_rules op_stable_recover [OF assms(1)] assms(2)) auto
qed

lemma started_yields: "yields I Q m \<Longrightarrow> yields I Q (started m)"
  unfolding started_def by (intro yields_bind_any yields_seq pres_getc pres_assert_that)

lemma get_message_fresh:
  "yields (is_connection i) (pred_option (fresh_message (Some i))) (get_message L fuel t k)"
  unfolding get_message_def get_message_sync_def
  by (intro started_yields run_yields op_stable_identity get_message_once_fresh)

lemma request_fresh: "yields (is_connection i) (fresh_message None) (request L F fuel cmd ser)"
proof -
  have call: "preserves (is_connection i) (on_world (call_lib ans c))" for ans :: "world \<Rightarrow> call \<Rightarrow> exn + 'a" and c
    by (rule pres_call [of "\<lambda>_. True"]) simp_all
  have unit: "preserves (is_connection i) (call_unit L c)" for c
    by (rule pres_call_unit [of "\<lambda>_. True"]) simp_all
  have object: "preserves (is_connection i) (call_object L c)" for c
    by (rule pres_call_object [of "\<lambda>_. True"]) simp_all
  have read: "yields (is_connection i) dict_ok (try_finally (read_headers L fuel h n) (call_unit L (DeleteHandle h)))" for h n
    by (intro yields_rules read_headers_dict unit)
  have wait: "yields (is_connection i) (fresh_message None) (wait_for_reply_sync L fuel rq n mid t)" for rq n mid t
    unfolding wait_for_reply_sync_def
    by (rule yields_bind [OF read] built_fresh yields_seq yields_bind_any yields_rules call unit object
        pres_load pres_getc pres_lift_sum pres_seq pres_try_except pres_ret pres_throw pres_if pres_mqmi | simp)+
  have log: "log_stable is_message_call (is_connection i)" by simp
  have put: "preserves (is_connection i) (publish_request_sync L F cmd ser)"
    unfolding publish_request_sync_def
    by (assumption | rule pres_rules log pres_request_attempt op_stable_recover [OF op_stable_identity] | simp)+
  show ?thesis
    unfolding request_def request_sync_def
    by (rule started_yields yields_seq pres_load yields_frame yields_try_finally yields_try_except
        yields_outside wait yields_bind_any pres_outside put yields_throw yields_case_prod
        pres_bind pres_seq pres_ret pres_get_local pres_local pres_when_do pres_case_option pres_ignore_exception unit
        op_stable_recover [OF op_stable_identity] | simp)+
qed

section \<open>The store\<close>

definition store_typed :: "mqstate \<Rightarrow> bool" where
  "store_typed S \<longleftrightarrow> (\<forall>i < next_connection S. self_id (connections S i) = i)
     \<and> (\<forall>a < next_message S. raw_typed (next_connection S) (raw_messages S a))"

lemma store_typed_on_connection:
  assumes "\<And>i. preserves (is_connection i) op"
  shows "preserves store_typed (on_connection i op)"
proof (rule preservesI)
  fix S assume "store_typed S"
  then show "store_typed (snd (on_connection i op S))"
    using preservesD [OF assms [of "self_id (connections S i)"], of "(connections S i, the_world S)"]
    by (auto simp: store_typed_def on_connection_apply)
qed

lemma raw_typed_more: "raw_typed n m \<Longrightarrow> n \<le> n' \<Longrightarrow> raw_typed n' m"
  by (auto simp: raw_typed_def pred_option_def)

lemma store_typed_new_connection: "preserves store_typed (new_connection cfg)"
  by (rule preservesI)
    (auto simp: store_typed_def new_connection_apply AsyncMQConnection_init_def less_Suc_eq intro: raw_typed_more)

lemma store_typed_new_message:
  "store_typed S \<Longrightarrow> raw_typed (next_connection S) m \<Longrightarrow> store_typed (snd (new_message m S))"
  by (auto simp: store_typed_def new_message_apply less_Suc_eq)

lemma fresh_raw_typed: "fresh_message c m \<Longrightarrow> pred_option (\<lambda>i. i < n) c \<Longrightarrow> raw_typed n m"
  by (auto simp: fresh_message_def raw_typed_def)

text \<open>Settling a message: the update at its address ends with its event set.\<close>

lemma raw_typed_settled:
  "raw_typed n m \<Longrightarrow> raw_typed n (m\<lparr>settled := st, settled_event := True\<rparr>)"
  "raw_typed n m \<Longrightarrow> raw_typed n (m\<lparr>settled_event := True\<rparr>)"
  by (simp_all add: raw_typed_def well_built_def)

section \<open>The subscriber\<close>

text \<open>
  What holds of a subscriber on the store, with lower bounds for what is allocated and the
  one old connection that may still be its own.
\<close>

definition sub_typed :: "mqstate \<Rightarrow> MQSubscriber \<Rightarrow> bool" where
  "sub_typed S p \<longleftrightarrow> pred_option (\<lambda>c. c < next_connection S) (consumer p)
     \<and> pred_option (\<lambda>a. a < next_message S) (direct_message p)
     \<and> pred_option (list_all (\<lambda>a. a < next_message S)) (test_messages p)"

definition inside :: "mqlib \<Rightarrow> nat \<Rightarrow> nat \<Rightarrow> nat option \<Rightarrow> mqstate \<times> MQSubscriber \<Rightarrow> bool" where
  "inside L nc nm c0 z \<longleftrightarrow> store_ok L (fst z) \<and> store_typed (fst z) \<and> sub_typed (fst z) (snd z)
     \<and> nc \<le> next_connection (fst z) \<and> nm \<le> next_message (fst z)
     \<and> (consumer (snd z) = None \<or> consumer (snd z) = c0 \<or> nc \<le> the (consumer (snd z)))"

definition behaved :: "mqlib \<Rightarrow> 'a sub_prog \<Rightarrow> bool" where
  "behaved L m \<longleftrightarrow> (\<forall>nc nm c0. preserves (inside L nc nm c0) m)"

lemma behavedI: "(\<And>nc nm c0. preserves (inside L nc nm c0) m) \<Longrightarrow> behaved L m"
  by (simp add: behaved_def)

lemma behavedD: "behaved L m \<Longrightarrow> preserves (inside L nc nm c0) m"
  by (simp add: behaved_def)

lemma behaved_rules:
  "behaved L m \<Longrightarrow> (\<And>x. behaved L (k x)) \<Longrightarrow> behaved L (bind m k)"
  "behaved L m \<Longrightarrow> behaved L k' \<Longrightarrow> behaved L (seq m k')"
  "behaved L (ret x)" "behaved L (throw e)" "behaved L out_of_fuel" "behaved L (get_local f)"
  "behaved L m \<Longrightarrow> (\<And>e. behaved L (h e)) \<Longrightarrow> behaved L (try_except m h)"
  "behaved L m \<Longrightarrow> behaved L u \<Longrightarrow> behaved L (try_finally m u)"
  "behaved L u \<Longrightarrow> behaved L (when_do b u)"
  "behaved L (assert_that b msg)"
  "behaved L m \<Longrightarrow> behaved L m' \<Longrightarrow> behaved L (if b then m else m')"
  "behaved L n \<Longrightarrow> (\<And>x. behaved L (j x)) \<Longrightarrow> behaved L (case v of None \<Rightarrow> n | Some x \<Rightarrow> j x)"
  "behaved L (outside (get_raw a g))"
  unfolding behaved_def
  by (auto intro!: pres_bind pres_seq pres_ret pres_throw pres_out_of_fuel pres_get_local pres_outside
      pres_try_except pres_try_finally pres_when_do pres_assert_that split: option.split)
    (simp add: preserves_def prog_simps)

lemma behaved_local:
  assumes "\<And>p. consumer (f p) \<in> {consumer p, None}" and "\<And>p. direct_message (f p) \<in> {direct_message p, None}"
    and "\<And>p. test_messages (f p) \<in> {test_messages p, None, Some []}"
  shows "behaved L (local f)"
proof (intro behavedI preservesI)
  fix nc nm c0 and z :: "mqstate \<times> MQSubscriber"
  assume "inside L nc nm c0 z"
  then show "inside L nc nm c0 (snd (local f z))"
    using assms(1) [of "snd z"] assms(2) [of "snd z"] assms(3) [of "snd z"]
    by (auto simp: inside_def sub_typed_def prog_simps)
qed

lemma behaved_on_connection:
  assumes "preserves (store_ok L) (on_connection i op)" and "\<And>i. preserves (is_connection i) op"
  shows "behaved L (outside (on_connection i op))"
proof (intro behavedI preservesI)
  fix nc nm c0 and z :: "mqstate \<times> MQSubscriber"
  assume z: "inside L nc nm c0 z"
  have "store_ok L (snd (on_connection i op (fst z)))" "store_typed (snd (on_connection i op (fst z)))"
    by (rule preservesD [OF assms(1)] preservesD [OF store_typed_on_connection [OF assms(2)]],
        use z in \<open>simp add: inside_def\<close>)+
  with z show "inside L nc nm c0 (snd (outside (on_connection i op) z))"
    by (auto simp: inside_def sub_typed_def outside_apply on_connection_apply)
qed

lemma behaved_operations:
  "behaved L (outside (on_connection i (connect L)))" "behaved L (outside (on_connection i (disconnect L)))"
  "behaved L (outside (on_connection i (start_consumer L n)))" "behaved L (outside (on_connection i (stop_consumer L)))"
  "behaved L (outside (on_connection i (commit L)))" "behaved L (outside (on_connection i (backout L)))"
  "behaved L (outside (on_connection i (publish L F cmd ser)))"
  by (intro behaved_on_connection store_ok_operations op_stable_operations op_stable_identity)+

lemma behaved_on_consumer:
  "(\<And>i. behaved L (outside (on_connection i op))) \<Longrightarrow> behaved L (on_consumer op)"
  unfolding on_consumer_def by (rule behaved_rules | assumption)+

lemma behaved_world:
  assumes "harmless x"
  shows "behaved L (outside (call_on_world (call_lib ans x)))"
proof (intro behavedI preservesI)
  fix nc nm c0 and z :: "mqstate \<times> MQSubscriber"
  assume z: "inside L nc nm c0 z"
  have "store_ok L (snd (call_on_world (call_lib ans x) (fst z)))"
    by (rule preservesD [OF store_ok_call [OF assms]]) (use z in \<open>simp add: inside_def\<close>)
  with z show "inside L nc nm c0 (snd (outside (call_on_world (call_lib ans x)) z))"
    by (auto simp: inside_def sub_typed_def store_typed_def outside_apply call_on_world_apply)
qed

text \<open>Settling what a handler left unresolved.\<close>

lemma inside_update:
  assumes "inside L nc nm c0 (S, p)" and "\<And>m. raw_typed (next_connection S) m \<Longrightarrow> raw_typed (next_connection S) (f m)"
  shows "inside L nc nm c0 (S\<lparr>raw_messages := (raw_messages S)(a := f (raw_messages S a))\<rparr>, p)"
  using assms by (auto simp: inside_def store_ok_def store_typed_def sub_typed_def)

lemma inside_operation:
  "behaved L (outside (on_connection i op)) \<Longrightarrow> inside L nc nm c0 (S, p) \<Longrightarrow>
     inside L nc nm c0 (snd (on_connection i op S), p)"
  using behavedD [THEN preservesD] by (fastforce simp: outside_apply)

lemma behaved_settle: "behaved L (settle_unresolved L H a e)"
proof (intro behavedI preservesI)
  fix nc nm c0 and z :: "mqstate \<times> MQSubscriber"
  assume z: "inside L nc nm c0 z"
  obtain S p where zz: "z = (S, p)" by (cases z)
  define S' where "S' c = (if should_commit (sub_ack_policy p) e then snd (on_connection c (commit L) S)
      else snd (on_connection c (backout L) S))" for c
  have S': "inside L nc nm c0 (S' c, p)" for c
    using z by (auto simp: S'_def zz intro: inside_operation behaved_operations)
  have "inside L nc nm c0 ((S' c)\<lparr>raw_messages := (raw_messages (S' c))(a := (raw_messages (S' c) a)\<lparr>settled := st, settled_event := True\<rparr>)\<rparr>, p)"
    "inside L nc nm c0 ((S' c)\<lparr>raw_messages := (raw_messages (S' c))(a := (raw_messages (S' c) a)\<lparr>settled_event := True\<rparr>)\<rparr>, p)" for c st
    by (intro inside_update [OF S'] raw_typed_settled; assumption)+
  then show "inside L nc nm c0 (snd (settle_unresolved L H a e z))"
    using z S'
    by (auto simp: settle_unresolved_def settle_unresolved_message_def connection_acknowledger_def shield_def zz S'_def
        bind_apply seq_apply outside_apply get_raw_apply get_local_apply set_raw_apply try_except_apply throw_apply ret_apply
        split: option.split outcome.split if_splits)
qed

section \<open>The operations of a subscriber\<close>

text \<open>The code outside the adapter uses the objects of the process only as their types allow.\<close>

definition hooks_behaved :: "mqlib \<Rightarrow> fsub \<Rightarrow> bool" where
  "hooks_behaved L H \<longleftrightarrow> behaved L (base_start H) \<and> behaved L (base_post_start H) \<and> behaved L (base_stop H)
     \<and> behaved L (app_exit H) \<and> behaved L (other_tasks H) \<and> behaved L (cancelled_tasks H)
     \<and> (\<forall>a. behaved L (base_process_message H a)) \<and> (\<forall>a. behaved L (base_process_msg H a))"

lemma hooks_behavedD:
  assumes "hooks_behaved L H"
  shows "behaved L (base_start H)" "behaved L (base_post_start H)" "behaved L (base_stop H)"
    "behaved L (app_exit H)" "behaved L (other_tasks H)" "behaved L (cancelled_tasks H)"
    "behaved L (base_process_message H a)" "behaved L (base_process_msg H a)"
  using assms by (simp_all add: hooks_behaved_def)

lemma behaved_stop: "hooks_behaved L H \<Longrightarrow> behaved L (stop L H b)"
  unfolding stop_def cancel_and_wait_def never_returns_def
  by (rule behaved_rules hooks_behavedD behaved_operations behaved_local | assumption | simp)+

lemma behaved_consume: "hooks_behaved L H \<Longrightarrow> behaved L (consume L H b a)"
  unfolding consume_def
  by (rule behaved_rules hooks_behavedD behaved_settle behaved_stop | assumption)+

lemma behaved_wait: "hooks_behaved L H \<Longrightarrow> behaved L (wait_settled_event H a)"
  unfolding wait_settled_event_def never_returns_def
  by (rule behaved_rules hooks_behavedD | assumption)+

text \<open>What hands out the address of a message.\<close>

definition hands_out :: "mqlib \<Rightarrow> nat option sub_prog \<Rightarrow> bool" where
  "hands_out L m \<longleftrightarrow> (\<forall>nc nm c0. hoare (inside L nc nm c0) m
     (\<lambda>r z. inside L nc nm c0 z \<and> (\<forall>a. r = Returns (Some a) \<longrightarrow> inside L nc (Suc a) c0 z)))"

lemma hands_outD:
  assumes "hands_out L m" and "inside L nc nm c0 z"
  shows "inside L nc nm c0 (snd (m z))" "fst (m z) = Returns (Some a) \<Longrightarrow> inside L nc (Suc a) c0 (snd (m z))"
  using assms unfolding hands_out_def hoare_def by blast+

lemma hands_out_behaved: "hands_out L m \<Longrightarrow> behaved L m"
  by (auto simp: hands_out_def behaved_def hoare_def preserves_def)

lemma hands_out_bind:
  assumes "hands_out L m" and "behaved L (k None)"
    and "\<And>a nc nm c0. a < nm \<Longrightarrow> preserves (inside L nc nm c0) (k (Some a))"
  shows "behaved L (bind m k)"
proof (intro behavedI preservesI)
  fix nc nm c0 and z :: "mqstate \<times> MQSubscriber"
  assume z: "inside L nc nm c0 z"
  let ?z = "snd (m z)"
  have m: "inside L nc nm c0 ?z" "fst (m z) = Returns (Some a) \<Longrightarrow> inside L nc (Suc a) c0 ?z" for a
    using hands_outD [OF assms(1) z] by blast+
  show "inside L nc nm c0 (snd (bind m k z))"
  proof (cases "fst (m z)")
    case (Returns x)
    show ?thesis
    proof (cases x)
      case None
      then show ?thesis
        using Returns m(1) behavedD [OF assms(2), THEN preservesD] by (simp add: bind_apply)
    next
      case (Some a)
      then have "inside L nc (max nm (Suc a)) c0 ?z" using m Returns by (simp add: inside_def)
      from preservesD [OF assms(3) [of a] this] Returns Some show ?thesis
        by (simp add: bind_apply inside_def)
    qed
  qed (use m in \<open>simp_all add: bind_apply\<close>)
qed

lemma inside_next: "inside L nc nm c0 z \<Longrightarrow> a < next_message (fst z) \<Longrightarrow> inside L nc (Suc a) c0 z"
  by (simp add: inside_def)

lemma hands_out_throw: "hands_out L (throw e)"
  by (simp add: hands_out_def hoare_def prog_simps)

lemma hands_out_bind_any: "behaved L m \<Longrightarrow> (\<And>x. hands_out L (k x)) \<Longrightarrow> hands_out L (bind m k)"
  unfolding hands_out_def
  by (intro allI hoare_bind [OF hoare_preserves [OF behavedD]]) auto

lemma hands_out_seq: "behaved L m \<Longrightarrow> hands_out L k \<Longrightarrow> hands_out L (seq m k)"
  unfolding seq_def by (rule hands_out_bind_any)

lemma hands_out_if: "hands_out L m \<Longrightarrow> hands_out L k \<Longrightarrow> hands_out L (if b then m else k)"
  by simp

lemma hands_out_finally:
  assumes "hands_out L m" and "behaved L f"
  shows "hands_out L (try_finally m f)"
  unfolding hands_out_def
proof (intro allI hoareI)
  fix nc nm c0 and z :: "mqstate \<times> MQSubscriber"
  assume z: "inside L nc nm c0 z"
  have m: "inside L nc nm c0 (snd (m z))" "fst (m z) = Returns (Some a) \<Longrightarrow> inside L nc (Suc a) c0 (snd (m z))" for a
    using hands_outD [OF assms(1) z] by blast+
  note f = behavedD [OF assms(2), THEN preservesD]
  show "inside L nc nm c0 (snd (try_finally m f z)) \<and>
     (\<forall>a. fst (try_finally m f z) = Returns (Some a) \<longrightarrow> inside L nc (Suc a) c0 (snd (try_finally m f z)))"
    using m f by (auto simp: try_finally_apply prog_simps split: outcome.splits)
qed

lemma hands_out_get:
  "hands_out L (bind (get_local consumer) (\<lambda>c. case c of
      None \<Rightarrow> throw e
    | Some i \<Rightarrow> outside (bind (on_connection i (get_message L fuel t k)) (\<lambda>r. case r of
          None \<Rightarrow> ret None
        | Some m \<Rightarrow> bind (new_message m) (\<lambda>a. ret (Some a))))))"
  unfolding hands_out_def
proof (intro allI hoareI)
  fix nc nm c0 and z :: "mqstate \<times> MQSubscriber"
  assume z: "inside L nc nm c0 z"
  obtain S p where zz: "z = (S, p)" by (cases z)
  let ?m = "\<lambda>i. bind (on_connection i (get_message L fuel t k)) (\<lambda>r. case r of
          None \<Rightarrow> ret None
        | Some m \<Rightarrow> bind (new_message m) (\<lambda>a. ret (Some a)))"
  let ?S = "\<lambda>i. snd (on_connection i (get_message L fuel t k) S)"
  have got: "inside L nc nm c0 (?S i, p)" for i
    using z unfolding zz
    by (intro inside_operation behaved_on_connection store_ok_operations op_stable_operations op_stable_identity)
  have fresh: "fresh_message (Some i) m"
    if "consumer p = Some i" "fst (on_connection i (get_message L fuel t k) S) = Returns (Some m)" for i m
  proof -
    have "self_id (connections S i) = i"
      using z that(1) by (auto simp: zz inside_def sub_typed_def store_typed_def)
    then show ?thesis
      using get_message_fresh [of i L fuel t k] that(2)
      by (fastforce simp: yields_def on_connection_apply)
  qed
  have new: "inside L nc nm c0 (snd (new_message m (?S i)), p) \<and> inside L nc (Suc (next_message (?S i))) c0 (snd (new_message m (?S i)), p)"
    if "consumer p = Some i" "fresh_message (Some i) m" for i m
  proof -
    have i: "i < next_connection (?S i)" using got [of i] that(1) by (auto simp: inside_def sub_typed_def)
    have "store_typed (snd (new_message m (?S i)))"
      by (rule store_typed_new_message) (use got [of i] that(2) i in \<open>auto simp: inside_def intro: fresh_raw_typed\<close>)
    then show ?thesis
      using got [of i]
      by (auto simp: inside_def sub_typed_def store_ok_def new_message_apply pred_option_def list_all_iff intro: less_SucI)
  qed
  show "inside L nc nm c0 (snd (bind (get_local consumer) (\<lambda>c. case c of None \<Rightarrow> throw e | Some i \<Rightarrow> outside (?m i)) z)) \<and>
     (\<forall>a. fst (bind (get_local consumer) (\<lambda>c. case c of None \<Rightarrow> throw e | Some i \<Rightarrow> outside (?m i)) z) = Returns (Some a) \<longrightarrow>
       inside L nc (Suc a) c0 (snd (bind (get_local consumer) (\<lambda>c. case c of None \<Rightarrow> throw e | Some i \<Rightarrow> outside (?m i)) z)))"
  proof (cases "consumer p")
    case None
    then show ?thesis using z by (simp add: zz bind_apply get_local_apply throw_apply)
  next
    case (Some i)
    show ?thesis
    proof (cases "fst (on_connection i (get_message L fuel t k) S)")
      case (Returns r)
      show ?thesis
      proof (cases r)
        case None
        then show ?thesis using Some Returns got [of i] by (simp add: zz bind_apply get_local_apply outside_apply ret_apply)
      next
        case (Some m)
        with Returns have r: "fst (on_connection i (get_message L fuel t k) S) = Returns (Some m)" by simp
        have "fst (new_message m (?S i)) = Returns (next_message (?S i))" by (simp add: new_message_apply)
        with r new [OF \<open>consumer p = Some i\<close> fresh [OF \<open>consumer p = Some i\<close> r]] \<open>consumer p = Some i\<close>
        show ?thesis by (simp add: zz bind_apply get_local_apply outside_apply ret_apply)
      qed
    qed (use Some got [of i] in \<open>simp_all add: zz bind_apply get_local_apply outside_apply\<close>)
  qed
qed

lemma fetch_awaits:
  "fetch L H fuel t = bind (get_local sub_header_max) (\<lambda>k. bind (get_local consumer) (\<lambda>c. case c of
      None \<Rightarrow> throw attribute_error
    | Some i \<Rightarrow> awaiting H (bind (get_local consumer) (\<lambda>c. case c of
        None \<Rightarrow> throw attribute_error
      | Some i \<Rightarrow> outside (bind (on_connection i (get_message L fuel t k)) (\<lambda>r. case r of
          None \<Rightarrow> ret None
        | Some m \<Rightarrow> bind (new_message m) (\<lambda>a. ret (Some a))))))))"
  by (rule ext, case_tac "consumer (snd x)")
    (simp_all add: fetch_def awaiting_def bind_apply [of "get_local f" for f] get_local_apply
      try_finally_apply split: outcome.split)

lemma hands_out_option: "hands_out L m \<Longrightarrow> (\<And>x. hands_out L (k x)) \<Longrightarrow> hands_out L (case v of None \<Rightarrow> m | Some x \<Rightarrow> k x)"
  by (cases v) auto

lemma hands_out_fetch: "hooks_behaved L H \<Longrightarrow> hands_out L (fetch L H fuel t)"
  unfolding fetch_awaits awaiting_def
  by (intro hands_out_bind_any hands_out_option hands_out_finally hands_out_get hands_out_throw
      behaved_rules hooks_behavedD)

section \<open>The operations\<close>

lemma behaved_consume_turn: "hooks_behaved L H \<Longrightarrow> behaved L (consume_turn L H fuel)"
proof -
  assume H: "hooks_behaved L H"
  note fetch = hands_out_behaved [OF hands_out_fetch [OF H]]
  show ?thesis
    unfolding consume_turn_def
    by (rule behaved_rules fetch behaved_consume [OF H] behaved_wait [OF H] | rule H)+
qed

lemma behaved_startup: "behaved L (startup_connect_consumer L n)"
proof -
  have world: "behaved L (sub_clock L)" "behaved L (sub_sleep L t)" for t
    unfolding sub_clock_def sub_sleep_def by (intro behaved_world; simp)+
  have attempt: "behaved L (connect_attempt L)" "behaved L (on_consumer (disconnect L))"
    unfolding connect_attempt_def by (intro behaved_rules behaved_on_consumer behaved_operations)+
  have "behaved L (startup_attempts L n t interval deadline)" for t interval deadline
  proof (induction n)
    case (Suc n)
    then show ?case unfolding startup_attempts.simps by (intro behaved_rules world attempt)
  qed (simp add: behaved_rules)
  then show ?thesis
    unfolding startup_connect_consumer_def by (intro behaved_rules world)
qed

lemma preserves_new_consumer:
  "preserves (inside L nc nm c0)
     (bind (outside (new_connection cfg)) (\<lambda>c. local (\<lambda>p. p\<lparr>consumer := Some c\<rparr>)))"
proof (rule preservesI)
  fix z :: "mqstate \<times> MQSubscriber"
  assume z: "inside L nc nm c0 z"
  have "store_ok L (snd (new_connection cfg (fst z)))" "store_typed (snd (new_connection cfg (fst z)))"
    by (rule preservesD [OF store_ok_new_connection] preservesD [OF store_typed_new_connection],
        use z in \<open>simp add: inside_def\<close>)+
  with z show "inside L nc nm c0 (snd (bind (outside (new_connection cfg)) (\<lambda>c. local (\<lambda>p. p\<lparr>consumer := Some c\<rparr>)) z))"
    by (auto simp: inside_def sub_typed_def bind_apply outside_apply local_apply new_connection_apply)
qed

lemma bind_seq: "bind m (\<lambda>x. seq (f x) k) = seq (bind m f) k"
  by (simp add: seq_def bind_assoc)

lemma behaved_start: "hooks_behaved L H \<Longrightarrow> behaved L (start L H n)"
  unfolding start_def bind_seq
  by (rule behaved_rules hooks_behavedD behaved_startup behaved_local behavedI [OF preserves_new_consumer] | assumption | simp)+

lemma behaved_ensure: "behaved L ensure_no_unsettled_direct_message"
  unfolding ensure_no_unsettled_direct_message_def
  by (rule behaved_rules behaved_local | simp)+

lemma hands_out_test_queue:
  assumes "hooks_behaved L H"
  shows "hands_out L (test_queue_get H)"
proof -
  have "hands_out L (bind (get_local test_messages) (\<lambda>tm. case tm of
      Some (a # as) \<Rightarrow> seq (local (\<lambda>p. p\<lparr>test_messages := Some as\<rparr>)) (ret (Some a)) | _ \<Rightarrow> ret None))"
    by (auto simp: hands_out_def hoare_def prog_simps inside_def sub_typed_def split: option.splits list.splits)
  then show ?thesis
    unfolding test_queue_get_def by (intro hands_out_seq hooks_behavedD [OF assms])
qed

lemma hands_out_direct: "hooks_behaved L H \<Longrightarrow> hands_out L (direct_fetch L H fuel t)"
  unfolding direct_fetch_def
  by (intro hands_out_bind_any hands_out_seq hands_out_if hands_out_test_queue hands_out_fetch behaved_rules)

lemma preserves_deliver:
  assumes "hooks_behaved L H" and "a < nm"
  shows "preserves (inside L nc nm c0) (deliver_direct L H a)"
proof -
  have "preserves (inside L nc nm c0) (local (\<lambda>p. p\<lparr>direct_message := Some a\<rparr>))"
    using assms(2) by (auto simp: preserves_def prog_simps inside_def sub_typed_def)
  note set = this
  show ?thesis
    unfolding deliver_direct_def
    by (rule set pres_try_except pres_bind pres_seq pres_when_do pres_ret pres_throw pres_get_local pres_if
        behavedD [OF behaved_settle] behavedD [OF hooks_behavedD(8) [OF assms(1)]])+
qed

lemma behaved_hand_out:
  assumes "hooks_behaved L H" and "behaved L none"
  shows "behaved L (bind (direct_fetch L H fuel t) (\<lambda>x. case x of
      None \<Rightarrow> none | Some a \<Rightarrow> bind (deliver_direct L H a) (\<lambda>m. ret (Some m))))"
  by (rule hands_out_bind [OF hands_out_direct [OF assms(1)]])
    (auto intro!: pres_bind pres_ret preserves_deliver assms)

lemma behaved_direct_access:
  assumes "hooks_behaved L H"
  shows "behaved L (get_one L H fuel t)" and "behaved L (aiter_next L H fuel n)"
proof -
  show "behaved L (get_one L H fuel t)"
    unfolding get_one_def by (rule behaved_hand_out assms behaved_ensure behaved_rules)+
  show "behaved L (aiter_next L H fuel n)"
  proof (induction n)
    case (Suc n)
    show ?case
      unfolding aiter_next.simps by (rule behaved_hand_out assms behaved_ensure Suc behaved_rules)+
  qed (simp add: behaved_rules)
qed

lemma preserves_put_test: "a < nm \<Longrightarrow> preserves (inside L nc nm c0) (put_test_message a)"
  by (auto simp: preserves_def put_test_message_def prog_simps inside_def sub_typed_def)

section \<open>A process\<close>

text \<open>
  The producer of the broker, the declared subscribers, and the store they share. Hooks are
  given per subscriber.
\<close>

record mq_process =
  proc_store :: mqstate
  proc_producer :: MQProducer
  proc_subscribers :: "MQSubscriber list"

datatype owner = Publishing | Requesting | Reading nat

fun holds :: "mq_process \<Rightarrow> owner \<Rightarrow> nat option" where
  "holds P Publishing = publish_connection (proc_producer P)"
| "holds P Requesting = request_connection (proc_producer P)"
| "holds P (Reading i) =
     (if i < length (proc_subscribers P) then consumer (proc_subscribers P ! i) else None)"

definition one_owner :: "mq_process \<Rightarrow> bool" where
  "one_owner P \<longleftrightarrow> (\<forall>x c. holds P x = Some c \<longrightarrow>
     c < next_connection (proc_store P) \<and> (\<forall>y. holds P y = Some c \<longrightarrow> y = x))"

definition process_ok :: "mqlib \<Rightarrow> mq_process \<Rightarrow> bool" where
  "process_ok L P \<longleftrightarrow> producer_ok L (proc_store P, proc_producer P) \<and> store_typed (proc_store P)
     \<and> list_all (sub_typed (proc_store P)) (proc_subscribers P) \<and> one_owner P"

text \<open>What one of the subscribers may do next.\<close>

inductive subscriber_step :: "mqlib \<Rightarrow> fsub \<Rightarrow> mqstate \<times> MQSubscriber \<Rightarrow> mqstate \<times> MQSubscriber \<Rightarrow> bool"
  for L H where
  subscriber_starts: "subscriber_step L H z (snd (start L H n z))"
| subscriber_stops: "subscriber_step L H z (snd (stop L H b z))"
| subscriber_consumes: "subscriber_step L H z (snd (consume_turn L H fuel z))"
| subscriber_gets_one: "subscriber_step L H z (snd (get_one L H fuel t z))"
| subscriber_iterates: "subscriber_step L H z (snd (aiter_next L H fuel n z))"
| subscriber_is_given: "a < next_message (fst z) \<Longrightarrow> subscriber_step L H z (snd (put_test_message a z))"

lemma subscriber_step_inside:
  assumes "subscriber_step L H z z'" and "hooks_behaved L H" and "inside L nc (next_message (fst z)) c0 z"
  shows "inside L nc (next_message (fst z)) c0 z'"
proof -
  note b = preservesD [OF behavedD assms(3)]
  note acts = b [OF behaved_start [OF assms(2)]] b [OF behaved_stop [OF assms(2)]]
    b [OF behaved_consume_turn [OF assms(2)]] b [OF behaved_direct_access(1) [OF assms(2)]]
    b [OF behaved_direct_access(2) [OF assms(2)]] preservesD [OF preserves_put_test assms(3)]
  show ?thesis using assms(1) by cases (simp_all add: acts)
qed

inductive process_step :: "mqlib \<Rightarrow> fslib \<Rightarrow> (nat \<Rightarrow> fsub) \<Rightarrow> mq_process \<Rightarrow> mq_process \<Rightarrow> bool"
  for L F H where
  producer_acts: "producer_step L F (proc_store P, proc_producer P) (S', q') \<Longrightarrow>
    process_step L F H P (P\<lparr>proc_store := S', proc_producer := q'\<rparr>)"
| request_replied: "producer_request L F fuel cmd (proc_store P, proc_producer P) = (Returns m, (S', q')) \<Longrightarrow>
    process_step L F H P (P\<lparr>proc_store := snd (new_message m S'), proc_producer := q'\<rparr>)"
| subscriber_declared:
    "process_step L F H P (P\<lparr>proc_subscribers := proc_subscribers P @ [registrator_subscriber cfg a]\<rparr>)"
| subscriber_acts: "i < length (proc_subscribers P) \<Longrightarrow>
    subscriber_step L (H i) (proc_store P, proc_subscribers P ! i) (S', p') \<Longrightarrow>
    process_step L F H P (P\<lparr>proc_store := S', proc_subscribers := (proc_subscribers P)[i := p']\<rparr>)"
| message_settled:
    "process_step L F H P (P\<lparr>proc_store := fst (settle_step F (connection_acknowledger L) k (proc_store P, m))\<rparr>)"
| reply_sent: "process_step L F H P (P\<lparr>proc_store := snd (connection_publish L F cp cmd (proc_store P))\<rparr>)"
| test_delivery: "message_of_command F new_id ser cmd = Inr m \<Longrightarrow> dict_ok (headers_of cmd) \<Longrightarrow>
    mq_id_bytes (new_id MQ_ID_BYTES_LENGTH) \<Longrightarrow>
    process_step L F H P (P\<lparr>proc_store := snd (new_message m (proc_store P))\<rparr>)"

inductive process_reachable :: "mqlib \<Rightarrow> fslib \<Rightarrow> (nat \<Rightarrow> fsub) \<Rightarrow> mq_process \<Rightarrow> bool" for L F H where
  process_init: "store_ok L S \<Longrightarrow> next_connection S = 0 \<Longrightarrow> next_message S = 0 \<Longrightarrow>
    process_reachable L F H \<lparr>proc_store = S, proc_producer = AsyncMQFastProducerImpl_init, proc_subscribers = []\<rparr>"
| process_next: "process_reachable L F H P \<Longrightarrow> process_step L F H P P' \<Longrightarrow> process_reachable L F H P'"

lemma one_owner_step:
  assumes "one_owner P" and "next_connection (proc_store P) \<le> next_connection (proc_store P')"
    and "\<And>x c. holds P' x = Some c \<Longrightarrow> holds P x = Some c \<or> next_connection (proc_store P) \<le> c"
    and "\<And>x c. holds P' x = Some c \<Longrightarrow> c < next_connection (proc_store P')"
    and "\<And>x y c. holds P' x = Some c \<Longrightarrow> holds P' y = Some c \<Longrightarrow> next_connection (proc_store P) \<le> c \<Longrightarrow> y = x"
  shows "one_owner P'"
  unfolding one_owner_def
proof (intro allI impI conjI)
  fix x y c assume x: "holds P' x = Some c"
  show "c < next_connection (proc_store P')" by (rule assms(4) [OF x])
  assume y: "holds P' y = Some c"
  show "y = x"
  proof (cases "next_connection (proc_store P) \<le> c")
    case True
    then show ?thesis using assms(5) x y by blast
  next
    case False
    then have "holds P x = Some c" "holds P y = Some c" using assms(3) x y by blast+
    then show ?thesis using assms(1) by (auto simp: one_owner_def)
  qed
qed

lemma inside_start:
  assumes "process_ok L P" and "i < length (proc_subscribers P)"
  shows "inside L (next_connection (proc_store P)) (next_message (proc_store P))
    (consumer (proc_subscribers P ! i)) (proc_store P, proc_subscribers P ! i)"
  using assms by (auto simp: process_ok_def inside_def producer_ok_def list_all_length)

lemma sub_typed_more:
  "sub_typed S p \<Longrightarrow> next_connection S \<le> next_connection S' \<Longrightarrow> next_message S \<le> next_message S' \<Longrightarrow> sub_typed S' p"
  unfolding sub_typed_def pred_option_def list_all_iff by (meson less_le_trans)

lemma subscriber_keeps_process:
  assumes P: "process_ok L P" and i: "i < length (proc_subscribers P)" and H: "hooks_behaved L H"
    and step: "subscriber_step L H (proc_store P, proc_subscribers P ! i) (S', p')"
  shows "process_ok L (P\<lparr>proc_store := S', proc_subscribers := (proc_subscribers P)[i := p']\<rparr>)"
proof -
  let ?P = "P\<lparr>proc_store := S', proc_subscribers := (proc_subscribers P)[i := p']\<rparr>"
  have p': "inside L (next_connection (proc_store P)) (next_message (proc_store P))
      (consumer (proc_subscribers P ! i)) (S', p')"
    using subscriber_step_inside [OF step H] inside_start [OF P i] by simp
  have subs: "list_all (sub_typed S') ((proc_subscribers P)[i := p'])"
  proof (unfold list_all_length, intro allI impI)
    fix n assume n: "n < length ((proc_subscribers P)[i := p'])"
    show "sub_typed S' ((proc_subscribers P)[i := p'] ! n)"
    proof (cases "n = i")
      case True
      then show ?thesis using p' i by (simp add: inside_def)
    next
      case False
      have "sub_typed (proc_store P) (proc_subscribers P ! n)"
        using P n by (simp add: process_ok_def list_all_length)
      then have "sub_typed S' (proc_subscribers P ! n)"
        by (rule sub_typed_more) (use p' in \<open>simp_all add: inside_def\<close>)
      with False show ?thesis by simp
    qed
  qed
  have "one_owner ?P"
  proof (rule one_owner_step [of P])
    show "one_owner P" using P by (simp add: process_ok_def)
    show "next_connection (proc_store P) \<le> next_connection (proc_store ?P)" using p' by (simp add: inside_def)
    show "holds P x = Some c \<or> next_connection (proc_store P) \<le> c" if "holds ?P x = Some c" for x c
      using that p' i by (cases x) (auto simp: inside_def nth_list_update split: if_splits)
    have old: "holds P x = Some c \<Longrightarrow> c < next_connection (proc_store P)" for x c
      using P by (auto simp: process_ok_def one_owner_def)
    show "c < next_connection (proc_store ?P)" if h: "holds ?P x = Some c" for x c
    proof (cases "\<exists>j. x = Reading j")
      case True
      then show ?thesis
        using h subs by (auto simp: list_all_length sub_typed_def pred_option_def split: if_splits)
    next
      case False
      then have "holds P x = Some c" using h by (cases x) auto
      from old [OF this] p' show ?thesis by (simp add: inside_def)
    qed
    show "y = x" if "holds ?P x = Some c" "holds ?P y = Some c" "next_connection (proc_store P) \<le> c" for x y c
    proof -
      have "z = Reading i" if z: "holds ?P z = Some c" for z
      proof (rule ccontr)
        assume "z \<noteq> Reading i"
        then have "holds P z = Some c" using z by (cases z) (auto simp: nth_list_update split: if_splits)
        with old \<open>next_connection (proc_store P) \<le> c\<close> show False by fastforce
      qed
      with that(1,2) show ?thesis by blast
    qed
  qed
  moreover have "producer_ok L (S', proc_producer P)"
    using P p' by (auto simp: process_ok_def inside_def producer_ok_def)
  ultimately show ?thesis using subs p' by (simp add: process_ok_def inside_def)
qed

text \<open>The producer.\<close>

definition producer_inside :: "nat \<Rightarrow> nat \<Rightarrow> nat option \<times> nat option \<Rightarrow> mqstate \<times> MQProducer \<Rightarrow> bool" where
  "producer_inside nc nm own z \<longleftrightarrow> store_typed (fst z) \<and> nc \<le> next_connection (fst z) \<and> nm \<le> next_message (fst z)
     \<and> publish_connection (snd z) \<in> {None, fst own} \<union> {c. nc \<le> the c}
     \<and> request_connection (snd z) \<in> {None, snd own} \<union> {c. nc \<le> the c}"

lemma producer_inside_on_connection:
  assumes "\<And>i. preserves (is_connection i) op"
  shows "preserves (producer_inside nc nm own) (outside (on_connection c op))"
proof (rule preservesI)
  fix z assume z: "producer_inside nc nm own z"
  have "store_typed (snd (on_connection c op (fst z)))"
    by (rule preservesD [OF store_typed_on_connection [OF assms]]) (use z in \<open>simp add: producer_inside_def\<close>)
  with z show "producer_inside nc nm own (snd (outside (on_connection c op) z))"
    by (simp add: producer_inside_def outside_apply on_connection_apply)
qed

lemma producer_inside_new:
  "hoare (producer_inside nc nm own) (outside (new_connection cfg))
     (\<lambda>r z. producer_inside nc nm own z \<and> (\<forall>c. r = Returns c \<longrightarrow> nc \<le> c))"
proof (rule hoareI)
  fix z assume z: "producer_inside nc nm own z"
  have "store_typed (snd (new_connection cfg (fst z)))"
    by (rule preservesD [OF store_typed_new_connection]) (use z in \<open>simp add: producer_inside_def\<close>)
  with z show "producer_inside nc nm own (snd (outside (new_connection cfg) z)) \<and>
      (\<forall>c. fst (outside (new_connection cfg) z) = Returns c \<longrightarrow> nc \<le> c)"
    by (simp add: producer_inside_def outside_apply new_connection_apply)
qed

lemma producer_inside_adopt:
  assumes "\<And>c. nc \<le> c \<Longrightarrow> preserves (producer_inside nc nm own) (k c)"
  shows "preserves (producer_inside nc nm own) (bind (outside (new_connection cfg)) k)"
  unfolding hoare_preserves_iff
proof (rule hoare_bind [OF producer_inside_new])
  fix c
  show "hoare (\<lambda>z. producer_inside nc nm own z \<and> (\<forall>c'. Returns c = Returns c' \<longrightarrow> nc \<le> c')) (k c)
     (\<lambda>_. producer_inside nc nm own)"
    using assms by (auto simp: hoare_def preserves_def)
qed auto

lemma producer_inside_local:
  assumes "\<And>p. publish_connection (f p) \<in> {publish_connection p, None} \<or> nc \<le> the (publish_connection (f p))"
    and "\<And>p. request_connection (f p) \<in> {request_connection p, None} \<or> nc \<le> the (request_connection (f p))"
  shows "preserves (producer_inside nc nm own) (local f)"
proof (rule preservesI)
  fix z :: "mqstate \<times> MQProducer"
  assume "producer_inside nc nm own z"
  then show "producer_inside nc nm own (snd (local f z))"
    using assms(1) [of "snd z"] assms(2) [of "snd z"] by (auto simp: producer_inside_def local_apply)
qed

lemma producer_inside_operations:
  "preserves (producer_inside nc nm own) (producer_connect L cfg ser)"
  "preserves (producer_inside nc nm own) (producer_disconnect L)"
  "preserves (producer_inside nc nm own) (producer_ping L)"
  "preserves (producer_inside nc nm own) (producer_publish L F cmd)"
  "preserves (producer_inside nc nm own) (producer_request L F fuel cmd)"
proof -
  note op = producer_inside_on_connection [OF op_stable_operations(1) [OF op_stable_identity]]
    producer_inside_on_connection [OF op_stable_operations(2) [OF op_stable_identity]]
    producer_inside_on_connection [OF op_stable_operations(7) [OF op_stable_identity]]
    producer_inside_on_connection [OF op_stable_operations(8) [OF op_stable_identity]]
    producer_inside_on_connection [OF op_stable_operations(10) [OF op_stable_identity]]
  have both: "preserves (producer_inside nc nm own) (outside (gather (disconnect_if L p) (disconnect_if L r)))" for p r
  proof (rule preservesI)
    fix z :: "mqstate \<times> MQProducer"
    let ?I = "\<lambda>S. producer_inside nc nm own (S, snd z)"
    have "preserves ?I (disconnect_if L c)" for c
      using op(2) by (auto simp: disconnect_if_def preserves_def ret_apply outside_apply split: option.split)
    then have "preserves ?I (gather (disconnect_if L p) (disconnect_if L r))" by (intro pres_gather)
    moreover assume "producer_inside nc nm own z"
    ultimately show "producer_inside nc nm own (snd (outside (gather (disconnect_if L p) (disconnect_if L r)) z))"
      by (cases z) (simp add: preserves_def outside_apply)
  qed
  show "preserves (producer_inside nc nm own) (producer_connect L cfg ser)"
    "preserves (producer_inside nc nm own) (producer_disconnect L)"
    "preserves (producer_inside nc nm own) (producer_ping L)"
    "preserves (producer_inside nc nm own) (producer_publish L F cmd)"
    "preserves (producer_inside nc nm own) (producer_request L F fuel cmd)"
    unfolding producer_connect_def producer_disconnect_def producer_ping_def producer_publish_def
      producer_request_def get_request_connection_def
    by (rule both op producer_inside_adopt producer_inside_local pres_bind pres_seq pres_get_local pres_case_option
        pres_ret pres_assert_that | simp)+
qed

lemma store_typed_producer_step:
  "producer_step L F z z' \<Longrightarrow> producer_inside nc nm own z \<Longrightarrow> producer_inside nc nm own z'"
proof (induction rule: producer_step.induct)
  case (other_connection op z i)
  have "preserves (is_connection j) op" for j by (rule other_connection(1) [OF op_stable_identity])
  from preservesD [OF producer_inside_on_connection [OF this] other_connection(3)]
  show ?case by (simp add: outside_apply)
next
  case (other_new z cfg)
  from hoare_apply [OF producer_inside_new this] show ?case by (simp add: outside_apply)
qed (auto intro: preservesD producer_inside_operations)

lemma producer_keeps_process:
  assumes P: "process_ok L P" and ok: "producer_ok L (S', q')"
    and inside: "producer_inside (next_connection (proc_store P)) (next_message (proc_store P))
      (publish_connection (proc_producer P), request_connection (proc_producer P)) (S', q')"
  shows "process_ok L (P\<lparr>proc_store := S', proc_producer := q'\<rparr>)"
proof -
  let ?P = "P\<lparr>proc_store := S', proc_producer := q'\<rparr>" and ?nc = "next_connection (proc_store P)"
  have more: "?nc \<le> next_connection S'" "next_message (proc_store P) \<le> next_message S'" "store_typed S'"
    using inside by (simp_all add: producer_inside_def)
  have old: "holds P x = Some c \<Longrightarrow> c < ?nc" for x c
    using P by (auto simp: process_ok_def one_owner_def)
  have new: "x = Publishing \<or> x = Requesting" if "holds ?P x = Some c" "?nc \<le> c" for x c
    using that old [of x c] by (cases x) (auto split: if_splits)
  have "one_owner ?P"
  proof (rule one_owner_step [of P])
    show "one_owner P" using P by (simp add: process_ok_def)
    show "holds P x = Some c \<or> ?nc \<le> c" if "holds ?P x = Some c" for x c
      using that inside by (cases x) (auto simp: producer_inside_def split: if_splits)
    show "c < next_connection (proc_store ?P)" if h: "holds ?P x = Some c" for x c
      using h ok old [of x c] more(1) by (cases x) (auto simp: producer_ok_def split: if_splits)
    show "y = x" if "holds ?P x = Some c" "holds ?P y = Some c" "?nc \<le> c" for x y c
      using that new [OF that(1,3)] new [OF that(2,3)] ok by (auto simp: producer_ok_def)
  qed (use more in simp)
  with P ok more show ?thesis
    by (auto simp: process_ok_def list_all_iff intro: sub_typed_more)
qed

lemma producer_inside_start:
  "process_ok L P \<Longrightarrow> producer_inside (next_connection (proc_store P)) (next_message (proc_store P))
      (publish_connection (proc_producer P), request_connection (proc_producer P)) (proc_store P, proc_producer P)"
  by (simp add: process_ok_def producer_inside_def)

text \<open>Steps that change the store alone.\<close>

lemma store_keeps_process:
  assumes "process_ok L P" and "store_ok L S'" and "store_typed S'"
    and "next_connection (proc_store P) \<le> next_connection S'" and "next_message (proc_store P) \<le> next_message S'"
  shows "process_ok L (P\<lparr>proc_store := S'\<rparr>)"
proof -
  have holds: "holds (P\<lparr>proc_store := S'\<rparr>) x = holds P x" for x by (cases x) simp_all
  show ?thesis
    using assms
    by (auto simp: process_ok_def producer_ok_def one_owner_def holds list_all_iff
        intro: sub_typed_more) (meson less_le_trans)+
qed

lemma new_keeps_process:
  assumes P: "process_ok L P" and "fresh_message None m"
  shows "process_ok L (P\<lparr>proc_store := snd (new_message m (proc_store P))\<rparr>)"
proof (rule store_keeps_process [OF P])
  show "store_typed (snd (new_message m (proc_store P)))"
    by (rule store_typed_new_message) (use assms in \<open>auto simp: process_ok_def intro: fresh_raw_typed\<close>)
  show "store_ok L (snd (new_message m (proc_store P)))"
    using P by (simp add: process_ok_def producer_ok_def store_ok_def new_message_apply)
qed (simp_all add: new_message_apply)

lemma producer_request_fresh:
  assumes "producer_request L F fuel cmd z = (Returns m, z')"
  shows "fresh_message None m"
proof -
  obtain c ser S t where "on_connection c (request L F fuel cmd ser) S = (Returns m, t)"
    using assms by (auto simp: producer_request_def bind_run outside_run)
  then have "fst (on_connection c (request L F fuel cmd ser) S) = Returns m" by simp
  then show ?thesis
    using request_fresh [of "self_id (connections S c)" L F fuel cmd ser] by (auto simp: on_connection_apply yields_def)
qed

lemma build_message_typed:
  assumes "build_message F new_id q b (Some hs) cid reply mid ser = Inr m" and "dict_ok hs"
    and "mq_id_bytes (new_id MQ_ID_BYTES_LENGTH)"
  shows "fresh_message None m"
proof -
  have one: "dict_ok [(k, v)]" for k v by (simp add: dict_ok_def)
  have "normal_id (Some (to_hex (new_id MQ_ID_BYTES_LENGTH)))" by (rule normal_id_hex [OF assms(3)])
  then show ?thesis
    using assms(1,2)
    by (auto simp: build_message_def bind_sum_def Let_def fresh_message_def well_built_def headers_or_empty_def
        generate_mq_id_def one dest!: normalize_normal_id
        split: sum.splits option.splits if_splits)
qed

lemma settle_with_keeps:
  assumes S: "J S" and op: "\<And>c. J (snd (on_connection c op S))"
    and update: "\<And>a st S. J S \<Longrightarrow> J (settled_store a st S)" "\<And>a S. J S \<Longrightarrow> J (released_store a S)"
  shows "J (fst (snd (settle_with i (\<lambda>c. on_connection c op) base (S, m))))"
proof -
  have "J T" if "wait_for_broker_settle i (on_connection c op) S = (r, T)" for c r T
    using that S op [of c] by (cases i) (auto simp: wait_for_broker_settle_def split: if_splits)
  then show ?thesis
    using S by (auto simp: settle_with_state intro!: update split: option.split prod.split outcome.split)
qed

lemma settle_keeps_store:
  assumes "store_ok L S" and "store_typed S"
    and "S' = fst (settle_step F (connection_acknowledger L) k (S, m))"
  shows "store_ok L S' \<and> store_typed S' \<and> next_connection S' = next_connection S \<and> next_message S' = next_message S"
proof -
  define J where "J T \<longleftrightarrow> store_ok L T \<and> store_typed T \<and> next_connection T = next_connection S
    \<and> next_message T = next_message S" for T
  have op: "preserves J (on_connection c (commit L))" "preserves J (on_connection c (backout L))" for c
    using store_ok_operations(5,6) [of L c]
      store_typed_on_connection [OF op_stable_operations(5) [OF op_stable_identity], of c L]
      store_typed_on_connection [OF op_stable_operations(6) [OF op_stable_identity], of c L]
    unfolding preserves_def J_def by (simp_all add: on_connection_apply)
  have J: "J S" using assms(1,2) by (simp add: J_def)
  have update: "J (settled_store a st T)" "J (released_store a T)" if "J T" for T st a
    using that by (auto simp: J_def store_ok_def store_typed_def raw_typed_settled settled_store_def released_store_def)
  have "J (fst (snd (settle_with i (\<lambda>c. on_connection c (commit L)) base (S, m))))"
    "J (fst (snd (settle_with i (\<lambda>c. on_connection c (backout L)) base (S, m))))" for i base
    by (rule settle_with_keeps [where J = J]; (rule J update preservesD [OF op(1) J] preservesD [OF op(2) J]; assumption?))+
  then have "J S'"
    by (auto simp: assms(3) settle_step_def ack_def nack_def reject_def connection_acknowledger_def split: settlement.split)
  then show ?thesis by (simp add: J_def)
qed

lemma process_ok_step:
  assumes "process_step L F H P P'" and H: "\<And>i. hooks_behaved L (H i)" and P: "process_ok L P"
  shows "process_ok L P'"
  using assms(1)
proof cases
  case (producer_acts S' q')
  have "producer_ok L (S', q')" by (rule producer_ok_step [OF producer_acts(2)]) (use P in \<open>simp add: process_ok_def\<close>)
  from producer_keeps_process [OF P this store_typed_producer_step [OF producer_acts(2) producer_inside_start [OF P]]]
  show ?thesis by (simp add: producer_acts(1))
next
  case (request_replied fuel cmd m S' q')
  note step = producer_requests [of L F "(proc_store P, proc_producer P)" fuel cmd, unfolded request_replied(2) snd_conv]
  have "producer_ok L (S', q')" by (rule producer_ok_step [OF step]) (use P in \<open>simp add: process_ok_def\<close>)
  note ok = producer_keeps_process [OF P this store_typed_producer_step [OF step producer_inside_start [OF P]]]
  have "fresh_message None m" by (rule producer_request_fresh [OF request_replied(2)])
  from new_keeps_process [OF ok this] show ?thesis by (cases P) (simp add: request_replied(1))
next
  case (subscriber_declared cfg a)
  have "holds P' x = Some c \<Longrightarrow> holds P x = Some c" for x c
    unfolding subscriber_declared
    by (cases x) (auto simp: nth_append registrator_subscriber_def create_subscriber_def split: if_splits)
  with P show ?thesis
    unfolding subscriber_declared
    by (auto simp: process_ok_def one_owner_def sub_typed_def registrator_subscriber_def create_subscriber_def)
next
  case (subscriber_acts i S' p')
  from subscriber_keeps_process [OF P subscriber_acts(2) H subscriber_acts(3)]
  show ?thesis by (simp add: subscriber_acts(1))
next
  case (message_settled k m)
  have "store_ok L (proc_store P)" "store_typed (proc_store P)" using P by (simp_all add: process_ok_def producer_ok_def)
  from settle_keeps_store [OF this refl, of F k m] show ?thesis
    unfolding message_settled by (intro store_keeps_process [OF P]) simp_all
next
  case (reply_sent cp cmd)
  have "store_ok L (snd (connection_publish L F cp cmd (proc_store P)))"
    "store_typed (snd (connection_publish L F cp cmd (proc_store P)))"
    unfolding connection_publish_def
    by (rule preservesD [OF store_ok_operations(8)]
          preservesD [OF store_typed_on_connection [OF op_stable_operations(8) [OF op_stable_identity]]],
        use P in \<open>simp add: process_ok_def producer_ok_def\<close>)+
  then show ?thesis
    unfolding reply_sent by (intro store_keeps_process [OF P]) (simp_all add: connection_publish_def on_connection_apply)
next
  case (test_delivery new_id ser cmd m)
  have "fresh_message None m"
    using test_delivery(2-4) unfolding message_of_command_def by (rule build_message_typed)
  from new_keeps_process [OF P this] show ?thesis by (simp add: test_delivery(1))
qed

lemma process_ok_reachable:
  "process_reachable L F H P \<Longrightarrow> (\<And>i. hooks_behaved L (H i)) \<Longrightarrow> process_ok L P"
proof (induction rule: process_reachable.induct)
  case (process_init S)
  have "holds \<lparr>proc_store = S, proc_producer = AsyncMQFastProducerImpl_init, proc_subscribers = []\<rparr> x = None" for x
    by (cases x) (simp_all add: AsyncMQFastProducerImpl_init_def)
  then show ?case
    using process_init by (simp add: process_ok_def producer_ok_init store_typed_def one_owner_def)
qed (blast intro: process_ok_step)


text \<open>A declared subscriber that has started and consumed a message its handler refused.\<close>

definition sample_run :: "mqstate \<times> MQSubscriber" where
  "sample_run = (let H = sample_hooks (\<lambda>a. throw NackMessage); L = sample_lib no_faults in
     snd (consume_turn L H 1 (snd (start L H 1 (empty_state,
       registrator_subscriber sample_broker_config (registrator_subscriber_defaults (QueueStr ''ORDERS'')))))))"

definition sample_process :: mq_process where
  "sample_process = \<lparr>proc_store = fst sample_run, proc_producer = AsyncMQFastProducerImpl_init,
     proc_subscribers = [snd sample_run]\<rparr>"

lemma sample_process_reachable:
  "process_reachable (sample_lib no_faults) F (\<lambda>_. sample_hooks (\<lambda>a. throw NackMessage)) sample_process"
proof -
  let ?L = "sample_lib no_faults" and ?H = "sample_hooks (\<lambda>a. throw NackMessage)"
  let ?p = "registrator_subscriber sample_broker_config (registrator_subscriber_defaults (QueueStr ''ORDERS''))"
  let ?P = "\<lambda>z. \<lparr>proc_store = fst z, proc_producer = AsyncMQFastProducerImpl_init, proc_subscribers = [snd z]\<rparr>"
  have act: "process_reachable ?L F (\<lambda>_. ?H) (?P z')"
    if "process_reachable ?L F (\<lambda>_. ?H) (?P z)" "subscriber_step ?L ?H z z'" for z z'
    using process_next [OF that(1) subscriber_acts [of 0 "?P z" ?L "\<lambda>_. ?H" "fst z'" "snd z'" F]] that(2) by simp
  have "process_reachable ?L F (\<lambda>_. ?H)
      \<lparr>proc_store = empty_state, proc_producer = AsyncMQFastProducerImpl_init, proc_subscribers = []\<rparr>"
    by (rule process_init [OF empty_state_ok]) (simp_all add: empty_state_def)
  from process_next [OF this subscriber_declared [where cfg = sample_broker_config
        and a = "registrator_subscriber_defaults (QueueStr ''ORDERS'')"]]
  have "process_reachable ?L F (\<lambda>_. ?H) (?P (empty_state, ?p))" by simp
  from act [OF act [OF this subscriber_starts [where n = 1]] subscriber_consumes [where fuel = 1]]
  show ?thesis unfolding sample_process_def sample_run_def Let_def .
qed

lemma sample_hooks_behaved: "(\<And>a. behaved L (h a)) \<Longrightarrow> hooks_behaved L (sample_hooks h)"
  by (auto simp: hooks_behaved_def sample_hooks_def intro: behaved_rules behaved_local)


end
