(* ===== verification/MQ_Unit_Loop.thy ===== *)
theory MQ_Unit_Loop
  imports MQ_Unit_Of_Work MQ_Store_Props
begin

text \<open>
  One message per unit of work. While the subscriber runs its loop, the handlers, the
  other tasks and the rest of the process act on the connection in between. Still, at the
  head of the loop the unit of work of the consuming connection contains no get, so that a
  commit never settles a message along with another one, unless a settlement has failed.
\<close>

section \<open>Gets not yet settled\<close>

definition open_gets :: "mqlib \<Rightarrow> cst \<Rightarrow> nat list" where
  "open_gets L s = filter (\<lambda>j. is_get (fst (history (snd s) ! j))) (held_unit L s)"

lemma unit_positions: "j \<in> set (unit_of_work L q h) \<Longrightarrow> j < length h"
proof (induction h rule: rev_induct)
  case (snoc x h)
  then show ?case by (auto simp: unit_of_work_snoc split: if_splits)
qed simp

lemma held_positions: "j \<in> set (held_unit L s) \<Longrightarrow> j < length (history (snd s))"
  by (auto simp: held_unit_def split: option.splits intro: unit_positions)

text \<open>What an operation other than a get may do to the unit leaves a unit without gets.\<close>

definition gets_nothing :: "mqlib \<Rightarrow> cst \<Rightarrow> cst \<Rightarrow> bool" where
  "gets_nothing L s t \<longleftrightarrow> (\<exists>h. history (snd t) = history (snd s) @ h)
     \<and> (held_unit L t = unit_base L s t \<or> held_unit L t = []
        \<or> unit_with L is_put (length (history (snd s))) (unit_base L s t) t)"

lemma gets_nothing_open:
  assumes "gets_nothing L s t" and "open_gets L s = []"
  shows "open_gets L t = []"
proof -
  obtain h where h: "history (snd t) = history (snd s) @ h" using assms(1) by (auto simp: gets_nothing_def)
  have "\<not> is_get (fst (history (snd t) ! j))" if "j \<in> set (held_unit L s)" for j
    using that assms(2) held_positions [OF that] by (auto simp: open_gets_def filter_empty_conv h nth_append)
  moreover have "\<not> is_get x" if "is_put x" for x using that by (cases x) simp_all
  ultimately show ?thesis
    using assms(1) by (auto simp: gets_nothing_def open_gets_def filter_empty_conv unit_base_def unit_with_def
        split: if_splits)
qed

lemma operation_grows:
  assumes "\<And>I. op_stable L I \<Longrightarrow> preserves I op" and "op s = (r, t)"
  shows "\<exists>h. history (snd t) = history (snd s) @ h"
  using preservesD [OF assms(1) [OF op_stable_adds] adds_start, of s] assms(2) by (auto simp: adds_def)

lemma gets_nothing_settles:
  assumes ok: "conn_ok L s"
  shows "gets_nothing L s (snd (commit L s))" "gets_nothing L s (snd (backout L s))"
proof -
  have "\<exists>h. history (snd (snd (commit L s))) = history (snd s) @ h"
    "\<exists>h. history (snd (snd (backout L s))) = history (snd s) @ h"
    by (rule operation_grows [where s = s, OF _ surjective_pairing], rule op_stable_operations, assumption)+
  then show "gets_nothing L s (snd (commit L s))" "gets_nothing L s (snd (backout L s))"
    using settle_unit [OF ok disjI1 [OF surjective_pairing]] settle_unit [OF ok disjI2 [OF surjective_pairing]]
    by (auto simp: gets_nothing_def split: outcome.splits)
qed

lemma gets_nothing_operations:
  assumes L: "syncpoint_bits L" and ok: "conn_ok L s"
  shows "gets_nothing L s (snd (stop_consumer L s))" "gets_nothing L s (snd (disconnect L s))"
    "gets_nothing L s (snd (ping L s))" "gets_nothing L s (snd (request L F fuel cmd ser s))"
    "gets_nothing L s (snd (publish L F cmd ser s))"
proof -
  note grows = operation_grows [where s = s, OF _ surjective_pairing]
  note untouched = untouched_operations(3-5) [OF ok, OF surjective_pairing]
    untouched_operations(7) [OF ok L surjective_pairing]
  show "gets_nothing L s (snd (stop_consumer L s))" "gets_nothing L s (snd (disconnect L s))"
    "gets_nothing L s (snd (ping L s))" "gets_nothing L s (snd (request L F fuel cmd ser s))"
    unfolding gets_nothing_def
    by (intro conjI grows op_stable_operations disjI1 untouched; assumption)+
  have "\<exists>h. history (snd (snd (publish L F cmd ser s))) = history (snd s) @ h"
    by (rule grows, rule op_stable_operations)
  then show "gets_nothing L s (snd (publish L F cmd ser s))"
    using publish_unit [OF L _ ok surjective_pairing, of cmd F ser]
      untouched_operations(6) [OF ok L, where cmd = cmd and F = F and ser = ser]
    by (cases "publish L F cmd ser s"; cases "syncpoint cmd")
      (auto simp: gets_nothing_def unit_left_def split: outcome.splits)
qed

section \<open>Settlements account for the gets\<close>

text \<open>
  An acknowledger on a connection whose unit of work is \<open>clean\<close> after every commit and
  backout that returned, and stays so.
\<close>

locale clearing_provider =
  fixes A :: acknowledger and c :: nat and ok clean :: "mqstate \<Rightarrow> bool"
  assumes clears: "ok S \<Longrightarrow> fst (ack_commit A c S) = Returns u \<Longrightarrow> clean (snd (ack_commit A c S))"
      "ok S \<Longrightarrow> fst (ack_backout A c S) = Returns u \<Longrightarrow> clean (snd (ack_backout A c S))"
    and stays_clean: "ok S \<Longrightarrow> clean S \<Longrightarrow> clean (snd (ack_commit A c S))"
      "ok S \<Longrightarrow> clean S \<Longrightarrow> clean (snd (ack_backout A c S))"
    and stays_ok: "ok S \<Longrightarrow> ok (snd (ack_commit A c S))" "ok S \<Longrightarrow> ok (snd (ack_backout A c S))"
    and same_store: "raw_messages (snd (ack_commit A c S)) = raw_messages S"
      "raw_messages (snd (ack_backout A c S)) = raw_messages S"
      "next_message (snd (ack_commit A c S)) = next_message S"
      "next_message (snd (ack_backout A c S)) = next_message S"
    and of_messages: "ok (S\<lparr>raw_messages := r\<rparr>) = ok S" "clean (S\<lparr>raw_messages := r\<rparr>) = clean S"

text \<open>The unit is clean, or a message taken since there were \<open>n\<close> has not been settled.\<close>

definition unsettled_since :: "nat \<Rightarrow> nat \<Rightarrow> mqstate \<Rightarrow> bool" where
  "unsettled_since c n S \<longleftrightarrow> (\<exists>b. n \<le> b \<and> b < next_message S \<and> connection (raw_messages S b) = Some c
     \<and> settled (raw_messages S b) = None)"

definition accounted :: "(mqstate \<Rightarrow> bool) \<Rightarrow> (mqstate \<Rightarrow> bool) \<Rightarrow> nat \<Rightarrow> nat \<Rightarrow> mqstate \<Rightarrow> bool" where
  "accounted ok clean c n S \<longleftrightarrow> ok S \<and> n \<le> next_message S \<and> (clean S \<or> unsettled_since c n S)"

context clearing_provider begin

text \<open>Setting a message settled, or releasing its waiters, with the unit clean or nothing changed.\<close>

lemma accounted_set:
  assumes "accounted ok clean c n S" and "connection (f (raw_messages S a)) = connection (raw_messages S a)"
    and "clean S \<or> settled (raw_messages S a) \<noteq> None \<or> settled (f (raw_messages S a)) = None
      \<or> connection (raw_messages S a) \<noteq> Some c"
  shows "accounted ok clean c n (S\<lparr>raw_messages := (raw_messages S)(a := f (raw_messages S a))\<rparr>)"
  using assms by (auto simp: accounted_def of_messages unsettled_since_def)

lemma accounted_settle:
  assumes "accounted ok clean c n S" and "op = ack_commit A \<or> op = ack_backout A"
  shows "accounted ok clean c n (snd (op c S))" "fst (op c S) = Returns u \<Longrightarrow> clean (snd (op c S))"
    "raw_messages (snd (op c S)) = raw_messages S"
  using assms stays_clean stays_ok same_store clears
  by (auto simp: accounted_def unsettled_since_def)

lemma accounted_settled:
  assumes "accounted ok clean c n T" and "raw_messages T = raw_messages S"
    and "clean T \<or> settled (raw_messages S a) \<noteq> None \<or> connection (raw_messages S a) \<noteq> Some c"
  shows "accounted ok clean c n (settled_store a st T)"
  unfolding settled_store_def
  by (rule accounted_set [OF assms(1), of "\<lambda>r. r\<lparr>settled := st, settled_event := True\<rparr>"]) (use assms(2,3) in auto)

lemma accounted_released: "accounted ok clean c n T \<Longrightarrow> accounted ok clean c n (released_store a T)"
  unfolding released_store_def
  by (rule accounted_set [of n T "\<lambda>r. r\<lparr>settled_event := True\<rparr>"]) auto

lemma settle_with_accounted:
  assumes acc: "accounted ok clean c n S" and op: "op = ack_commit A \<or> op = ack_backout A"
    and own: "connection (raw_messages S (raw_message m)) \<in> {Some c, None}"
    and step: "committed m \<noteq> None \<Longrightarrow> settled (raw_messages S (raw_message m)) \<noteq> None"
  shows "accounted ok clean c n (fst (snd (settle_with i op base (S, m))))"
proof (cases "connection (raw_messages S (raw_message m)) = Some c \<and> committed m = None")
  case True
  obtain r T where w: "wait_for_broker_settle i (op c) S = (r, T)" by (cases "wait_for_broker_settle i (op c) S")
  have "accounted ok clean c n T \<and> raw_messages T = raw_messages S \<and> (\<forall>u. r = Returns u \<longrightarrow> clean T)"
    using w accounted_settle [OF acc op] acc
    by (cases i) (auto simp: wait_for_broker_settle_def split: if_splits)
  then show ?thesis
    using True w by (auto simp: settle_with_state split: outcome.split intro: accounted_settled [where S = S] accounted_released)
next
  case False
  have "accounted ok clean c n (settled_store (raw_message m) (base (committed m)) S)"
    by (rule accounted_settled [OF acc refl]) (use False own step in auto)
  then show ?thesis
    using False own by (auto simp: settle_with_state)
qed

lemma settle_unresolved_accounted:
  assumes acc: "accounted ok clean c n S" and own: "connection (raw_messages S a) \<in> {Some c, None}"
  shows "accounted ok clean c n (snd (settle_unresolved_message A policy cancelled a e S))"
proof (cases "connection (raw_messages S a) = None \<or> settled (raw_messages S a) \<noteq> None")
  case True
  then show ?thesis using acc by (auto simp: settle_unresolved_message_def prog_simps split: option.split)
next
  case False
  then have c: "connection (raw_messages S a) = Some c" "settled (raw_messages S a) = None" using own by auto
  define op where "op = (if should_commit policy e then ack_commit A else ack_backout A)"
  define st where "st = (if should_commit policy e then ACKED else NACKED)"
  have op: "op = ack_commit A \<or> op = ack_backout A" by (simp add: op_def)
  obtain r T where w: "shield cancelled (op c) S = (r, T)" by (cases "shield cancelled (op c) S")
  have T: "accounted ok clean c n T \<and> raw_messages T = raw_messages S \<and> (\<forall>u. r = Returns u \<longrightarrow> clean T)"
    using w accounted_settle [OF acc op] by (auto simp: shield_def split: if_splits)
  have "snd (settle_unresolved_message A policy cancelled a e S) = (case r of
      Returns u \<Rightarrow> settled_store a (Some st) T
    | Raises err \<Rightarrow> if err = CancelledError \<or> is_exception err then released_store a T else T
    | NoFuel \<Rightarrow> T)"
    using c w by (cases "should_commit policy e")
      (simp_all add: settle_unresolved_message_def prog_simps op_def st_def settled_store_def released_store_def
        split: outcome.split)
  then show ?thesis
    using T by (auto split: outcome.split intro: accounted_settled [where S = S] accounted_released)
qed

end

section \<open>The connection accounts for them\<close>

definition unit_ok :: "mqlib \<Rightarrow> nat \<Rightarrow> mqstate \<Rightarrow> bool" where
  "unit_ok L c S \<longleftrightarrow> conn_ok L (connections S c, the_world S) \<and> self_id (connections S c) = c"

definition unit_clean :: "mqlib \<Rightarrow> nat \<Rightarrow> mqstate \<Rightarrow> bool" where
  "unit_clean L c S \<longleftrightarrow> open_gets L (connections S c, the_world S) = []"

lemma on_connection_unit:
  assumes "unit_ok L c S" and "preserves (conn_ok L) op" and "\<And>I. op_stable L I \<Longrightarrow> preserves I op"
  shows "unit_ok L c (snd (on_connection c op S))"
  using assms(1) preservesD [OF assms(2), of "(connections S c, the_world S)"]
    preservesD [OF assms(3) [OF op_stable_identity [of L c]], of "(connections S c, the_world S)"]
  by (simp add: unit_ok_def on_connection_apply)

lemma on_connection_clean:
  assumes "gets_nothing L (connections S c, the_world S) (snd (op (connections S c, the_world S)))"
    and "unit_clean L c S"
  shows "unit_clean L c (snd (on_connection c op S))"
  using gets_nothing_open [OF assms(1)] assms(2) by (simp add: unit_clean_def on_connection_apply)

interpretation unit_ack: clearing_provider "connection_acknowledger L" c "unit_ok L c" "unit_clean L c" for L c
proof
  fix S :: mqstate and u :: unit
  let ?s = "(connections S c, the_world S)"
  assume ok: "unit_ok L c S"
  then have s: "conn_ok L ?s" by (simp add: unit_ok_def)
  show "unit_ok L c (snd (ack_commit (connection_acknowledger L) c S))"
    "unit_ok L c (snd (ack_backout (connection_acknowledger L) c S))"
    using on_connection_unit [OF ok pres_transaction_ok(1)] on_connection_unit [OF ok pres_transaction_ok(2)]
    by (simp_all add: connection_acknowledger_def op_stable_operations)
  show "unit_clean L c (snd (ack_commit (connection_acknowledger L) c S))"
      if "fst (ack_commit (connection_acknowledger L) c S) = Returns u"
    using that settle_unit [OF s disjI1 [OF surjective_pairing]]
    by (simp add: connection_acknowledger_def on_connection_apply unit_clean_def open_gets_def)
  show "unit_clean L c (snd (ack_backout (connection_acknowledger L) c S))"
      if "fst (ack_backout (connection_acknowledger L) c S) = Returns u"
    using that settle_unit [OF s disjI2 [OF surjective_pairing]]
    by (simp add: connection_acknowledger_def on_connection_apply unit_clean_def open_gets_def)
  show "unit_clean L c (snd (ack_commit (connection_acknowledger L) c S))"
      "unit_clean L c (snd (ack_backout (connection_acknowledger L) c S))" if "unit_clean L c S"
    using on_connection_clean [where op = "commit L", OF gets_nothing_settles(1) [OF s] that]
      on_connection_clean [where op = "backout L", OF gets_nothing_settles(2) [OF s] that]
    by (simp_all add: connection_acknowledger_def)
qed (simp_all add: connection_acknowledger_def on_connection_apply unit_ok_def unit_clean_def)

abbreviation unit_accounted :: "mqlib \<Rightarrow> nat \<Rightarrow> nat \<Rightarrow> mqstate \<Rightarrow> bool" where
  "unit_accounted L c \<equiv> accounted (unit_ok L c) (unit_clean L c) c"

lemma accounted_operation:
  assumes "unit_accounted L c n S" and "preserves (conn_ok L) op" and "\<And>I. op_stable L I \<Longrightarrow> preserves I op"
    and "\<And>s. conn_ok L s \<Longrightarrow> gets_nothing L s (snd (op s))"
  shows "unit_accounted L c n (snd (on_connection c op S))"
proof -
  have ok: "unit_ok L c S" using assms(1) by (simp add: accounted_def)
  then have "gets_nothing L (connections S c, the_world S) (snd (op (connections S c, the_world S)))"
    by (intro assms(4)) (simp add: unit_ok_def)
  then show ?thesis
    using assms(1) on_connection_unit [OF ok assms(2,3)] on_connection_clean [where L = L and S = S and c = c and op = op]
    by (auto simp: accounted_def unsettled_since_def on_connection_apply)
qed

section \<open>What happens between two fetches\<close>

text \<open>
  One step of the application or of another task, seen from the connection \<open>c\<close> of the
  subscriber: a message of \<open>c\<close> settled (a message object that says it has been settled
  belongs to a raw message that has), an operation on \<open>c\<close> other than a get, a call that is
  not part of the unit of \<open>c\<close>'s queue manager and neither ends nor disconnects it, a change
  of other objects, a change of the subscriber's fields.
\<close>

inductive app_step :: "mqlib \<Rightarrow> fslib \<Rightarrow> nat \<Rightarrow> mqstate \<times> MQSubscriber \<Rightarrow> mqstate \<times> MQSubscriber \<Rightarrow> bool"
  for L F c where
  app_settles: "connection (raw_messages S (raw_message m)) \<in> {Some c, None} \<Longrightarrow>
    (committed m \<noteq> None \<longrightarrow> settled (raw_messages S (raw_message m)) \<noteq> None) \<Longrightarrow>
    settle \<in> {ack F (connection_acknowledger L) i, nack F (connection_acknowledger L) i,
      reject F (connection_acknowledger L) i} \<Longrightarrow>
    app_step L F c (S, p) (fst (snd (settle (S, m))), p)"
| app_publishes: "app_step L F c (S, p) (snd (on_connection c (publish L F cmd ser) S), p)"
| app_requests: "app_step L F c (S, p) (snd (on_connection c (request L F fuel cmd ser) S), p)"
| app_pings: "app_step L F c (S, p) (snd (on_connection c (ping L) S), p)"
| app_closes: "closing \<in> {stop_consumer L, disconnect L} \<Longrightarrow>
    app_step L F c (S, p) (snd (on_connection c closing S), p)"
| app_calls: "(\<And>q. qmgr (connections S c) = Some q \<Longrightarrow>
      \<not> ends_unit q (x, b) \<and> \<not> joins_unit L (history (the_world S)) q (x, b)) \<Longrightarrow>
    (\<And>q. x = Disconnect q \<Longrightarrow> q < length (history (the_world S))) \<Longrightarrow>
    app_step L F c (S, p) (S\<lparr>the_world := record_call x b (the_world S)\<rparr>, p)"
| app_objects: "connections S' c = connections S c \<Longrightarrow> history (the_world S') = history (the_world S) \<Longrightarrow>
    next_message S \<le> next_message S' \<Longrightarrow>
    (\<And>a. a < next_message S \<Longrightarrow> connection (raw_messages S a) = Some c \<Longrightarrow> raw_messages S' a = raw_messages S a) \<Longrightarrow>
    app_step L F c (S, p) (S', p)"
| app_fields: "consumer p' = consumer p \<or> consumer p' = None \<Longrightarrow> app_step L F c (S, p) (S, p')"

definition app_runs :: "mqlib \<Rightarrow> fslib \<Rightarrow> nat \<Rightarrow> fsub \<Rightarrow> bool" where
  "app_runs L F c H \<longleftrightarrow> (\<forall>z. (app_step L F c)\<^sup>*\<^sup>* z (snd (base_stop H z))
     \<and> (app_step L F c)\<^sup>*\<^sup>* z (snd (other_tasks H z)) \<and> (app_step L F c)\<^sup>*\<^sup>* z (snd (app_exit H z))
     \<and> (\<forall>a. connection (raw_messages (fst z) a) = Some c \<longrightarrow>
          (app_step L F c)\<^sup>*\<^sup>* z (snd (base_process_message H a z))))"

text \<open>The account between two fetches, while the message \<open>a\<close> of the connection may be at hand.\<close>

definition at_hand :: "nat \<Rightarrow> nat option \<Rightarrow> mqstate \<Rightarrow> bool" where
  "at_hand c x S \<longleftrightarrow> (\<forall>a. x = Some a \<longrightarrow> a < next_message S \<and> connection (raw_messages S a) = Some c)"

definition account :: "mqlib \<Rightarrow> nat \<Rightarrow> nat \<Rightarrow> nat option \<Rightarrow> mqstate \<times> MQSubscriber \<Rightarrow> bool" where
  "account L c n x z \<longleftrightarrow> unit_accounted L c n (fst z) \<and> at_hand c x (fst z)
     \<and> (consumer (snd z) = Some c \<or> consumer (snd z) = None)"

lemma at_hand_operation: "at_hand c x (snd (on_connection i op S)) \<longleftrightarrow> at_hand c x S"
  by (simp add: at_hand_def on_connection_apply)

lemma at_hand_settle:
  "op = ack_commit (connection_acknowledger L) \<or> op = ack_backout (connection_acknowledger L) \<Longrightarrow>
     at_hand c x S \<Longrightarrow> at_hand c x (fst (snd (settle_with i op base (S, m))))"
  by (cases i) (auto simp: settle_with_state at_hand_def settled_store_def released_store_def
      wait_for_broker_settle_def connection_acknowledger_def on_connection_apply
      split: option.split prod.split outcome.split)

lemma unaffected_call:
  assumes "unit_accounted L c n S"
    and "\<And>q. qmgr (connections S c) = Some q \<Longrightarrow> \<not> ends_unit q (x, b) \<and> \<not> joins_unit L (history (the_world S)) q (x, b)"
    and "\<And>q. x = Disconnect q \<Longrightarrow> q < length (history (the_world S))"
  shows "unit_accounted L c n (S\<lparr>the_world := record_call x b (the_world S)\<rparr>)"
proof -
  let ?s = "(connections S c, the_world S)" and ?t = "(connections S c, record_call x b (the_world S))"
  have s: "conn_ok L ?s" using assms(1) by (simp add: accounted_def unit_ok_def)
  have ok: "conn_ok L ?t"
  proof (cases x)
    case (Disconnect q)
    with assms(2,3) s show ?thesis by (auto simp: conn_ok_defs intro!: live_qmgr_append)
  qed (use s in \<open>auto simp: conn_ok_def intro: conn_ok_named_record\<close>)
  have "unit_of_work L q (history (the_world S) @ [(x, b)]) = unit_of_work L q (history (the_world S))"
    if "qmgr (connections S c) = Some q" for q
  proof -
    have "q < length (history (the_world S))" using s that by (simp add: conn_ok_defs)
    then show ?thesis using assms(2) [OF that] by (simp add: unit_of_work_snoc)
  qed
  then have "held_unit L ?t = held_unit L ?s"
    by (simp add: held_unit_def split: option.split)
  then have "open_gets L ?t = open_gets L ?s"
    using held_positions [of _ L ?s] by (auto simp: open_gets_def nth_append intro: filter_cong)
  with ok assms(1) show ?thesis by (simp add: accounted_def unit_ok_def unit_clean_def unsettled_since_def)
qed

lemma account_step:
  assumes L: "syncpoint_bits L" and "app_step L F c y z" and "account L c n x y"
  shows "account L c n x z"
  using assms(2,3)
proof (induction rule: app_step.induct)
  case (app_settles S m settle i p)
  have "unit_accounted L c n (fst (snd (settle_with i op base (S, m))))
      \<and> at_hand c x (fst (snd (settle_with i op base (S, m))))"
    if "op = ack_commit (connection_acknowledger L) \<or> op = ack_backout (connection_acknowledger L)" for op base
    using app_settles that unit_ack.settle_with_accounted [of L c n S op m i base] at_hand_settle [OF that]
    by (auto simp: account_def)
  then show ?case
    using app_settles(3,4) by (auto simp: account_def ack_def nack_def reject_def)
next
  case (app_publishes S p cmd ser)
  then show ?case
    using accounted_operation [OF _ pres_message_ok(2) op_stable_operations(8) gets_nothing_operations(5) [OF L]]
    by (simp add: account_def at_hand_operation)
next
  case (app_requests S p fuel cmd ser)
  then show ?case
    using accounted_operation [OF _ pres_message_ok(3) op_stable_operations(10) gets_nothing_operations(4) [OF L]]
    by (simp add: account_def at_hand_operation)
next
  case (app_pings S p)
  then show ?case
    using accounted_operation [OF _ pres_transaction_ok(3) op_stable_operations(7) gets_nothing_operations(3) [OF L]]
    by (simp add: account_def at_hand_operation)
next
  case (app_closes closing S p)
  then show ?case
    using accounted_operation [OF _ pres_stop_consumer_ok op_stable_operations(4) gets_nothing_operations(1) [OF L]]
      accounted_operation [OF _ pres_disconnect_ok op_stable_operations(2) gets_nothing_operations(2) [OF L]]
    by (auto simp: account_def at_hand_operation)
next
  case (app_calls S x b p)
  then show ?case using unaffected_call [of L c n S x b] by (simp add: account_def at_hand_def)
next
  case (app_objects S' S p)
  have s: "held_unit L (connections S' c, the_world S') = held_unit L (connections S c, the_world S)"
    "open_gets L (connections S' c, the_world S') = open_gets L (connections S c, the_world S)"
    "conn_ok L (connections S' c, the_world S') = conn_ok L (connections S c, the_world S)"
    using app_objects(1,2) by (simp_all add: held_unit_def open_gets_def conn_ok_defs split: option.split)
  have "unsettled_since c n S'" if "unsettled_since c n S"
    using that app_objects(3,4) unfolding unsettled_since_def by (metis order_less_le_trans)
  moreover have "at_hand c x S'"
    using app_objects(3-5) unfolding account_def at_hand_def by (metis fst_conv order_less_le_trans)
  ultimately show ?case
    using app_objects(1,3,5) s by (auto simp: account_def accounted_def unit_ok_def unit_clean_def)
next
  case (app_fields p' p S)
  then show ?case by (auto simp: account_def)
qed

lemma account_steps:
  assumes "syncpoint_bits L"
  shows "(app_step L F c)\<^sup>*\<^sup>* y z \<Longrightarrow> account L c n x y \<Longrightarrow> account L c n x z"
  by (induction rule: rtranclp_induct) (auto intro: account_step [OF assms])

section \<open>The pieces of the loop\<close>

lemma account_run:
  "syncpoint_bits L \<Longrightarrow> (\<And>z. account L c n x z \<Longrightarrow> (app_step L F c)\<^sup>*\<^sup>* z (snd (m z))) \<Longrightarrow> preserves (account L c n x) m"
  by (rule preservesI) (rule account_steps)

lemma account_hooks:
  assumes L: "syncpoint_bits L" and runs: "app_runs L F c H"
  shows "preserves (account L c n x) (base_stop H)" "preserves (account L c n x) (other_tasks H)"
    "preserves (account L c n x) (app_exit H)" "preserves (account L c n (Some a)) (base_process_message H a)"
proof -
  show "preserves (account L c n x) (base_stop H)" "preserves (account L c n x) (other_tasks H)"
    "preserves (account L c n x) (app_exit H)"
    using runs unfolding app_runs_def by (blast intro: account_run [OF L, where F = F])+
  show "preserves (account L c n (Some a)) (base_process_message H a)"
  proof (rule account_run [OF L, where F = F])
    fix z assume "account L c n (Some a) z"
    then have "connection (raw_messages (fst z) a) = Some c" by (simp add: account_def at_hand_def)
    with runs show "(app_step L F c)\<^sup>*\<^sup>* z (snd (base_process_message H a z))" unfolding app_runs_def by blast
  qed
qed

lemma account_local:
  "(\<And>p. consumer (f p) = consumer p \<or> consumer (f p) = None) \<Longrightarrow> preserves (account L c n x) (local f)"
  unfolding preserves_def local_apply account_def by (metis fst_conv snd_conv)

lemma account_bind_consumer:
  assumes "preserves (account L c n x) (k None)" and "preserves (account L c n x) (k (Some c))"
  shows "preserves (account L c n x) (bind (get_local consumer) k)"
proof (rule preservesI)
  fix z assume z: "account L c n x z"
  then have "consumer (snd z) = Some c \<or> consumer (snd z) = None" by (simp add: account_def)
  then show "account L c n x (snd (bind (get_local consumer) k z))"
    using preservesD [OF assms(1) z] preservesD [OF assms(2) z] by (auto simp: bind_apply get_local_apply)
qed

lemma account_closing:
  assumes "syncpoint_bits L" and "closing \<in> {stop_consumer L, disconnect L}"
  shows "preserves (account L c n x) (outside (on_connection c closing))"
proof (rule preservesI)
  fix z assume z: "account L c n x z"
  have "app_step L sample_fslib c (fst z, snd z) (snd (on_connection c closing (fst z)), snd z)"
    by (rule app_closes [OF assms(2)])
  from account_step [OF assms(1) this] z show "account L c n x (snd (outside (on_connection c closing) z))"
    by (simp add: outside_apply)
qed

lemma account_stop:
  assumes "syncpoint_bits L" and "app_runs L F c H"
  shows "preserves (account L c n x) (stop L H True)"
proof -
  have wait: "preserves (account L c n x) (cancel_and_wait H True k)" for k
    unfolding cancel_and_wait_def never_returns_def by (auto intro: pres_rules)
  have close: "preserves (account L c n x) (bind (get_local consumer) (\<lambda>c. case c of
         None \<Rightarrow> ret ()
       | Some i \<Rightarrow>
           seq (outside (on_connection i (stop_consumer L)))
           (seq (outside (on_connection i (disconnect L)))
           (local (\<lambda>p. p\<lparr>consumer := None\<rparr>)))))"
    by (rule account_bind_consumer)
      (auto intro!: pres_ret pres_seq account_closing [OF assms(1)] account_local)
  show ?thesis
    unfolding stop_def
    by (intro pres_bind [of _ "get_local tasks"] pres_bind [of _ "get_local test_messages"] pres_get_local pres_seq pres_if
        account_hooks(1) [OF assms] account_local wait close) simp_all
qed

lemma account_settle_unresolved:
  "preserves (account L c n (Some a)) (settle_unresolved L H a e)"
proof (rule preservesI)
  fix z assume z: "account L c n (Some a) z"
  let ?settle = "\<lambda>policy. settle_unresolved_message (connection_acknowledger L) policy (settle_cancelled H a) a e"
  have "unit_accounted L c n (snd (?settle policy (fst z)))" for policy
    by (rule unit_ack.settle_unresolved_accounted) (use z in \<open>auto simp: account_def at_hand_def\<close>)
  moreover have "at_hand c (Some a) (snd (?settle policy (fst z)))" for policy
    using z by (auto simp: account_def at_hand_def settle_unresolved_message_def connection_acknowledger_def shield_def
        prog_simps split: option.split outcome.split)
  ultimately show "account L c n (Some a) (snd (settle_unresolved L H a e z))"
    using z by (simp add: account_def settle_unresolved_def prog_simps)
qed

lemma account_consume:
  assumes "syncpoint_bits L" and "app_runs L F c H"
  shows "preserves (account L c n (Some a)) (consume L H True a)"
  unfolding consume_def
  by (intro pres_bind pres_get_local pres_if pres_ret pres_try_except pres_throw pres_seq
      account_hooks [OF assms] account_settle_unresolved account_stop [OF assms])

lemma account_wait:
  assumes "syncpoint_bits L" and "app_runs L F c H"
  shows "preserves (account L c n x) (wait_settled_event H a)"
proof -
  have raw: "preserves (account L c n x) (outside (get_raw a g))" for g :: "MQRawMessage \<Rightarrow> 'b"
    by (simp add: preserves_def outside_apply get_raw_apply)
  show ?thesis unfolding wait_settled_event_def never_returns_def
    by (intro pres_bind pres_seq pres_if pres_ret pres_out_of_fuel raw account_hooks [OF assms])
qed

text \<open>A fetch takes a message into the unit only together with a message at hand.\<close>

lemma account_got:
  assumes L: "syncpoint_bits L" and acc: "unit_accounted L c n S"
    and got: "get_message L fuel t k (connections S c, the_world S) = (Returns r, s1)"
    and S1: "S1 = S\<lparr>connections := (connections S)(c := fst s1), the_world := snd s1\<rparr>"
  shows "case r of None \<Rightarrow> unit_accounted L c n S1
    | Some m \<Rightarrow> unit_accounted L c n (snd (new_message m S1)) \<and> at_hand c (Some (next_message S)) (snd (new_message m S1))"
proof -
  let ?s = "(connections S c, the_world S)"
  have s: "conn_ok L ?s" and id: "self_id (connections S c) = c" and n: "n \<le> next_message S"
    using acc by (simp_all add: accounted_def unit_ok_def)
  have ok: "conn_ok L s1" "self_id (fst s1) = c"
    using preservesD [OF pres_message_ok(1) [of L fuel t k] s]
      preservesD [OF op_stable_operations(9) [OF op_stable_identity [of L c], of fuel t k], of ?s] id got
    by simp_all
  note unit = get_unit [OF L s got]
  show ?thesis
  proof (cases r)
    case None
    have "gets_nothing L ?s s1"
      using unit None operation_grows [OF op_stable_operations(9) got] by (simp add: gets_nothing_def)
    from gets_nothing_open [OF this] acc ok n None show ?thesis
      by (auto simp: S1 accounted_def unit_ok_def unit_clean_def unsettled_since_def)
  next
    case (Some m)
    have "fresh_message (Some c) m"
      using yieldsD [OF get_message_fresh [of c L fuel t k], of ?s r s1] id got Some by (simp add: pred_option_def)
    then show ?thesis
      using ok n Some
      by (auto simp: S1 new_message_apply accounted_def unit_ok_def unsettled_since_def at_hand_def fresh_message_def)
  qed
qed

lemma account_fetch:
  assumes L: "syncpoint_bits L" and runs: "app_runs L F c H"
    and acc: "account L c n None z" and run: "fetch L H fuel t z = (Returns x, z1)"
  shows "account L c n x z1"
proof -
  obtain S p where z: "z = (S, p)" by (cases z)
  define z0 where "z0 = z"
  obtain y z2 where c: "consumer p = Some c" and others: "other_tasks H z2 = (Returns y, z1)"
    and body: "outside (bind (on_connection c (get_message L fuel t (sub_header_max p))) (\<lambda>r. case r of
             None \<Rightarrow> ret None
           | Some m \<Rightarrow> bind (new_message m) (\<lambda>a. ret (Some a)))) z = (Returns x, z2)"
    using run acc by (auto simp: fetch_def awaiting_def z account_def run_simps split: option.splits)
  obtain r s1 where got: "get_message L fuel t (sub_header_max p) (connections S c, the_world S) = (Returns r, s1)"
    and z2: "z2 = (case r of None \<Rightarrow> S\<lparr>connections := (connections S)(c := fst s1), the_world := snd s1\<rparr>
        | Some m \<Rightarrow> snd (new_message m (S\<lparr>connections := (connections S)(c := fst s1), the_world := snd s1\<rparr>)), p)"
    and x: "x = (case r of None \<Rightarrow> None | Some m \<Rightarrow> Some (next_message S))"
  proof -
    obtain S2 where b: "bind (on_connection c (get_message L fuel t (sub_header_max p))) (\<lambda>r. case r of
             None \<Rightarrow> ret None
           | Some m \<Rightarrow> bind (new_message m) (\<lambda>a. ret (Some a))) S = (Returns x, S2)" and z2: "z2 = (S2, p)"
      using body unfolding z outside_run by auto
    obtain r S1 where g: "on_connection c (get_message L fuel t (sub_header_max p)) S = (Returns r, S1)"
      and rest: "(case r of None \<Rightarrow> ret None | Some m \<Rightarrow> bind (new_message m) (\<lambda>a. ret (Some a))) S1 = (Returns x, S2)"
      using b unfolding bind_run by blast
    obtain s1 where s1: "get_message L fuel t (sub_header_max p) (connections S c, the_world S) = (Returns r, s1)"
      "S1 = S\<lparr>connections := (connections S)(c := fst s1), the_world := snd s1\<rparr>"
      using g unfolding on_connection_run by blast
    show thesis
      by (rule that [OF s1(1)]; cases r)
        (use rest z2 in \<open>auto simp: s1(2) ret_apply bind_apply new_message_apply\<close>)
  qed
  have "unit_accounted L c n S" using acc by (simp add: z account_def)
  from account_got [OF L this got refl] have "account L c n x z2"
    using c by (auto simp: z2 x account_def at_hand_def split: option.splits)
  from preservesD [OF account_hooks(2) [OF L runs] this] others show ?thesis by simp
qed

lemma account_forget: "account L c n x z \<Longrightarrow> account L c n None z"
  by (simp add: account_def at_hand_def)

lemma account_turn:
  assumes L: "syncpoint_bits L" and runs: "app_runs L F c H"
    and acc: "account L c n None z" and run: "consume_turn L H fuel z = (Returns True, z')"
  shows "account L c n None z'"
proof -
  obtain x z1 where f: "fetch L H fuel (sub_wait_interval (snd z)) z = (Returns x, z1)"
    and rest: "case x of None \<Rightarrow> z' = z1
        | Some a \<Rightarrow> \<exists>y z2. consume L H True a z1 = (Returns y, z2)
            \<and> (if sub_ack_policy (snd z2) = MANUAL \<and> settled (raw_messages (fst z2) a) = None
               then wait_settled_event H a z2 = (Returns (), z') else z' = z2)"
    using consume_turn_parts [OF run] by blast
  note fetched = account_fetch [OF L runs acc f]
  show ?thesis
  proof (cases x)
    case (Some a)
    then obtain y z2 where c: "consume L H True a z1 = (Returns y, z2)"
      and w: "z' = z2 \<or> wait_settled_event H a z2 = (Returns (), z')"
      using rest by (auto split: if_splits)
    have "account L c n (Some a) z2"
      using preservesD [OF account_consume [OF L runs]] fetched Some c by (metis snd_conv)
    then have "account L c n (Some a) z'"
      using w preservesD [OF account_wait [OF L runs]] by (metis snd_conv)
    then show ?thesis by (rule account_forget)
  qed (use fetched rest in simp)
qed

lemma loop_heads_account:
  assumes "syncpoint_bits L" and "app_runs L F c H"
  shows "loop_heads L H fuel z y \<Longrightarrow> account L c n None z \<Longrightarrow> account L c n None y"
  by (induction rule: loop_heads.induct) (auto intro: account_turn [OF assms])

text \<open>
  C8. No message is got into the unit of work of another. Whenever the consume loop is
  about to fetch a message, the unit of work of its connection contains no get, or one of
  the messages it has taken is still unsettled although its waiters have been released,
  because its settlement failed. In between the handlers and the other tasks may settle
  messages of the connection, publish and send requests on it, close it, and do whatever
  they want to other connections. So a commit settles the message it is called for and no
  other.
\<close>

theorem fetch_in_empty_unit:
  assumes "syncpoint_bits L" and "app_runs L F c H" and "hooks_keep c H"
    and "settles_processed c H (sub_ack_policy p)"
    and "unit_ok L c S" and "unit_clean L c S" and "consumer p = Some c"
    and "loop_heads L H fuel (S, p) (S', p')" and "running p'"
  shows "open_gets L (connections S' c, the_world S') = []
    \<or> (\<exists>b. next_message S \<le> b \<and> b < next_message S' \<and> connection (raw_messages S' b) = Some c
         \<and> settled (raw_messages S' b) = None \<and> settled_event (raw_messages S' b))"
proof -
  have "account L c (next_message S) None (S, p)"
    using assms(5-7) by (simp add: account_def accounted_def at_hand_def)
  then have "unit_clean L c S' \<or> unsettled_since c (next_message S) S'"
    using loop_heads_account [OF assms(1,2,8)] by (simp add: account_def accounted_def)
  moreover have "released c (next_message S) (fst (S, p))" by (auto simp: released_def)
  then have "released c (next_message S) S'"
    using loop_heads_released [OF assms(3,8)] assms(4,9) by simp
  ultimately show ?thesis
    by (auto simp: unit_clean_def unsettled_since_def released_def)
qed

text \<open>A handler that acknowledges its message.\<close>

definition acking_handler :: "mqlib \<Rightarrow> nat \<Rightarrow> handler_result sub_prog" where
  "acking_handler L a =
     bind (outside (get_raw a (parse_message a))) (\<lambda>m.
     seq (outside (with_frame m (ack sample_fslib (connection_acknowledger L) Uninterrupted)))
     (ret \<lparr>result_body = PNone, result_headers = [], result_message_id = None\<rparr>))"

lemma acking_handler_state:
  "snd (acking_handler L a (S, p)) =
     (fst (snd (ack sample_fslib (connection_acknowledger L) Uninterrupted (S, parse_message a (raw_messages S a)))), p)"
  by (simp add: acking_handler_def prog_simps split: outcome.split)

lemma acking_handler_keeps: "keeping c (acking_handler L a)"
proof (rule keepingI)
  fix z :: "mqstate \<times> MQSubscriber"
  obtain S p where z: "z = (S, p)" by (cases z)
  show "keeps_all c z (snd (acking_handler L a z))"
    by (auto simp: z acking_handler_state ack_def settle_with_state parse_message_def keeps_all_def keeps_def
        settled_store_def released_store_def wait_for_broker_settle_def connection_acknowledger_def
        on_connection_apply sample_fslib_def split: option.split outcome.split)
qed

lemma acking_app_runs: "app_runs L sample_fslib c (sample_hooks (acking_handler L))"
  unfolding app_runs_def
proof (intro allI conjI impI)
  fix z :: "mqstate \<times> MQSubscriber" and a
  obtain S p where z: "z = (S, p)" by (cases z)
  show "(app_step L sample_fslib c)\<^sup>*\<^sup>* z (snd (base_stop (sample_hooks (acking_handler L)) z))"
    by (rule r_into_rtranclp) (simp add: z sample_hooks_def local_apply app_fields)
  show "(app_step L sample_fslib c)\<^sup>*\<^sup>* z (snd (other_tasks (sample_hooks (acking_handler L)) z))"
    "(app_step L sample_fslib c)\<^sup>*\<^sup>* z (snd (app_exit (sample_hooks (acking_handler L)) z))"
    by (simp_all add: sample_hooks_def ret_apply)
  assume a: "connection (raw_messages (fst z) a) = Some c"
  have "app_step L sample_fslib c (S, p) (snd (acking_handler L a (S, p)))"
    unfolding acking_handler_state
    by (rule app_settles [where i = Uninterrupted]) (use a in \<open>simp_all add: z parse_message_def\<close>)
  then show "(app_step L sample_fslib c)\<^sup>*\<^sup>* z (snd (base_process_message (sample_hooks (acking_handler L)) a z))"
    by (simp add: z sample_hooks_def r_into_rtranclp)
qed

definition consuming_state :: "mqstate \<times> MQSubscriber" where
  "consuming_state = (empty_state\<lparr>connections := (\<lambda>_. fst sample_started), the_world := snd sample_started\<rparr>,
     sample_subscriber\<lparr>running := True, consumer := Some 1\<rparr>)"

theorem fetch_in_empty_unit_witness:
  "case snd (consume_turn (sample_lib no_faults) (sample_hooks (acking_handler (sample_lib no_faults))) 2 consuming_state) of
     (S, p) \<Rightarrow> next_message S = 1 \<and> open_gets (sample_lib no_faults) (connections S 1, the_world S) = []"
proof -
  let ?L = "sample_lib no_faults"
  let ?H = "sample_hooks (acking_handler ?L)"
  let ?turn = "consume_turn ?L ?H 2 consuming_state"
  obtain S p where z: "consuming_state = (S, p)" by (cases consuming_state)
  have s: "connections S = (\<lambda>_. fst sample_started)" "the_world S = snd sample_started" and pre: "sub_ack_policy p = MANUAL" "next_message S = 0" "consumer p = Some 1"
    using z by (auto simp: consuming_state_def empty_state_def sample_subscriber_def)
  have "self_id (fst sample_started) = 1" "open_gets ?L sample_started = []" by code_simp+
  then have ok: "unit_ok ?L 1 S" "unit_clean ?L 1 S"
    using conn_ok_sample_started by (simp_all add: unit_ok_def unit_clean_def s)
  have "fst ?turn = Returns True" by code_simp
  then obtain S' p' where run: "?turn = (Returns True, (S', p'))" by (cases ?turn) auto
  have heads: "loop_heads ?L ?H 2 (S, p) (S', p')"
    by (rule next_turn [OF first_turn run [unfolded z]])
  have "case snd ?turn of (S, p) \<Rightarrow> running p \<and> next_message S = 1 \<and> settled (raw_messages S 0) = Some ACKED"
    by code_simp
  then have post: "running p'" "next_message S' = 1" "settled (raw_messages S' 0) = Some ACKED"
    by (simp_all add: run)
  have "settles_processed 1 ?H (sub_ack_policy p)" using pre(1) by (simp add: settles_processed_def)
  from fetch_in_empty_unit [OF sample_syncpoint_bits acking_app_runs sample_hooks_keep [OF acking_handler_keeps]
      this ok pre(3) heads post(1)] pre(2) post
  show ?thesis by (auto simp: run)
qed

end
