(* ===== verification/MQ_Wait_Ready.thy ===== *)
theory MQ_Wait_Ready
  imports MQ_Connection
begin

text \<open>
  \<open>src/scripts/wait-mq-ready.py\<close>: the script that waits until every endpoint of a test
  installation answers. It uses \<open>ibmmq\<close> directly and runs on the world alone. What it
  prints, and the chain of exceptions behind its \<open>TimeoutError\<close>, are left out.
\<close>

section \<open>Probing an endpoint\<close>

record MQEndpoint =
  ep_name :: string
  ep_queue_manager :: string
  ep_channel :: string
  ep_conn_name :: string
  ep_username :: string
  ep_password :: string

text \<open>Here a failing import is an exception like any other.\<close>

definition script_load_ibmmq :: "mqlib \<Rightarrow> (world, unit) prog" where
  "script_load_ibmmq L = (case import_ibmmq L of
      Imported \<Rightarrow> ret ()
    | ImportFails e \<Rightarrow> throw (ImportError e))"

text \<open>The call passes no connect options; the library's own are \<open>MQCNO_NONE\<close>, zero.\<close>

definition no_options :: cno where
  "no_options = \<lparr>cno_Options = 0, CCDTUrl = None\<rparr>"

definition probe_connect :: "mqlib \<Rightarrow> MQEndpoint \<Rightarrow> nat \<Rightarrow> call" where
  "probe_connect L ep qm = ConnectTcpClient qm (ep_queue_manager ep) (new_cd L) (ep_channel ep)
     (ep_conn_name ep) (Some (ep_username ep)) (Some (ep_password ep)) no_options None"

text \<open>
  \<open>K w qm\<close> is the truth of \<open>getattr(qmgr, "is_connected", False)\<close>, the library's answer
  whether it believes the queue manager connected.
\<close>

definition probe :: "mqlib \<Rightarrow> (world \<Rightarrow> nat \<Rightarrow> bool) \<Rightarrow> MQEndpoint \<Rightarrow> (world, unit) prog" where
  "probe L K ep =
     seq (script_load_ibmmq L)
     (bind (call_new L NewQueueManager) (\<lambda>qm.
      try_finally
        (seq (call_lib (ans_unit L) (probe_connect L ep qm))
             (call_lib (ans_unit L) (GetName qm)))
        (bind (gets (\<lambda>w. K w qm)) (\<lambda>connected.
         when_do connected (call_lib (ans_unit L) (Disconnect qm))))))"

section \<open>Waiting\<close>

fun wait_attempts ::
  "mqlib \<Rightarrow> (world \<Rightarrow> nat \<Rightarrow> bool) \<Rightarrow> MQEndpoint \<Rightarrow> pyfloat \<Rightarrow> nat \<Rightarrow> pyfloat \<Rightarrow> (world, unit) prog" where
  "wait_attempts L K ep interval 0 deadline = out_of_fuel"
| "wait_attempts L K ep interval (Suc n) deadline =
     bind (call_lib (ans_clock L) Monotonic) (\<lambda>now.
     if now < deadline then
       try_except (probe L K ep)
         (\<lambda>e. if is_exception e
              then seq (call_lib (ans_unit L) (Sleep interval)) (wait_attempts L K ep interval n deadline)
              else throw e)
     else throw TimeoutError)"

definition wait_for_endpoint ::
  "mqlib \<Rightarrow> (world \<Rightarrow> nat \<Rightarrow> bool) \<Rightarrow> nat \<Rightarrow> pyfloat \<Rightarrow> pyfloat \<Rightarrow> MQEndpoint \<Rightarrow> (world, unit) prog" where
  "wait_for_endpoint L K n t interval ep =
     bind (call_lib (ans_clock L) Monotonic) (\<lambda>now. wait_attempts L K ep interval n (now + t))"

section \<open>The script\<close>

text \<open>The parsed arguments with their defaults; \<open>nargs="+"\<close> asks for a connection name.\<close>

record wait_args =
  wa_queue_manager :: string
  wa_channel :: string
  wa_username :: string
  wa_password :: string
  wa_timeout :: pyfloat
  wa_interval :: pyfloat
  wa_conn_names :: "string list"

definition wait_defaults :: "string list \<Rightarrow> wait_args" where
  "wait_defaults names =
     \<lparr>wa_queue_manager = ''QM1'', wa_channel = ''DEV.ADMIN.SVRCONN'', wa_username = ''admin'',
      wa_password = ''password'', wa_timeout = Fin 120 0, wa_interval = Fin 2 0, wa_conn_names = names\<rparr>"

definition endpoints :: "wait_args \<Rightarrow> MQEndpoint list" where
  "endpoints a = map (\<lambda>(index, conn).
     \<lparr>ep_name = ''mq-'' @ show_nat index, ep_queue_manager = wa_queue_manager a, ep_channel = wa_channel a,
      ep_conn_name = conn, ep_username = wa_username a, ep_password = wa_password a\<rparr>)
     (enumerate 1 (wa_conn_names a))"

definition wait_main :: "mqlib \<Rightarrow> (world \<Rightarrow> nat \<Rightarrow> bool) \<Rightarrow> nat \<Rightarrow> wait_args \<Rightarrow> (world, unit) prog" where
  "wait_main L K n a =
     for_each (endpoints a) (\<lambda>ep. wait_for_endpoint L K n (wa_timeout a) (wa_interval a) ep)"

section \<open>What the script promises\<close>

lemma fuel_free_probe [total_rules]: "fuel_free (probe L K ep)"
proof -
  have call: "fuel_free (call_lib ans c)" for ans :: "world \<Rightarrow> call \<Rightarrow> exn + 'a" and c
    by (auto simp: fuel_free_def call_lib_apply split: sum.split)
  have new: "fuel_free (call_new L c)" for c
    by (auto simp: fuel_free_def call_new_apply split: sum.split)
  show ?thesis
    unfolding probe_def script_load_ibmmq_def
    by (cases "import_ibmmq L") (auto intro!: total_rules call new)
qed

text \<open>The clock has been read at most \<open>N\<close> times before it passes the deadline.\<close>

definition readings :: "world \<Rightarrow> nat" where
  "readings w = calls_where (\<lambda>c. c = Monotonic) (history w)"

definition deadline_after :: "mqlib \<Rightarrow> nat \<Rightarrow> pyfloat \<Rightarrow> bool" where
  "deadline_after L N deadline \<longleftrightarrow>
     (\<forall>w now. N \<le> readings w \<longrightarrow> ans_clock L w Monotonic = Inr now \<longrightarrow> \<not> now < deadline)"

lemma readings_record [simp]:
  "readings (record_call c b w) = readings w + (if c = Monotonic then 1 else 0)"
  by (simp add: readings_def calls_where_def)

text \<open>The endpoint answered: connected, and the queue manager gave its name.\<close>

definition answered :: "mqlib \<Rightarrow> MQEndpoint \<Rightarrow> history \<Rightarrow> bool" where
  "answered L ep h \<longleftrightarrow> (\<exists>h0 qm h1. h = h0 @ [(probe_connect L ep qm, True), (GetName qm, True)] @ h1)"

lemma answered_append: "answered L ep h \<Longrightarrow> answered L ep (h @ k)"
  unfolding answered_def by (metis append.assoc)

lemma answered_prepend: "answered L ep h \<Longrightarrow> answered L ep (k @ h)"
  unfolding answered_def by (metis append.assoc)

definition extends :: "world \<Rightarrow> (history \<Rightarrow> bool) \<Rightarrow> world \<Rightarrow> bool" where
  "extends w P w' \<longleftrightarrow> (\<exists>h. history w' = history w @ h \<and> P h)"

lemma probe_grows: "extends w (\<lambda>h. calls_where (\<lambda>c. c = Monotonic) h = 0) (snd (probe L K ep w))"
  by (auto simp: probe_def script_load_ibmmq_def extends_def prog_simps probe_connect_def calls_where_def
      split: import_result.split sum.split)

lemma probe_answers: "probe L K ep w = (Returns (), w') \<Longrightarrow> extends w (answered L ep) w'"
proof -
  assume run: "probe L K ep w = (Returns (), w')"
  then obtain h where "history w' = history w @ [(NewQueueManager, True),
      (probe_connect L ep (length (history w)), True), (GetName (length (history w)), True)] @ h"
    by (auto simp: probe_def script_load_ibmmq_def prog_simps split: import_result.splits sum.splits if_splits)
  then show ?thesis
    unfolding extends_def answered_def
    by (intro exI [of _ "[(NewQueueManager, True), (probe_connect L ep (length (history w)), True),
         (GetName (length (history w)), True)] @ h"])
       (auto intro: exI [of _ "[(NewQueueManager, True)]"])
qed

lemma extends_any: "extends u (\<lambda>_. True) v \<Longrightarrow> extends v (\<lambda>_. True) w \<Longrightarrow> extends u (\<lambda>_. True) w"
  by (auto simp: extends_def)

lemma extends_answered:
  "extends u (\<lambda>_. True) v \<Longrightarrow> extends v (answered L ep) w \<Longrightarrow> extends u (answered L ep) w"
  by (auto simp: extends_def intro: answered_prepend)

lemma extends_all_answered:
  "extends u (answered L ep) v \<Longrightarrow> extends v (\<lambda>h. \<forall>ep \<in> set eps. answered L ep h) w \<Longrightarrow>
     extends u (\<lambda>h. \<forall>ep \<in> set (ep # eps). answered L ep h) w"
  unfolding extends_def by (metis append.assoc answered_append answered_prepend set_ConsD)

text \<open>
  How waiting may end: the endpoint answered, the last thing done was to read a clock
  that had passed the deadline, or something that is no ordinary exception broke in.
\<close>

definition timed_out :: "mqlib \<Rightarrow> pyfloat \<Rightarrow> world \<Rightarrow> bool" where
  "timed_out L deadline w' \<longleftrightarrow>
     (\<exists>w now. w' = record_call Monotonic True w \<and> ans_clock L w Monotonic = Inr now \<and> \<not> now < deadline)"

definition waited :: "mqlib \<Rightarrow> MQEndpoint \<Rightarrow> (pyfloat \<Rightarrow> bool) \<Rightarrow> world \<Rightarrow> unit outcome \<times> world \<Rightarrow> bool" where
  "waited L ep D w x = (case fst x of
      Returns _ \<Rightarrow> extends w (answered L ep) (snd x)
    | Raises e \<Rightarrow> extends w (\<lambda>_. True) (snd x)
        \<and> (is_exception e \<longrightarrow> e = TimeoutError \<and> (\<exists>deadline. D deadline \<and> timed_out L deadline (snd x)))
    | NoFuel \<Rightarrow> False)"

text \<open>The clock and the sleep raise no ordinary exception.\<close>

definition steady :: "mqlib \<Rightarrow> bool" where
  "steady L \<longleftrightarrow> (\<forall>w e. ans_clock L w Monotonic = Inl e \<longrightarrow> \<not> is_exception e)
     \<and> (\<forall>w e t. ans_unit L w (Sleep t) = Inl e \<longrightarrow> \<not> is_exception e)"

lemma waited_later:
  "waited L ep D w' x \<Longrightarrow> extends w (\<lambda>_. True) w' \<Longrightarrow> waited L ep D w x"
  unfolding waited_def
  by (auto split: outcome.splits intro: extends_any extends_answered)

lemma wait_attempts_decides:
  assumes "steady L" and "deadline_after L N deadline" and "N - readings w < n"
  shows "waited L ep ((=) deadline) w (wait_attempts L K ep interval n deadline w)"
  using assms(3)
proof (induction n arbitrary: w)
  case (Suc n)
  show ?case
  proof (cases "ans_clock L w Monotonic")
    case (Inl e)
    then show ?thesis
      using assms(1) by (auto simp: waited_def steady_def prog_simps extends_def)
  next
    case (Inr now)
    let ?w1 = "record_call Monotonic True w"
    let ?w2 = "snd (probe L K ep ?w1)"
    have w1: "extends w (\<lambda>_. True) ?w1" by (simp add: extends_def)
    have w2: "extends w (\<lambda>_. True) ?w2" "readings w < readings ?w2"
      using probe_grows [of ?w1 L K ep] by (auto simp: extends_def readings_def calls_where_def)
    have free: "fst (probe L K ep ?w1) \<noteq> NoFuel" by (rule fuel_freeD) (rule fuel_free_probe)
    show ?thesis
    proof (cases "now < deadline")
      case False
      with Inr show ?thesis by (auto simp: waited_def prog_simps extends_def timed_out_def)
    next
      case True
      then have few: "readings w < N" using assms(2) Inr by (auto simp: deadline_after_def not_le)
      have wait: "wait_attempts L K ep interval (Suc n) deadline w = try_except (probe L K ep)
         (\<lambda>e. if is_exception e
              then seq (call_lib (ans_unit L) (Sleep interval)) (wait_attempts L K ep interval n deadline)
              else throw e) ?w1"
        using Inr True by (simp add: bind_apply call_lib_apply)
      show ?thesis
      proof (cases "fst (probe L K ep ?w1)")
        case (Returns u)
        then have "extends ?w1 (answered L ep) ?w2"
          by (intro probe_answers [of L K ep]) (simp add: prod_eq_iff)
        then show ?thesis
          unfolding wait using Returns w1
          by (auto simp: waited_def try_except_apply intro: extends_answered)
      next
        case (Raises e)
        let ?w3 = "record_call (Sleep interval) True ?w2"
        have "waited L ep ((=) deadline) ?w3 (wait_attempts L K ep interval n deadline ?w3)"
          using Suc.prems w2(2) few by (intro Suc.IH) simp
        moreover have "extends w (\<lambda>_. True) ?w3" using w2(1) by (auto simp: extends_def)
        ultimately have again: "waited L ep ((=) deadline) w (wait_attempts L K ep interval n deadline ?w3)"
          by (rule waited_later)
        have sleep: "waited L ep ((=) deadline) w (Raises e', record_call (Sleep interval) False ?w2)"
          if "ans_unit L ?w2 (Sleep interval) = Inl e'" for e'
        proof -
          have "\<not> is_exception e'" using assms(1) that unfolding steady_def by blast
          with w2(1) show ?thesis by (auto simp: waited_def extends_def)
        qed
        show ?thesis
        proof (cases "is_exception e")
          case True
          then show ?thesis
            unfolding wait using Raises again sleep
            by (cases "ans_unit L ?w2 (Sleep interval)") (simp_all add: try_except_apply seq_apply call_lib_apply)
        next
          case False
          then show ?thesis
            unfolding wait using Raises w2(1) by (simp add: waited_def try_except_apply throw_apply)
        qed
      qed (use free in simp)
    qed
  qed
qed simp

text \<open>From any reading on, at most \<open>N\<close> more are before that time plus the time-out.\<close>

definition clock_runs :: "mqlib \<Rightarrow> nat \<Rightarrow> pyfloat \<Rightarrow> bool" where
  "clock_runs L N t \<longleftrightarrow> (\<forall>w now. ans_clock L w Monotonic = Inr now \<longrightarrow> deadline_after L (readings w + N) (now + t))"

lemma wait_for_endpoint_decides:
  assumes "steady L" and "clock_runs L N t" and "N < n"
  shows "waited L ep (\<lambda>d. \<exists>w now. ans_clock L w Monotonic = Inr now \<and> d = now + t) w (wait_for_endpoint L K n t interval ep w)"
proof (cases "ans_clock L w Monotonic")
  case (Inl e)
  then show ?thesis
    using assms(1) by (auto simp: wait_for_endpoint_def waited_def steady_def prog_simps extends_def)
next
  case (Inr now)
  let ?w = "record_call Monotonic True w"
  have "waited L ep ((=) (now + t)) ?w (wait_attempts L K ep interval n (now + t) ?w)"
    using assms Inr by (intro wait_attempts_decides [of L "readings w + N"]) (auto simp: clock_runs_def)
  then have "waited L ep ((=) (now + t)) w (wait_attempts L K ep interval n (now + t) ?w)"
    by (rule waited_later) (simp add: extends_def)
  then show ?thesis
    using Inr by (auto simp: wait_for_endpoint_def bind_apply call_lib_apply waited_def split: outcome.splits)
qed

text \<open>
  C30. The waiting script decides. When the clock runs, it ends with a budget of one more
  turn than there are readings within the time-out. It returns only if every endpoint has
  answered: connected to, and asked for its name. It raises an ordinary exception only if
  that is a \<open>TimeoutError\<close>, after a reading of the clock at or past the deadline of one of
  the endpoints. This holds whatever the endpoints do and the library believes about its
  connections.
\<close>

theorem wait_script_decides:
  assumes "steady L" and "clock_runs L N (wa_timeout a)" and "N < n"
  shows "case wait_main L K n a w of
      (Returns _, w') \<Rightarrow> \<forall>ep \<in> set (endpoints a). \<exists>h. history w' = history w @ h \<and> answered L ep h
    | (Raises e, w') \<Rightarrow> is_exception e \<longrightarrow> e = TimeoutError
        \<and> (\<exists>v now. ans_clock L v Monotonic = Inr now \<and> timed_out L (now + wa_timeout a) w')
    | (NoFuel, w') \<Rightarrow> False"
proof -
  let ?D = "\<lambda>d. \<exists>w now. ans_clock L w Monotonic = Inr now \<and> d = now + wa_timeout a"
  let ?f = "\<lambda>ep. wait_for_endpoint L K n (wa_timeout a) (wa_interval a) ep"
  have all: "case fst (for_each eps ?f w) of
      Returns _ \<Rightarrow> extends w (\<lambda>h. \<forall>ep \<in> set eps. answered L ep h) (snd (for_each eps ?f w))
    | Raises e \<Rightarrow> is_exception e \<longrightarrow> e = TimeoutError \<and> (\<exists>d. ?D d \<and> timed_out L d (snd (for_each eps ?f w)))
    | NoFuel \<Rightarrow> False" for eps w
  proof (induction eps arbitrary: w)
    case Nil
    show ?case by (simp add: prog_simps extends_def)
  next
    case (Cons ep eps)
    note first = wait_for_endpoint_decides [OF assms, of ep w K "wa_interval a"]
    note rest = Cons.IH [of "snd (?f ep w)"]
    show ?case
    proof (cases "fst (?f ep w)")
      case (Returns u)
      then have "extends w (answered L ep) (snd (?f ep w))" using first by (simp add: waited_def)
      then show ?thesis
        using Returns rest
        by (auto simp: seq_apply split: outcome.splits dest: extends_all_answered)
    qed (use first in \<open>auto simp: waited_def seq_apply\<close>)
  qed
  show ?thesis
    using all [where eps = "endpoints a" and w = w]
    by (auto simp: wait_main_def extends_def split: prod.splits outcome.splits) blast+
qed

definition sample_clock :: "mqlib \<Rightarrow> mqlib" where
  "sample_clock L = L\<lparr>ans_clock := (\<lambda>w c. Inr (if readings w < 2 then Fin 0 0 else PosInf))\<rparr>"

theorem wait_script_decides_witness:
  "case wait_main (sample_clock (sample_lib no_faults)) (\<lambda>w q. True) 3 (wait_defaults [''10.0.0.1(1414)'']) empty_world of
     (Returns _, w') \<Rightarrow> \<forall>ep \<in> set (endpoints (wait_defaults [''10.0.0.1(1414)''])).
        \<exists>h. history w' = history empty_world @ h \<and> answered (sample_clock (sample_lib no_faults)) ep h
   | _ \<Rightarrow> False"
proof -
  let ?L = "sample_clock (sample_lib no_faults)" and ?a = "wait_defaults [''10.0.0.1(1414)'']"
  have late: "\<not> PosInf < Fin 0 0 + Fin 120 0" "\<not> PosInf < PosInf + Fin 120 0" by code_simp+
  have "steady ?L"
    by (simp add: steady_def sample_clock_def sample_lib_def answer_unless_def no_faults_def)
  moreover have "clock_runs ?L 2 (wa_timeout ?a)"
    by (auto simp: clock_runs_def deadline_after_def sample_clock_def wait_defaults_def late
        simp del: plus_pyfloat.simps split: if_splits)
  moreover have "is_returns (fst (wait_main ?L (\<lambda>w q. True) 3 ?a empty_world))" by code_simp
  ultimately show ?thesis
    using wait_script_decides [where L = ?L and N = 2 and a = ?a and n = 3 and K = "\<lambda>w q. True" and w = empty_world] by (auto split: prod.splits outcome.splits)
qed

end
